theory Spec2Isabelle
  imports Complex_Main
begin

section \<open>Hydra Tracker: data model\<close>

text \<open>
  The interfaces of \<^verbatim>\<open>types.ts\<close>. JavaScript numbers that carry integers (identities,
  millilitres, minutes, years, months) are \<open>int\<close>. A calendar day, which the store hands
  to the front end as a \<^verbatim>\<open>YYYY-MM-DD\<close> string, is kept as its three components.
  Field names that two interfaces share are suffixed in the later record
  (\<open>id_w\<close>, \<open>date_d\<close>, \<open>year_m\<close>, \<open>total_ml_m\<close>).
\<close>

record CalDay =
  cal_year :: int
  cal_month :: int
  cal_day :: int

record WaterEntry =
  id_w :: int
  amount_ml :: int
  timestamp :: string
  date :: CalDay

record DailyStats =
  date_d :: CalDay
  total_ml :: int
  goal_ml :: int
  entries_count :: int
  percentage :: rat

record Settings =
  daily_goal_ml :: int
  reminder_interval_minutes :: int
  reminder_enabled :: bool
  sound_enabled :: bool
  start_with_system :: bool
  theme :: string

text \<open>The argument of \<^verbatim>\<open>handleSaveSettings\<close> is a \<^verbatim>\<open>Partial<Settings>\<close>: every field may be absent.\<close>

record PartialSettings =
  p_daily_goal_ml :: "int option"
  p_reminder_interval_minutes :: "int option"
  p_reminder_enabled :: "bool option"
  p_sound_enabled :: "bool option"
  p_start_with_system :: "bool option"
  p_theme :: "string option"

definition defaultSettings :: Settings where
  "defaultSettings =
     \<lparr>daily_goal_ml = 4000, reminder_interval_minutes = 60, reminder_enabled = True,
      sound_enabled = True, start_with_system = False, theme = ''dark''\<rparr>"

section \<open>Month navigation\<close>

text \<open>The state \<^verbatim>\<open>selectedMonth\<close> and the updater that \<^verbatim>\<open>navigateMonth\<close> passes to
  \<^verbatim>\<open>setSelectedMonth\<close>.\<close>

record SelectedMonth =
  year :: int
  month :: int

definition navigateMonth :: "int \<Rightarrow> SelectedMonth \<Rightarrow> SelectedMonth" where
  "navigateMonth direction prev =
     (let newMonth = month prev + direction;
          newYear = year prev
      in if newMonth > 12 then \<lparr>year = newYear + 1, month = 1\<rparr>
         else if newMonth < 1 then \<lparr>year = newYear - 1, month = 12\<rparr>
         else \<lparr>year = newYear, month = newMonth\<rparr>)"

section \<open>The world around the component\<close>

text \<open>
  Every call that leaves the component is recorded in \<open>trace\<close>, in the order in which it
  is issued: the commands sent to the store through \<^verbatim>\<open>invoke\<close>, the autostart plugin, the
  notification plugin.
\<close>

datatype notification =
    Test_message int    \<comment> \<open>"Reminder system active! You will be notified every n minutes."\<close>
  | Reminder_message    \<comment> \<open>"Time to drink some water! Stay hydrated."\<close>

datatype call =
    Get_today_stats
  | Get_today_entries
  | Get_settings
  | Save_settings Settings
  | Add_water int
  | Remove_entry int
  | Is_autostart_enabled
  | Enable_autostart
  | Disable_autostart
  | Is_permission_granted
  | Request_permission
  | Send_notification notification

text \<open>The failure taxonomy of the specification; a rejected promise carries one of these.\<close>

datatype error = ValidationError | PermissionDenied | OSIntegrationError | StoreError

text \<open>The answer of \<^verbatim>\<open>requestPermission\<close>: \<^verbatim>\<open>'granted' | 'denied' | 'default'\<close>.\<close>

datatype Permission = Granted | Denied | Default_permission

text \<open>The first argument of \<^verbatim>\<open>playSound\<close>.\<close>

datatype sound_type = Snd_typewriter | Snd_add | Snd_delete | Snd_achievement | Snd_error | Snd_move

text \<open>The texts that \<^verbatim>\<open>setToast\<close> receives.\<close>

datatype toast_message =
    Toast_empty                 \<comment> \<open>the empty string\<close>
  | Toast_permission_required   \<comment> \<open>"Notification permission required for reminders! Check system settings."\<close>
  | Toast_added int             \<comment> \<open>"Added n ml"\<close>
  | Toast_autostart_failed      \<comment> \<open>"Failed to update autostart setting"\<close>

text \<open>
  The timers of the event loop. \<^verbatim>\<open>setTimeout\<close> and \<^verbatim>\<open>setInterval\<close> draw their handles
  from one pool of positive numbers; the callback of a timer is identified by its kind,
  together with the \<^verbatim>\<open>settings\<close> its closure captured.
\<close>

datatype timer_kind =
    Test_notification Settings   \<comment> \<open>the one-shot of \<^verbatim>\<open>setupReminder\<close>, 2000 ms\<close>
  | Reminder_interval Settings   \<comment> \<open>the recurring timer of \<^verbatim>\<open>setupReminder\<close>\<close>
  | Hide_toast                   \<comment> \<open>hides the toast again\<close>
  | Hide_achievement             \<comment> \<open>hides the achievement banner, 5000 ms\<close>

record timer =
  handle :: nat
  delay_ms :: int
  recurring :: bool
  kind :: timer_kind

text \<open>
  A call of \<^verbatim>\<open>setupReminder\<close> that is suspended at one of its two \<^verbatim>\<open>await\<close>s, with the
  \<^verbatim>\<open>settings\<close> of the render that started it.
\<close>

datatype stage = Await_isPermissionGranted | Await_requestPermission

datatype lifecycle = Rendered | Mounted | Unmounted

text \<open>
  The state: the React state and refs of \<^verbatim>\<open>App\<close>, the \<^verbatim>\<open>data-theme\<close> attribute of the
  document, the event loop (live timers, suspended \<^verbatim>\<open>setupReminder\<close> calls), what the
  component emitted (sounds, console errors and warnings, toasts), and the collaborators:
  the record store behind \<^verbatim>\<open>invoke\<close>, the autostart registration of the operating system,
  and \<open>faults\<close>, which says for each position in \<open>trace\<close> whether the call issued at that
  position fails. The state that only selects what is rendered (the tab, the month shown
  and its loaded statistics) is kept apart: see \<open>navigateMonth\<close> and
  \<open>get_monthly_stats\<close>.
\<close>

record app =
  stats :: "DailyStats option"
  entries :: "WaterEntry list"
  settings :: Settings
  customAmount :: string
  toast :: "toast_message \<times> bool"
  achievement :: "bool \<times> string"
  reminderInterval :: "nat option"
  achievementTimeout :: "nat option"
  data_theme :: "string option"
  lifecycle :: lifecycle
  timers :: "timer list"
  next_handle :: nat
  pending :: "(stage \<times> Settings) list"
  sounds :: "string list"
  console :: "string list"
  toast_log :: "toast_message list"
  db_entries :: "WaterEntry list"
  db_settings :: Settings
  db_next_id :: int
  today :: CalDay
  now :: string
  os_autostart :: bool
  faults :: "nat \<Rightarrow> bool"
  trace :: "call list"

definition log_call :: "call \<Rightarrow> app \<Rightarrow> app" where
  "log_call c st = st\<lparr>trace := trace st @ [c]\<rparr>"

text \<open>Issuing a call: it is recorded, and \<open>faults\<close> decides whether it fails.\<close>

definition issue :: "call \<Rightarrow> app \<Rightarrow> bool \<times> app" where
  "issue c st = (faults st (length (trace st)), log_call c st)"

subsection \<open>The record store\<close>

text \<open>
  Modelled from the spec: the record store (the Rust commands behind \<^verbatim>\<open>invoke\<close> are not
  among the sources). \<open>DailyStats\<close> of a day sums the entries of that day against the
  configured goal, \<open>percentage = total_ml / goal_ml * 100\<close> (a goal of 0, which the
  specification calls invalid input, gives 0 here); \<open>add_entry\<close> fails for a non-positive
  amount; \<open>remove_entry\<close> answers success or not-found; \<open>get_settings\<close> and
  \<open>save_settings\<close> read and write the persisted singleton.
\<close>

definition entries_on :: "CalDay \<Rightarrow> WaterEntry list \<Rightarrow> WaterEntry list" where
  "entries_on d es = filter (\<lambda>e. date e = d) es"

definition daily_stats :: "CalDay \<Rightarrow> int \<Rightarrow> WaterEntry list \<Rightarrow> DailyStats" where
  "daily_stats d goal es =
     (let total = sum_list (map amount_ml (entries_on d es))
      in \<lparr>date_d = d, total_ml = total, goal_ml = goal,
          entries_count = int (length (entries_on d es)),
          percentage = of_int total / of_int goal * 100\<rparr>)"

definition get_today_stats :: "app \<Rightarrow> (error + DailyStats) \<times> app" where
  "get_today_stats st =
     (case issue Get_today_stats st of
        (True, s) \<Rightarrow> (Inl StoreError, s)
      | (False, s) \<Rightarrow> (Inr (daily_stats (today s) (daily_goal_ml (db_settings s)) (db_entries s)), s))"

definition get_today_entries :: "app \<Rightarrow> (error + WaterEntry list) \<times> app" where
  "get_today_entries st =
     (case issue Get_today_entries st of
        (True, s) \<Rightarrow> (Inl StoreError, s)
      | (False, s) \<Rightarrow> (Inr (entries_on (today s) (db_entries s)), s))"

definition get_settings :: "app \<Rightarrow> (error + Settings) \<times> app" where
  "get_settings st =
     (case issue Get_settings st of
        (True, s) \<Rightarrow> (Inl StoreError, s)
      | (False, s) \<Rightarrow> (Inr (db_settings s), s))"

definition save_settings :: "Settings \<Rightarrow> app \<Rightarrow> (error + unit) \<times> app" where
  "save_settings new st =
     (case issue (Save_settings new) st of
        (True, s) \<Rightarrow> (Inl StoreError, s)
      | (False, s) \<Rightarrow> (Inr (), s\<lparr>db_settings := new\<rparr>))"

definition add_water :: "int \<Rightarrow> app \<Rightarrow> (error + unit) \<times> app" where
  "add_water amountMl st =
     (case issue (Add_water amountMl) st of
        (True, s) \<Rightarrow> (Inl StoreError, s)
      | (False, s) \<Rightarrow>
          if amountMl \<le> 0 then (Inl ValidationError, s)
          else (Inr (),
                s\<lparr>db_entries := db_entries s @
                     [\<lparr>id_w = db_next_id s, amount_ml = amountMl, timestamp = now s, date = today s\<rparr>],
                  db_next_id := db_next_id s + 1\<rparr>))"

definition remove_entry :: "int \<Rightarrow> app \<Rightarrow> (error + unit) \<times> app" where
  "remove_entry i st =
     (case issue (Remove_entry i) st of
        (True, s) \<Rightarrow> (Inl StoreError, s)
      | (False, s) \<Rightarrow> (Inr (), s\<lparr>db_entries := filter (\<lambda>e. id_w e \<noteq> i) (db_entries s)\<rparr>))"

subsection \<open>The autostart plugin\<close>

text \<open>
  \<^verbatim>\<open>isEnabled\<close> reports the registration; \<^verbatim>\<open>enable\<close> and \<^verbatim>\<open>disable\<close> change it when
  they succeed and leave it alone when they fail.
\<close>

definition isAutostartEnabled :: "app \<Rightarrow> (error + bool) \<times> app" where
  "isAutostartEnabled st =
     (case issue Is_autostart_enabled st of
        (True, s) \<Rightarrow> (Inl OSIntegrationError, s)
      | (False, s) \<Rightarrow> (Inr (os_autostart s), s))"

definition enableAutostart :: "app \<Rightarrow> (error + unit) \<times> app" where
  "enableAutostart st =
     (case issue Enable_autostart st of
        (True, s) \<Rightarrow> (Inl OSIntegrationError, s)
      | (False, s) \<Rightarrow> (Inr (), s\<lparr>os_autostart := True\<rparr>))"

definition disableAutostart :: "app \<Rightarrow> (error + unit) \<times> app" where
  "disableAutostart st =
     (case issue Disable_autostart st of
        (True, s) \<Rightarrow> (Inl OSIntegrationError, s)
      | (False, s) \<Rightarrow> (Inr (), s\<lparr>os_autostart := False\<rparr>))"

subsection \<open>Sounds, console, timers, toasts\<close>

definition sound_file :: "sound_type \<Rightarrow> string" where
  "sound_file ty =
     (case ty of
        Snd_typewriter \<Rightarrow> ''/sounds/Select.wav''
      | Snd_add \<Rightarrow> ''/sounds/Select.wav''
      | Snd_move \<Rightarrow> ''/sounds/Move.wav''
      | Snd_delete \<Rightarrow> ''/sounds/Back.wav''
      | Snd_error \<Rightarrow> ''/sounds/Back.wav''
      | Snd_achievement \<Rightarrow> ''/sounds/Select.wav'')"

definition playSound :: "sound_type \<Rightarrow> bool \<Rightarrow> app \<Rightarrow> app" where
  "playSound ty enabled st =
     (if \<not> enabled then st else st\<lparr>sounds := sounds st @ [sound_file ty]\<rparr>)"

text \<open>\<^verbatim>\<open>console.error\<close> and \<^verbatim>\<open>console.warn\<close>; \<^verbatim>\<open>console.log\<close> is not modelled.\<close>

definition console_error :: "string \<Rightarrow> app \<Rightarrow> app" where
  "console_error msg st = st\<lparr>console := console st @ [msg]\<rparr>"

definition setTimer :: "int \<Rightarrow> bool \<Rightarrow> timer_kind \<Rightarrow> app \<Rightarrow> nat \<times> app" where
  "setTimer ms again k st =
     (next_handle st,
      st\<lparr>timers := timers st @ [\<lparr>handle = next_handle st, delay_ms = ms, recurring = again, kind = k\<rparr>],
         next_handle := Suc (next_handle st)\<rparr>)"

text \<open>\<^verbatim>\<open>clearInterval\<close> and \<^verbatim>\<open>clearTimeout\<close>: the timer with that handle, if live, is gone.\<close>

definition clearTimer :: "nat \<Rightarrow> app \<Rightarrow> app" where
  "clearTimer h st = st\<lparr>timers := filter (\<lambda>t. handle t \<noteq> h) (timers st)\<rparr>"

definition setToast :: "toast_message \<Rightarrow> bool \<Rightarrow> app \<Rightarrow> app" where
  "setToast m sh st =
     (if sh then st\<lparr>toast := (m, sh), toast_log := toast_log st @ [m]\<rparr>
      else st\<lparr>toast := (m, sh)\<rparr>)"

definition showToast :: "toast_message \<Rightarrow> app \<Rightarrow> app" where
  "showToast m st = snd (setTimer 2000 False Hide_toast (setToast m True st))"

section \<open>The reminder scheduler\<close>

text \<open>
  The effect that owns the scheduler runs \<^verbatim>\<open>setupReminder\<close>, an asynchronous function
  with two \<^verbatim>\<open>await\<close>s. It is modelled in the pieces between them: the part up to the
  first \<^verbatim>\<open>await\<close> runs when the effect runs; the rest runs when the answer of the
  permission query arrives, which may be after other events.
\<close>

text \<open>
  Lines 250 to 253, and again 278 to 281: clear the interval the ref holds. The test
  \<^verbatim>\<open>if (reminderInterval.current)\<close> fails for \<^verbatim>\<open>null\<close> and for the number 0.
\<close>

definition disarm :: "app \<Rightarrow> app" where
  "disarm st =
     (case reminderInterval st of
        None \<Rightarrow> st
      | Some h \<Rightarrow> if h \<noteq> 0 then (clearTimer h st)\<lparr>reminderInterval := None\<rparr> else st)"

text \<open>The cleanup of the effect, lines 326 to 333: the refs keep their handles.\<close>

definition effect_cleanup :: "app \<Rightarrow> app" where
  "effect_cleanup st =
     (let s1 = (case reminderInterval st of
                  None \<Rightarrow> st
                | Some h \<Rightarrow> if h \<noteq> 0 then clearTimer h st else st)
      in case achievementTimeout s1 of
           None \<Rightarrow> s1
         | Some h \<Rightarrow> if h \<noteq> 0 then clearTimer h s1 else s1)"

text \<open>Lines 275 to 321: permission is granted.\<close>

definition arm :: "Settings \<Rightarrow> app \<Rightarrow> app" where
  "arm s st =
     (let s1 = disarm st;
          intervalMs = reminder_interval_minutes s * 60 * 1000;
          s2 = snd (setTimer 2000 False (Test_notification s) s1);
          (h, s3) = setTimer intervalMs True (Reminder_interval s) s2
      in s3\<lparr>reminderInterval := Some h\<rparr>)"

text \<open>Lines 268 to 273: permission is not granted.\<close>

definition permission_refused :: "app \<Rightarrow> app" where
  "permission_refused st =
     (let s1 = console_error ''Notification permission not granted. Reminders will not work.'' st;
          s2 = setToast Toast_permission_required True s1
      in snd (setTimer 5000 False Hide_toast s2))"

text \<open>Lines 249 to 258: up to the first \<^verbatim>\<open>await\<close>.\<close>

definition setupReminder_start :: "Settings \<Rightarrow> app \<Rightarrow> app" where
  "setupReminder_start s st =
     (if \<not> reminder_enabled s then disarm st
      else (log_call Is_permission_granted st)
             \<lparr>pending := pending st @ [(Await_isPermissionGranted, s)]\<rparr>)"

text \<open>Lines 258 to 263: the answer of \<^verbatim>\<open>isPermissionGranted\<close> has arrived.\<close>

definition after_isPermissionGranted :: "Settings \<Rightarrow> bool \<Rightarrow> app \<Rightarrow> app" where
  "after_isPermissionGranted s permissionGranted st =
     (if \<not> permissionGranted
      then (log_call Request_permission st)
             \<lparr>pending := pending st @ [(Await_requestPermission, s)]\<rparr>
      else arm s st)"

text \<open>Lines 263 to 273: the answer of \<^verbatim>\<open>requestPermission\<close> has arrived.\<close>

definition after_requestPermission :: "Settings \<Rightarrow> Permission \<Rightarrow> app \<Rightarrow> app" where
  "after_requestPermission s permission st =
     (let permissionGranted = (permission = Granted)
      in if \<not> permissionGranted then permission_refused st else arm s st)"

definition remove_nth :: "nat \<Rightarrow> 'a list \<Rightarrow> 'a list" where
  "remove_nth k xs = take k xs @ drop (Suc k) xs"

definition resolve_isPermissionGranted :: "nat \<Rightarrow> bool \<Rightarrow> app \<Rightarrow> app" where
  "resolve_isPermissionGranted k b st =
     (if k < length (pending st) \<and> fst (pending st ! k) = Await_isPermissionGranted
      then after_isPermissionGranted (snd (pending st ! k)) b
             (st\<lparr>pending := remove_nth k (pending st)\<rparr>)
      else st)"

definition resolve_requestPermission :: "nat \<Rightarrow> Permission \<Rightarrow> app \<Rightarrow> app" where
  "resolve_requestPermission k perm st =
     (if k < length (pending st) \<and> fst (pending st ! k) = Await_requestPermission
      then after_requestPermission (snd (pending st ! k)) perm
             (st\<lparr>pending := remove_nth k (pending st)\<rparr>)
      else st)"

text \<open>
  A permission query that is rejected: \<^verbatim>\<open>setupReminder\<close> has no handler around it, the
  call ends there.
\<close>

definition reject_permission :: "nat \<Rightarrow> app \<Rightarrow> app" where
  "reject_permission k st =
     (if k < length (pending st) then st\<lparr>pending := remove_nth k (pending st)\<rparr> else st)"

text \<open>
  The dependencies of the effect, line 334. \<open>setSettings\<close> stores the new settings and
  schedules a render; it runs nothing itself. \<open>rerender prev\<close> is that render, \<open>prev\<close>
  being the settings of the render before: it runs the effect again (the cleanup of the
  last run, then \<^verbatim>\<open>setupReminder\<close> up to its first \<^verbatim>\<open>await\<close>) exactly when a dependency
  has changed. A handler that has called \<open>setSettings\<close> goes on to its next \<^verbatim>\<open>await\<close>
  before the render happens, so the call it issues there comes before the calls of the
  effect.
\<close>

definition reminder_deps :: "Settings \<Rightarrow> bool \<times> int" where
  "reminder_deps s = (reminder_enabled s, reminder_interval_minutes s)"

definition setSettings :: "Settings \<Rightarrow> app \<Rightarrow> app" where
  "setSettings new st = st\<lparr>settings := new\<rparr>"

definition rerender :: "Settings \<Rightarrow> app \<Rightarrow> app" where
  "rerender prev st =
     (if reminder_deps (settings st) = reminder_deps prev then st
      else setupReminder_start (settings st) (effect_cleanup st))"

text \<open>The callbacks of the timers. A one-shot timer is gone once it has fired.\<close>

definition notify :: "notification \<Rightarrow> string \<Rightarrow> Settings \<Rightarrow> app \<Rightarrow> app" where
  "notify n failure s st =
     (case issue (Send_notification n) st of
        (True, s1) \<Rightarrow> console_error ''Error details:'' (console_error failure s1)
      | (False, s1) \<Rightarrow> playSound Snd_add (sound_enabled s) s1)"

definition fire :: "nat \<Rightarrow> app \<Rightarrow> app" where
  "fire h st =
     (case find (\<lambda>t. handle t = h) (timers st) of
        None \<Rightarrow> st
      | Some t \<Rightarrow>
          (let s1 = (if recurring t then st else clearTimer h st)
           in case kind t of
                Test_notification s \<Rightarrow>
                  notify (Test_message (reminder_interval_minutes s))
                    ''Failed to send test notification:'' s s1
              | Reminder_interval s \<Rightarrow>
                  notify Reminder_message ''Failed to send reminder notification:'' s s1
              | Hide_toast \<Rightarrow> setToast Toast_empty False s1
              | Hide_achievement \<Rightarrow> s1\<lparr>achievement := (False, [])\<rparr>))"

section \<open>Loading, adding, removing, saving\<close>

text \<open>
  The handlers below run from their first line to their last without another handler in
  between; their \<^verbatim>\<open>await\<close>s are answered by the collaborators on the spot.
\<close>

text \<open>Lines 181 to 185: \<^verbatim>\<open>Promise.all\<close> issues the three reads and fails if one of them fails.\<close>

definition load_reads :: "app \<Rightarrow> (error + DailyStats \<times> WaterEntry list \<times> Settings) \<times> app" where
  "load_reads st =
     (let (r1, s1) = get_today_stats st;
          (r2, s2) = get_today_entries s1;
          (r3, s3) = get_settings s2
      in case (r1, r2, r3) of
           (Inr todayStats, Inr todayEntries, Inr savedSettings) \<Rightarrow>
             (Inr (todayStats, todayEntries, savedSettings), s3)
         | (Inl e, _, _) \<Rightarrow> (Inl e, s3)
         | (_, Inl e, _) \<Rightarrow> (Inl e, s3)
         | (_, _, Inl e) \<Rightarrow> (Inl e, s3))"

text \<open>
  Lines 189 to 199: the inner \<^verbatim>\<open>try\<close>. \<^verbatim>\<open>savedSettings\<close> is mutated before it is saved, and
  a failure of either call is caught here.
\<close>

definition sync_autostart :: "Settings \<Rightarrow> app \<Rightarrow> Settings \<times> app" where
  "sync_autostart savedSettings st =
     (case isAutostartEnabled st of
        (Inl e, s1) \<Rightarrow> (savedSettings, console_error ''Failed to check autostart status:'' s1)
      | (Inr autostartEnabled, s1) \<Rightarrow>
          if start_with_system savedSettings \<noteq> autostartEnabled
          then (let corrected = savedSettings\<lparr>start_with_system := autostartEnabled\<rparr>
                in case save_settings corrected s1 of
                     (Inl e, s2) \<Rightarrow>
                       (corrected, console_error ''Failed to check autostart status:'' s2)
                   | (Inr u, s2) \<Rightarrow> (corrected, s2))
          else (savedSettings, s1))"

text \<open>
  Lines 186 to 207: what \<^verbatim>\<open>loadData\<close> does once the reads have answered. No call is
  issued between \<^verbatim>\<open>setSettings\<close> at line 201 and the render it schedules.
\<close>

definition loadData_continue ::
  "(error + DailyStats \<times> WaterEntry list \<times> Settings) \<Rightarrow> app \<Rightarrow> app" where
  "loadData_continue r st =
     (case r of
        Inl e \<Rightarrow> console_error ''Failed to load data:'' st
      | Inr (todayStats, todayEntries, savedSettings) \<Rightarrow>
          (let s1 = st\<lparr>stats := Some todayStats, entries := todayEntries\<rparr>;
               (synced, s2) = sync_autostart savedSettings s1;
               s3 = setSettings synced s2;
               s4 = s3\<lparr>data_theme := Some (theme synced)\<rparr>
           in rerender (settings st) s4))"

definition loadData :: "app \<Rightarrow> app" where
  "loadData st = (let (r, s1) = load_reads st in loadData_continue r s1)"

text \<open>
  What a handler reads from the render that created it. The handlers of the page belong
  to the current render; the listener for \<^verbatim>\<open>quick-add\<close> is registered once and keeps
  the handler of the first render.
\<close>

record closure =
  c_settings :: Settings
  c_stats :: "DailyStats option"
  c_achievement_show :: bool

definition current_render :: "app \<Rightarrow> closure" where
  "current_render st =
     \<lparr>c_settings = settings st, c_stats = stats st, c_achievement_show = fst (achievement st)\<rparr>"

definition first_render :: closure where
  "first_render = \<lparr>c_settings = defaultSettings, c_stats = None, c_achievement_show = False\<rparr>"

text \<open>Lines 346 to 349.\<close>

definition add_reads :: "app \<Rightarrow> (error + DailyStats) \<times> app" where
  "add_reads st =
     (let (r1, s1) = get_today_stats st;
          (r2, s2) = get_today_entries s1
      in case (r1, r2) of
           (Inr updatedStats, Inr es) \<Rightarrow> (Inr updatedStats, s2)
         | (Inl e, _) \<Rightarrow> (Inl e, s2)
         | (_, Inl e) \<Rightarrow> (Inl e, s2))"

text \<open>Lines 353 to 364.\<close>

definition unlock_achievement :: "closure \<Rightarrow> app \<Rightarrow> app" where
  "unlock_achievement c st =
     (let s1 = st\<lparr>achievement := (True, ''FIRST AID SPRAY'' @ [CHR 0x0A] @ ''ACHIEVEMENT UNLOCKED'')\<rparr>;
          s2 = playSound Snd_achievement (sound_enabled (c_settings c)) s1;
          s3 = (case achievementTimeout s2 of
                  None \<Rightarrow> s2
                | Some h \<Rightarrow> if h \<noteq> 0 then clearTimer h s2 else s2);
          (h, s4) = setTimer 5000 False Hide_achievement s3
      in s4\<lparr>achievementTimeout := Some h\<rparr>)"

definition handleAddWater :: "closure \<Rightarrow> int \<Rightarrow> app \<Rightarrow> app" where
  "handleAddWater c amount st =
     (if amount \<le> 0 then playSound Snd_error (sound_enabled (c_settings c)) st
      else
        (let s0 = playSound Snd_add (sound_enabled (c_settings c)) st;
             failed = (\<lambda>s. playSound Snd_error (sound_enabled (c_settings c))
                              (console_error ''Failed to add water:'' s))
         in case add_water amount s0 of
              (Inl e, s1) \<Rightarrow> failed s1
            | (Inr u, s1) \<Rightarrow>
                (case add_reads s1 of
                   (Inl e, s2) \<Rightarrow> failed s2
                 | (Inr updatedStats, s2) \<Rightarrow>
                     (let s3 = (if \<not> c_achievement_show c \<and> percentage updatedStats \<ge> 100
                                   \<and> (case c_stats c of None \<Rightarrow> False
                                       | Some previous \<Rightarrow> percentage previous < 100)
                                then unlock_achievement c s2 else s2);
                          s4 = loadData s3;
                          s5 = showToast (Toast_added amount) s4
                      in s5\<lparr>customAmount := []\<rparr>))))"

definition handleRemoveEntry :: "closure \<Rightarrow> int \<Rightarrow> app \<Rightarrow> app" where
  "handleRemoveEntry c i st =
     (let s0 = playSound Snd_delete (sound_enabled (c_settings c)) st
      in case remove_entry i s0 of
           (Inl e, s1) \<Rightarrow>
             playSound Snd_error (sound_enabled (c_settings c))
               (console_error ''Failed to remove entry:'' s1)
         | (Inr u, s1) \<Rightarrow> loadData s1)"

text \<open>Line 390: \<^verbatim>\<open>{ ...settings, ...newSettings }\<close>.\<close>

definition merge_settings :: "Settings \<Rightarrow> PartialSettings \<Rightarrow> Settings" where
  "merge_settings s p =
     \<lparr>daily_goal_ml = (case p_daily_goal_ml p of None \<Rightarrow> daily_goal_ml s | Some v \<Rightarrow> v),
      reminder_interval_minutes =
        (case p_reminder_interval_minutes p of None \<Rightarrow> reminder_interval_minutes s | Some v \<Rightarrow> v),
      reminder_enabled = (case p_reminder_enabled p of None \<Rightarrow> reminder_enabled s | Some v \<Rightarrow> v),
      sound_enabled = (case p_sound_enabled p of None \<Rightarrow> sound_enabled s | Some v \<Rightarrow> v),
      start_with_system =
        (case p_start_with_system p of None \<Rightarrow> start_with_system s | Some v \<Rightarrow> v),
      theme = (case p_theme p of None \<Rightarrow> theme s | Some v \<Rightarrow> v)\<rparr>"

text \<open>Lines 398 to 406: the operating system is asked to follow the toggle.\<close>

definition toggle_autostart :: "bool \<Rightarrow> app \<Rightarrow> (error + unit) \<times> app" where
  "toggle_autostart want st = (if want then enableAutostart st else disableAutostart st)"

text \<open>Lines 407 to 410: the \<^verbatim>\<open>catch\<close> around it.\<close>

definition toggle_failed :: "app \<Rightarrow> app" where
  "toggle_failed st =
     showToast Toast_autostart_failed (console_error ''Failed to update autostart:'' st)"

text \<open>
  Lines 389 to 419. The handler runs inside a change event of the page: the render that
  \<^verbatim>\<open>setSettings\<close> at line 391 schedules happens when the handler reaches its first
  \<^verbatim>\<open>await\<close>, that is after the call issued there (the autostart call if
  \<^verbatim>\<open>start_with_system\<close> is among the new settings, \<^verbatim>\<open>save_settings\<close> if not) and before
  its answer is looked at.
\<close>

definition handleSaveSettings :: "PartialSettings \<Rightarrow> app \<Rightarrow> app" where
  "handleSaveSettings newSettings st =
     (let updated = merge_settings (settings st) newSettings;
          s1 = setSettings updated st;
          s2 = (case p_theme newSettings of
                  None \<Rightarrow> s1
                | Some t \<Rightarrow> if t \<noteq> [] then s1\<lparr>data_theme := Some t\<rparr> else s1)
      in case p_start_with_system newSettings of
           Some want \<Rightarrow>
             (let (r, s3) = toggle_autostart want s2;
                  s4 = rerender (settings st) s3;
                  s5 = (case r of Inl e \<Rightarrow> toggle_failed s4 | Inr u \<Rightarrow> s4)
              in case save_settings updated s5 of
                   (Inl e, s6) \<Rightarrow> console_error ''Failed to save settings:'' s6
                 | (Inr u, s6) \<Rightarrow> loadData s6)
         | None \<Rightarrow>
             (let (r, s3) = save_settings updated s2;
                  s4 = rerender (settings st) s3
              in case r of
                   Inl e \<Rightarrow> console_error ''Failed to save settings:'' s4
                 | Inr u \<Rightarrow> loadData s4))"

section \<open>The component as a machine\<close>

text \<open>
  What can happen to the component: it is mounted (the effects of the first render run:
  \<^verbatim>\<open>loadData\<close> issues its reads, \<^verbatim>\<open>setupReminder\<close> starts with the default settings,
  then the reads answer), the user acts, a permission query answers, a timer fires, the
  component is torn down.
\<close>

datatype event =
    Mount
  | Unmount
  | Click_add int
  | Tray_quick_add int
  | Click_remove int
  | Change_setting PartialSettings
  | Answer_isPermissionGranted nat bool
  | Answer_requestPermission nat Permission
  | Reject_permission_query nat
  | Fire nat

definition mount :: "app \<Rightarrow> app" where
  "mount st =
     (let (r, s1) = load_reads (st\<lparr>lifecycle := Mounted\<rparr>);
          s2 = setupReminder_start (settings s1) s1
      in loadData_continue r s2)"

definition unmount :: "app \<Rightarrow> app" where
  "unmount st = (effect_cleanup st)\<lparr>lifecycle := Unmounted\<rparr>"

fun step :: "event \<Rightarrow> app \<Rightarrow> app" where
  "step Mount st = (if lifecycle st = Rendered then mount st else st)"
| "step Unmount st = (if lifecycle st = Mounted then unmount st else st)"
| "step (Click_add amount) st =
     (if lifecycle st = Mounted then handleAddWater (current_render st) amount st else st)"
| "step (Tray_quick_add amount) st =
     (if lifecycle st = Mounted then handleAddWater first_render amount st else st)"
| "step (Click_remove i) st =
     (if lifecycle st = Mounted then handleRemoveEntry (current_render st) i st else st)"
| "step (Change_setting p) st =
     (if lifecycle st = Mounted then handleSaveSettings p st else st)"
| "step (Answer_isPermissionGranted k b) st = resolve_isPermissionGranted k b st"
| "step (Answer_requestPermission k perm) st = resolve_requestPermission k perm st"
| "step (Reject_permission_query k) st = reject_permission k st"
| "step (Fire h) st = fire h st"

fun run :: "event list \<Rightarrow> app \<Rightarrow> app" where
  "run [] st = st"
| "run (e # es) st = run es (step e st)"

text \<open>
  The first render: the initial values of the state and refs, nothing scheduled, nothing
  emitted yet. The store, the operating system, the clock and \<open>faults\<close> are arbitrary;
  timer handles start at 1.
\<close>

definition first_rendered :: "app \<Rightarrow> bool" where
  "first_rendered st \<longleftrightarrow>
     stats st = None \<and> entries st = [] \<and> settings st = defaultSettings
     \<and> customAmount st = [] \<and> toast st = (Toast_empty, False) \<and> achievement st = (False, [])
     \<and> reminderInterval st = None \<and> achievementTimeout st = None
     \<and> lifecycle st = Rendered \<and> timers st = [] \<and> next_handle st = 1 \<and> pending st = []
     \<and> sounds st = [] \<and> console st = [] \<and> toast_log st = [] \<and> trace st = []"

section \<open>Monthly statistics\<close>

text \<open>
  The interface \<^verbatim>\<open>MonthlyStats\<close> of \<^verbatim>\<open>types.ts\<close>; the label of the month is a string
  that the store chooses.
\<close>

record MonthlyStats =
  month_label :: string
  year_m :: int
  days :: "DailyStats list"
  total_ml_m :: int
  average_ml :: rat
  days_goal_met :: int
  current_streak :: int
  best_streak :: int

text \<open>
  Modelled from the spec: the statistics engine behind the command
  \<^verbatim>\<open>get_monthly_stats\<close> (the Rust command is not among the sources; the front end only
  stores what it returns). For a year and a month it computes \<open>DailyStats\<close> for every day
  of that month that has at least one entry, in ascending order of date; \<open>total_ml\<close> is the
  sum over these days; \<open>average_ml\<close> is the total divided by the number of days with
  data, and 0 when there is none; \<open>days_goal_met\<close> counts the days whose total reaches the
  goal. The current streak walks the days from the most recent one downwards and counts
  the days that meet the goal, stopping at the first day that does not or at a gap in the
  calendar; the best streak is the longest run of consecutive days meeting the goal, a
  run also breaking at a gap. The goal is the one in effect at the time of the query.
\<close>

definition in_month :: "int \<Rightarrow> int \<Rightarrow> WaterEntry \<Rightarrow> bool" where
  "in_month y m e \<longleftrightarrow> cal_year (date e) = y \<and> cal_month (date e) = m"

definition days_with_data :: "int \<Rightarrow> int \<Rightarrow> WaterEntry list \<Rightarrow> int list" where
  "days_with_data y m es = sort (remdups (map (\<lambda>e. cal_day (date e)) (filter (in_month y m) es)))"

definition goal_met :: "DailyStats \<Rightarrow> bool" where
  "goal_met d \<longleftrightarrow> total_ml d \<ge> goal_ml d"

definition next_day :: "DailyStats \<Rightarrow> DailyStats \<Rightarrow> bool" where
  "next_day earlier later \<longleftrightarrow> cal_day (date_d later) = cal_day (date_d earlier) + 1"

text \<open>The days in descending order, most recent first.\<close>

fun streak_from_latest :: "DailyStats list \<Rightarrow> nat" where
  "streak_from_latest [] = 0"
| "streak_from_latest [d] = (if goal_met d then 1 else 0)"
| "streak_from_latest (d # e # ds) =
     (if \<not> goal_met d then 0
      else if next_day e d then Suc (streak_from_latest (e # ds))
      else 1)"

text \<open>The days in ascending order; \<open>cur\<close> is the run that ends at the previous day.\<close>

fun longest_run :: "DailyStats option \<Rightarrow> nat \<Rightarrow> nat \<Rightarrow> DailyStats list \<Rightarrow> nat" where
  "longest_run prev cur best [] = best"
| "longest_run prev cur best (d # ds) =
     (let cur' = (if \<not> goal_met d then 0
                  else if (case prev of None \<Rightarrow> False | Some p \<Rightarrow> next_day p d) then Suc cur
                  else 1)
      in longest_run (Some d) cur' (max best cur') ds)"

definition get_monthly_stats ::
  "(int \<Rightarrow> string) \<Rightarrow> int \<Rightarrow> int \<Rightarrow> int \<Rightarrow> WaterEntry list \<Rightarrow> MonthlyStats" where
  "get_monthly_stats label y m goal es =
     (let ds = map (\<lambda>d. daily_stats \<lparr>cal_year = y, cal_month = m, cal_day = d\<rparr> goal es)
                 (days_with_data y m es);
          total = sum_list (map total_ml ds)
      in \<lparr>month_label = label m, year_m = y, days = ds, total_ml_m = total,
          average_ml = (if length ds = 0 then 0 else of_int total / of_nat (length ds)),
          days_goal_met = int (length (filter goal_met ds)),
          current_streak = int (streak_from_latest (rev ds)),
          best_streak = int (longest_run None 0 0 ds)\<rparr>)"

text \<open>Entries for the examples: one entry of \<open>ml\<close> millilitres on a day of May 2024.\<close>

definition may_entry :: "int \<Rightarrow> int \<Rightarrow> int \<Rightarrow> WaterEntry" where
  "may_entry i d ml =
     \<lparr>id_w = i, amount_ml = ml, timestamp = [],
      date = \<lparr>cal_year = 2024, cal_month = 5, cal_day = d\<rparr>\<rparr>"

section \<open>Invariants of the event loop\<close>

definition is_interval :: "timer_kind \<Rightarrow> bool" where
  "is_interval k = (case k of Reminder_interval s \<Rightarrow> True | _ \<Rightarrow> False)"

definition is_confirmation :: "timer_kind \<Rightarrow> bool" where
  "is_confirmation k = (case k of Test_notification s \<Rightarrow> True | _ \<Rightarrow> False)"

text \<open>
  What holds of the live timers \<open>ts\<close>, the next free handle \<open>n\<close> and the two refs
  \<open>r\<close> (\<^verbatim>\<open>reminderInterval\<close>) and \<open>a\<close> (\<^verbatim>\<open>achievementTimeout\<close>) in every state the
  component reaches: handles are positive, below \<open>n\<close> and pairwise different; exactly the
  timers made by \<^verbatim>\<open>setInterval\<close> recur; every live recurring timer is the one \<open>r\<close> holds;
  a live timer whose handle is in a ref is of the kind that ref is for.
\<close>

definition sched_ok :: "timer list \<Rightarrow> nat \<Rightarrow> nat option \<Rightarrow> nat option \<Rightarrow> bool" where
  "sched_ok ts n r a \<longleftrightarrow>
     0 < n
     \<and> (\<forall>t \<in> set ts. 0 < handle t \<and> handle t < n)
     \<and> distinct (map handle ts)
     \<and> (\<forall>t \<in> set ts. recurring t = is_interval (kind t))
     \<and> (\<forall>t \<in> set ts. recurring t \<longrightarrow> r = Some (handle t))
     \<and> (\<forall>t \<in> set ts. r = Some (handle t) \<longrightarrow> recurring t)
     \<and> (\<forall>t \<in> set ts. a = Some (handle t) \<longrightarrow> kind t = Hide_achievement)
     \<and> (\<forall>h. r = Some h \<longrightarrow> h < n)
     \<and> (\<forall>h. a = Some h \<longrightarrow> h < n)"

definition timers_ok :: "app \<Rightarrow> bool" where
  "timers_ok st \<longleftrightarrow>
     sched_ok (timers st) (next_handle st) (reminderInterval st) (achievementTimeout st)"


section \<open>Calls issued between two states\<close>

text \<open>
  The trace \<open>t\<close> continues the trace \<open>t0\<close> with calls from \<open>A\<close> only.
\<close>

definition extends_by :: "call set \<Rightarrow> call list \<Rightarrow> call list \<Rightarrow> bool" where
  "extends_by A t0 t \<longleftrightarrow> (\<exists>cs. t = t0 @ cs \<and> set cs \<subseteq> A)"

text \<open>The calls that reloading the data can issue.\<close>

definition load_calls :: "call set" where
  "load_calls =
     {Get_today_stats, Get_today_entries, Get_settings, Is_autostart_enabled,
      Is_permission_granted} \<union> range Save_settings"

text \<open>The calls that are not a request to add a non-positive amount.\<close>

definition positive_adds :: "call set" where
  "positive_adds = {c. \<forall>a. c = Add_water a \<longrightarrow> 0 < a}"


text \<open>
  The calls of the render that follows a change of the settings from \<open>prev\<close> to \<open>new\<close>:
  the permission query of \<^verbatim>\<open>setupReminder\<close> when the effect runs with reminders enabled.
\<close>

definition effect_calls :: "Settings \<Rightarrow> Settings \<Rightarrow> call list" where
  "effect_calls prev new =
     (if reminder_deps new \<noteq> reminder_deps prev \<and> reminder_enabled new
      then [Is_permission_granted] else [])"


section \<open>The timers of the scheduler among the live timers\<close>

definition is_reminder :: "timer_kind \<Rightarrow> bool" where
  "is_reminder k \<longleftrightarrow> is_interval k \<or> is_confirmation k"

definition reminder_timers :: "timer list \<Rightarrow> timer list" where
  "reminder_timers ts = filter (\<lambda>t. is_reminder (kind t)) ts"

definition confirmations :: "timer list \<Rightarrow> timer list" where
  "confirmations ts = filter (\<lambda>t. is_confirmation (kind t)) ts"

text \<open>Every live timer of the scheduler is one of \<open>T\<close>.\<close>

definition no_new_reminders :: "timer set \<Rightarrow> app \<Rightarrow> bool" where
  "no_new_reminders T st \<longleftrightarrow> set (reminder_timers (timers st)) \<subseteq> T"


section \<open>Arming attempts\<close>

text \<open>
  An arming attempt is a call of \<^verbatim>\<open>setupReminder\<close> with reminders enabled: it issues the
  query \<^verbatim>\<open>isPermissionGranted\<close>. The counts below are taken over everything the
  component has done so far: the attempts started, the permission requests issued, the
  times the toast about the missing permission was shown, and the attempts that wait for
  the answer of a given query.
\<close>

definition attempts :: "app \<Rightarrow> nat" where
  "attempts st = count_list (trace st) Is_permission_granted"

definition requests :: "app \<Rightarrow> nat" where
  "requests st = count_list (trace st) Request_permission"

definition reports :: "app \<Rightarrow> nat" where
  "reports st = count_list (toast_log st) Toast_permission_required"

definition waiting :: "stage \<Rightarrow> app \<Rightarrow> nat" where
  "waiting stg st = length (filter (\<lambda>a. fst a = stg) (pending st))"

text \<open>
  No attempt has requested permission twice and no request was reported twice: the
  requests issued and the attempts that still wait for their first answer are together
  at most the attempts started; the reports and the attempts that still wait for the
  answer to their request are together at most the requests issued.
\<close>

definition attempts_ok :: "app \<Rightarrow> bool" where
  "attempts_ok st \<longleftrightarrow>
     requests st + waiting Await_isPermissionGranted st \<le> attempts st
     \<and> reports st + waiting Await_requestPermission st \<le> requests st"

text \<open>What the handlers of the page leave as it is.\<close>

definition ledger :: "app \<Rightarrow> int \<times> nat \<times> nat \<times> nat" where
  "ledger st =
     (int (attempts st) - int (waiting Await_isPermissionGranted st),
      requests st, waiting Await_requestPermission st, reports st)"


section \<open>Reminders switched off\<close>

text \<open>No \<^verbatim>\<open>setupReminder\<close> call is suspended and no recurring timer is live.\<close>

definition quiet :: "app \<Rightarrow> bool" where
  "quiet st \<longleftrightarrow> pending st = [] \<and> filter recurring (timers st) = []"

text \<open>The events \<open>es\<close>, run from \<open>st\<close>, each end with \<open>reminder_enabled\<close> false in memory.\<close>

fun stays_off :: "event list \<Rightarrow> app \<Rightarrow> bool" where
  "stays_off [] st = True"
| "stays_off (e # es) st \<longleftrightarrow>
     \<not> reminder_enabled (settings (step e st)) \<and> stays_off es (step e st)"

section \<open>A concrete first render\<close>

text \<open>
  The state used in the examples: the first render over an empty store that holds the
  default settings, autostart not registered, no call failing.
\<close>

definition fresh :: app where
  "fresh =
     \<lparr>stats = None, entries = [], settings = defaultSettings, customAmount = [],
      toast = (Toast_empty, False), achievement = (False, []),
      reminderInterval = None, achievementTimeout = None, data_theme = None,
      lifecycle = Rendered, timers = [], next_handle = 1, pending = [],
      sounds = [], console = [], toast_log = [],
      db_entries = [], db_settings = defaultSettings, db_next_id = 1,
      today = \<lparr>cal_year = 2024, cal_month = 5, cal_day = 17\<rparr>, now = ''2024-05-17T10:00:00'',
      os_autostart = False, faults = (\<lambda>n. False), trace = []\<rparr>"

text \<open>The settings changes that the examples use.\<close>

definition no_change :: PartialSettings where
  "no_change =
     \<lparr>p_daily_goal_ml = None, p_reminder_interval_minutes = None, p_reminder_enabled = None,
      p_sound_enabled = None, p_start_with_system = None, p_theme = None\<rparr>"


text \<open>
  Two first renders in which the autostart plugin fails: in the first only the call at
  position 5 of the trace fails, in the second the calls at positions 5 and 10.
\<close>

definition toggle_fails :: app where
  "toggle_fails = fresh\<lparr>faults := (\<lambda>n. n = 5)\<rparr>"

definition plugin_down :: app where
  "plugin_down = fresh\<lparr>faults := (\<lambda>n. n = 5 \<or> n = 10)\<rparr>"

definition want_autostart :: PartialSettings where
  "want_autostart = no_change\<lparr>p_start_with_system := Some True\<rparr>"


definition stop_reminders :: PartialSettings where
  "stop_reminders = no_change\<lparr>p_reminder_enabled := Some False\<rparr>"

text \<open>
  A first render over a store whose reminder interval is 30 minutes, and the same with
  the first read of the first load failing.
\<close>

definition half_hour_store :: app where
  "half_hour_store = fresh\<lparr>db_settings := defaultSettings\<lparr>reminder_interval_minutes := 30\<rparr>\<rparr>"

definition first_load_fails :: app where
  "first_load_fails = half_hour_store\<lparr>faults := (\<lambda>n. n = 0)\<rparr>"

lemma distinct_filter_le1:
  "distinct (map f xs) \<Longrightarrow> length (filter (\<lambda>x. f x = a) xs) \<le> Suc 0"
  by (induction xs) (auto simp: filter_empty_conv image_iff)

lemma sched_okI:
  assumes "0 < n"
    and "\<forall>t \<in> set ts. 0 < handle t \<and> handle t < n"
    and "distinct (map handle ts)"
    and "\<forall>t \<in> set ts. recurring t = is_interval (kind t)"
    and "\<forall>t \<in> set ts. recurring t \<longrightarrow> r = Some (handle t)"
    and "\<forall>t \<in> set ts. r = Some (handle t) \<longrightarrow> recurring t"
    and "\<forall>t \<in> set ts. a = Some (handle t) \<longrightarrow> kind t = Hide_achievement"
    and "\<forall>h. r = Some h \<longrightarrow> h < n"
    and "\<forall>h. a = Some h \<longrightarrow> h < n"
  shows "sched_ok ts n r a"
  unfolding sched_ok_def using assms by (intro conjI)

lemma sched_okD:
  assumes "sched_ok ts n r a"
  shows "0 < n"
    and "\<forall>t \<in> set ts. 0 < handle t"
    and "\<forall>t \<in> set ts. handle t < n"
    and "distinct (map handle ts)"
    and "\<forall>t \<in> set ts. recurring t = is_interval (kind t)"
    and "\<forall>t \<in> set ts. recurring t \<longrightarrow> r = Some (handle t)"
    and "\<forall>t \<in> set ts. r = Some (handle t) \<longrightarrow> recurring t"
    and "\<forall>t \<in> set ts. a = Some (handle t) \<longrightarrow> kind t = Hide_achievement"
    and "\<forall>h. r = Some h \<longrightarrow> h < n"
    and "\<forall>h. a = Some h \<longrightarrow> h < n"
  using assms unfolding sched_ok_def by blast+

lemma sched_ok_le1:
  assumes "sched_ok ts n r a"
  shows "length (filter recurring ts) \<le> 1"
proof (cases r)
  case None
  with sched_okD(6)[OF assms] have "filter recurring ts = []"
    by (simp add: filter_empty_conv)
  then show ?thesis by simp
next
  case (Some h)
  with sched_okD(6)[OF assms]
  have "filter recurring ts = filter recurring (filter (\<lambda>t. handle t = h) ts)"
    by (auto intro!: filter_cong)
  moreover have "length (filter (\<lambda>t. handle t = h) ts) \<le> Suc 0"
    using sched_okD(4)[OF assms] by (rule distinct_filter_le1)
  moreover have "length (filter recurring (filter (\<lambda>t. handle t = h) ts))
                   \<le> length (filter (\<lambda>t. handle t = h) ts)"
    by (rule length_filter_le)
  ultimately show ?thesis by simp
qed

lemma sched_ok_clear:
  assumes "sched_ok ts n r a"
  shows "sched_ok (filter (\<lambda>t. handle t \<noteq> h) ts) n r a"
proof (rule sched_okI)
  let ?ts = "filter (\<lambda>t. handle t \<noteq> h) ts"
  have sub: "set ?ts \<subseteq> set ts" by simp
  show "0 < n" by (rule sched_okD(1)[OF assms])
  show "\<forall>t \<in> set ?ts. 0 < handle t \<and> handle t < n"
    using sched_okD(2,3)[OF assms] sub by blast
  show "distinct (map handle ?ts)"
    using sched_okD(4)[OF assms] by (simp add: distinct_map_filter)
  show "\<forall>t \<in> set ?ts. recurring t = is_interval (kind t)"
    using sched_okD(5)[OF assms] sub by blast
  show "\<forall>t \<in> set ?ts. recurring t \<longrightarrow> r = Some (handle t)"
    using sched_okD(6)[OF assms] sub by blast
  show "\<forall>t \<in> set ?ts. r = Some (handle t) \<longrightarrow> recurring t"
    using sched_okD(7)[OF assms] sub by blast
  show "\<forall>t \<in> set ?ts. a = Some (handle t) \<longrightarrow> kind t = Hide_achievement"
    using sched_okD(8)[OF assms] sub by blast
  show "\<forall>h. r = Some h \<longrightarrow> h < n" by (rule sched_okD(9)[OF assms])
  show "\<forall>h. a = Some h \<longrightarrow> h < n" by (rule sched_okD(10)[OF assms])
qed

lemma sched_ok_drop_ref:
  assumes "sched_ok ts n r a" and "\<forall>t \<in> set ts. \<not> recurring t"
  shows "sched_ok ts n None a"
proof (rule sched_okI)
  show "0 < n" by (rule sched_okD(1)[OF assms(1)])
  show "\<forall>t \<in> set ts. 0 < handle t \<and> handle t < n"
    using sched_okD(2,3)[OF assms(1)] by blast
  show "distinct (map handle ts)" by (rule sched_okD(4)[OF assms(1)])
  show "\<forall>t \<in> set ts. recurring t = is_interval (kind t)" by (rule sched_okD(5)[OF assms(1)])
  show "\<forall>t \<in> set ts. recurring t \<longrightarrow> None = Some (handle t)"
    using assms(2) by blast
  show "\<forall>t \<in> set ts. None = Some (handle t) \<longrightarrow> recurring t" by blast
  show "\<forall>t \<in> set ts. a = Some (handle t) \<longrightarrow> kind t = Hide_achievement"
    by (rule sched_okD(8)[OF assms(1)])
  show "\<forall>h. None = Some h \<longrightarrow> h < n" by blast
  show "\<forall>h. a = Some h \<longrightarrow> h < n" by (rule sched_okD(10)[OF assms(1)])
qed

lemma sched_ok_clear_ref:
  assumes "sched_ok ts n (Some h) a"
  shows "sched_ok (filter (\<lambda>t. handle t \<noteq> h) ts) n None a"
    and "filter recurring (filter (\<lambda>t. handle t \<noteq> h) ts) = []"
proof -
  let ?ts = "filter (\<lambda>t. handle t \<noteq> h) ts"
  have nr: "\<forall>t \<in> set ?ts. \<not> recurring t"
  proof
    fix t assume "t \<in> set ?ts"
    then have t: "t \<in> set ts" and ne: "handle t \<noteq> h" by simp_all
    show "\<not> recurring t"
    proof
      assume "recurring t"
      with sched_okD(6)[OF assms] t have "Some h = Some (handle t)" by blast
      with ne show False by simp
    qed
  qed
  from sched_ok_drop_ref[OF sched_ok_clear[OF assms] nr]
  show "sched_ok ?ts n None a" .
  from nr show "filter recurring ?ts = []"
    unfolding filter_empty_conv by blast
qed

lemma sched_ok_no_ref:
  assumes "sched_ok ts n r a" and "r = None \<or> r = Some 0"
  shows "filter recurring ts = []" and "sched_ok ts n None a"
proof -
  have nr: "\<forall>t \<in> set ts. \<not> recurring t"
  proof
    fix t assume t: "t \<in> set ts"
    show "\<not> recurring t"
    proof
      assume "recurring t"
      with sched_okD(6)[OF assms(1)] t have "r = Some (handle t)" by blast
      moreover from sched_okD(2)[OF assms(1)] t have "0 < handle t" by blast
      ultimately show False using assms(2) by auto
    qed
  qed
  then show "filter recurring ts = []"
    unfolding filter_empty_conv by blast
  from sched_ok_drop_ref[OF assms(1) nr] show "sched_ok ts n None a" .
qed

lemma sched_ok_add_oneshot:
  assumes "sched_ok ts n r a" and "\<not> is_interval k"
    and "a' = a \<or> (a' = Some n \<and> k = Hide_achievement)"
  shows "sched_ok (ts @ [\<lparr>handle = n, delay_ms = ms, recurring = False, kind = k\<rparr>]) (Suc n) r a'"
proof (rule sched_okI)
  let ?new = "\<lparr>handle = n, delay_ms = ms, recurring = False, kind = k\<rparr>"
  let ?ts = "ts @ [?new]"
  have mem: "\<And>t. t \<in> set ?ts \<Longrightarrow> t \<in> set ts \<or> t = ?new" by auto
  have lt: "\<And>t. t \<in> set ts \<Longrightarrow> handle t < n" using sched_okD(3)[OF assms(1)] by blast
  show "0 < Suc n" by simp
  show "\<forall>t \<in> set ?ts. 0 < handle t \<and> handle t < Suc n"
  proof
    fix t assume "t \<in> set ?ts"
    from mem[OF this] show "0 < handle t \<and> handle t < Suc n"
    proof
      assume "t \<in> set ts"
      with sched_okD(2,3)[OF assms(1)] show ?thesis by (simp add: less_Suc_eq)
    next
      assume "t = ?new"
      with sched_okD(1)[OF assms(1)] show ?thesis by simp
    qed
  qed
  show "distinct (map handle ?ts)"
    using sched_okD(4)[OF assms(1)] lt by fastforce
  show "\<forall>t \<in> set ?ts. recurring t = is_interval (kind t)"
  proof
    fix t assume "t \<in> set ?ts"
    from mem[OF this] show "recurring t = is_interval (kind t)"
      using sched_okD(5)[OF assms(1)] assms(2) by auto
  qed
  show "\<forall>t \<in> set ?ts. recurring t \<longrightarrow> r = Some (handle t)"
  proof
    fix t assume "t \<in> set ?ts"
    from mem[OF this] show "recurring t \<longrightarrow> r = Some (handle t)"
      using sched_okD(6)[OF assms(1)] by auto
  qed
  show "\<forall>t \<in> set ?ts. r = Some (handle t) \<longrightarrow> recurring t"
  proof
    fix t assume "t \<in> set ?ts"
    from mem[OF this] show "r = Some (handle t) \<longrightarrow> recurring t"
    proof
      assume "t \<in> set ts"
      with sched_okD(7)[OF assms(1)] show ?thesis by blast
    next
      assume "t = ?new"
      with sched_okD(9)[OF assms(1)] show ?thesis by auto
    qed
  qed
  show "\<forall>t \<in> set ?ts. a' = Some (handle t) \<longrightarrow> kind t = Hide_achievement"
  proof
    fix t assume "t \<in> set ?ts"
    from mem[OF this] show "a' = Some (handle t) \<longrightarrow> kind t = Hide_achievement"
    proof
      assume t: "t \<in> set ts"
      from lt[OF t] have "handle t \<noteq> n" by simp
      with sched_okD(8)[OF assms(1)] t assms(3) show ?thesis by auto
    next
      assume "t = ?new"
      with sched_okD(10)[OF assms(1)] assms(3) show ?thesis by auto
    qed
  qed
  show "\<forall>h. r = Some h \<longrightarrow> h < Suc n"
    using sched_okD(9)[OF assms(1)] by (simp add: less_Suc_eq)
  show "\<forall>h. a' = Some h \<longrightarrow> h < Suc n"
    using sched_okD(10)[OF assms(1)] assms(3) by (auto simp: less_Suc_eq)
qed

lemma sched_ok_add_interval:
  assumes "sched_ok ts n None a"
  shows "sched_ok (ts @ [\<lparr>handle = n, delay_ms = ms, recurring = True, kind = Reminder_interval s\<rparr>])
           (Suc n) (Some n) a"
proof (rule sched_okI)
  let ?new = "\<lparr>handle = n, delay_ms = ms, recurring = True, kind = Reminder_interval s\<rparr>"
  let ?ts = "ts @ [?new]"
  have mem: "\<And>t. t \<in> set ?ts \<Longrightarrow> t \<in> set ts \<or> t = ?new" by auto
  have lt: "\<And>t. t \<in> set ts \<Longrightarrow> handle t < n" using sched_okD(3)[OF assms(1)] by blast
  have nr: "\<And>t. t \<in> set ts \<Longrightarrow> \<not> recurring t" using sched_okD(6)[OF assms(1)] by blast
  show "0 < Suc n" by simp
  show "\<forall>t \<in> set ?ts. 0 < handle t \<and> handle t < Suc n"
  proof
    fix t assume "t \<in> set ?ts"
    from mem[OF this] show "0 < handle t \<and> handle t < Suc n"
    proof
      assume "t \<in> set ts"
      with sched_okD(2,3)[OF assms(1)] show ?thesis by (simp add: less_Suc_eq)
    next
      assume "t = ?new"
      with sched_okD(1)[OF assms(1)] show ?thesis by simp
    qed
  qed
  show "distinct (map handle ?ts)"
    using sched_okD(4)[OF assms(1)] lt by fastforce
  show "\<forall>t \<in> set ?ts. recurring t = is_interval (kind t)"
  proof
    fix t assume "t \<in> set ?ts"
    from mem[OF this] show "recurring t = is_interval (kind t)"
      using sched_okD(5)[OF assms(1)] by (auto simp: is_interval_def)
  qed
  show "\<forall>t \<in> set ?ts. recurring t \<longrightarrow> Some n = Some (handle t)"
  proof
    fix t assume "t \<in> set ?ts"
    from mem[OF this] show "recurring t \<longrightarrow> Some n = Some (handle t)"
      using nr by auto
  qed
  show "\<forall>t \<in> set ?ts. Some n = Some (handle t) \<longrightarrow> recurring t"
  proof
    fix t assume "t \<in> set ?ts"
    from mem[OF this] show "Some n = Some (handle t) \<longrightarrow> recurring t"
    proof
      assume "t \<in> set ts"
      from lt[OF this] show ?thesis by simp
    next
      assume "t = ?new"
      then have "recurring t" by simp
      then show ?thesis by simp
    qed
  qed
  show "\<forall>t \<in> set ?ts. a = Some (handle t) \<longrightarrow> kind t = Hide_achievement"
  proof
    fix t assume "t \<in> set ?ts"
    from mem[OF this] show "a = Some (handle t) \<longrightarrow> kind t = Hide_achievement"
    proof
      assume "t \<in> set ts"
      with sched_okD(8)[OF assms(1)] show ?thesis by blast
    next
      assume "t = ?new"
      with sched_okD(10)[OF assms(1)] show ?thesis by auto
    qed
  qed
  show "\<forall>h. Some n = Some h \<longrightarrow> h < Suc n" by simp
  show "\<forall>h. a = Some h \<longrightarrow> h < Suc n"
    using sched_okD(10)[OF assms(1)] by (simp add: less_Suc_eq)
qed

section \<open>The collaborators, call by call\<close>

lemma get_today_stats_if:
  "get_today_stats st =
     (if faults st (length (trace st)) then (Inl StoreError, log_call Get_today_stats st)
      else (Inr (daily_stats (today st) (daily_goal_ml (db_settings st)) (db_entries st)),
            log_call Get_today_stats st))"
  by (simp add: get_today_stats_def issue_def log_call_def)

lemma get_today_entries_if:
  "get_today_entries st =
     (if faults st (length (trace st)) then (Inl StoreError, log_call Get_today_entries st)
      else (Inr (entries_on (today st) (db_entries st)), log_call Get_today_entries st))"
  by (simp add: get_today_entries_def issue_def log_call_def)

lemma get_settings_if:
  "get_settings st =
     (if faults st (length (trace st)) then (Inl StoreError, log_call Get_settings st)
      else (Inr (db_settings st), log_call Get_settings st))"
  by (simp add: get_settings_def issue_def log_call_def)

lemma save_settings_if:
  "save_settings new st =
     (if faults st (length (trace st)) then (Inl StoreError, log_call (Save_settings new) st)
      else (Inr (), (log_call (Save_settings new) st)\<lparr>db_settings := new\<rparr>))"
  by (simp add: save_settings_def issue_def log_call_def)

lemma add_water_if:
  "add_water a st =
     (if faults st (length (trace st)) then (Inl StoreError, log_call (Add_water a) st)
      else if a \<le> 0 then (Inl ValidationError, log_call (Add_water a) st)
      else (Inr (), (log_call (Add_water a) st)
              \<lparr>db_entries := db_entries st @
                 [\<lparr>id_w = db_next_id st, amount_ml = a, timestamp = now st, date = today st\<rparr>],
               db_next_id := db_next_id st + 1\<rparr>))"
  by (simp add: add_water_def issue_def log_call_def)

lemma remove_entry_if:
  "remove_entry i st =
     (if faults st (length (trace st)) then (Inl StoreError, log_call (Remove_entry i) st)
      else (Inr (), (log_call (Remove_entry i) st)
              \<lparr>db_entries := filter (\<lambda>e. id_w e \<noteq> i) (db_entries st)\<rparr>))"
  by (simp add: remove_entry_def issue_def log_call_def)

lemma isAutostartEnabled_if:
  "isAutostartEnabled st =
     (if faults st (length (trace st)) then (Inl OSIntegrationError, log_call Is_autostart_enabled st)
      else (Inr (os_autostart st), log_call Is_autostart_enabled st))"
  by (simp add: isAutostartEnabled_def issue_def log_call_def)

lemma enableAutostart_if:
  "enableAutostart st =
     (if faults st (length (trace st)) then (Inl OSIntegrationError, log_call Enable_autostart st)
      else (Inr (), (log_call Enable_autostart st)\<lparr>os_autostart := True\<rparr>))"
  by (simp add: enableAutostart_def issue_def log_call_def)

lemma disableAutostart_if:
  "disableAutostart st =
     (if faults st (length (trace st)) then (Inl OSIntegrationError, log_call Disable_autostart st)
      else (Inr (), (log_call Disable_autostart st)\<lparr>os_autostart := False\<rparr>))"
  by (simp add: disableAutostart_def issue_def log_call_def)

lemma notify_if:
  "notify n failure s st =
     (if faults st (length (trace st))
      then console_error ''Error details:'' (console_error failure (log_call (Send_notification n) st))
      else playSound Snd_add (sound_enabled s) (log_call (Send_notification n) st))"
  by (simp add: notify_def issue_def)

lemmas calls_if = get_today_stats_if get_today_entries_if get_settings_if save_settings_if
  add_water_if remove_entry_if isAutostartEnabled_if enableAutostart_if disableAutostart_if

lemma arm_unfold:
  "arm s st =
     (disarm st)\<lparr>timers := timers (disarm st) @
        [\<lparr>handle = next_handle (disarm st), delay_ms = 2000, recurring = False,
          kind = Test_notification s\<rparr>,
         \<lparr>handle = Suc (next_handle (disarm st)),
          delay_ms = reminder_interval_minutes s * 60 * 1000,
          recurring = True, kind = Reminder_interval s\<rparr>],
       next_handle := Suc (Suc (next_handle (disarm st))),
       reminderInterval := Some (Suc (next_handle (disarm st)))\<rparr>"
  by (simp add: arm_def Let_def setTimer_def)

lemma next_handle_disarm [simp]: "next_handle (disarm st) = next_handle st"
  by (simp add: disarm_def clearTimer_def split: option.splits)

lemma unlock_achievement_unfold:
  "unlock_achievement c st =
     (let s2 = playSound Snd_achievement (sound_enabled (c_settings c))
                 (st\<lparr>achievement := (True, ''FIRST AID SPRAY'' @ [CHR 0x0A] @ ''ACHIEVEMENT UNLOCKED'')\<rparr>);
          s3 = (case achievementTimeout s2 of
                  None \<Rightarrow> s2
                | Some h \<Rightarrow> if h \<noteq> 0 then clearTimer h s2 else s2)
      in s3\<lparr>timers := timers s3 @
               [\<lparr>handle = next_handle s3, delay_ms = 5000, recurring = False, kind = Hide_achievement\<rparr>],
            next_handle := Suc (next_handle s3),
            achievementTimeout := Some (next_handle s3)\<rparr>)"
  by (simp add: unlock_achievement_def Let_def setTimer_def)

section \<open>The invariant is kept by every step\<close>

lemma timers_ok_upd [simp]:
  "timers_ok (st\<lparr>stats := a1\<rparr>) = timers_ok st"
  "timers_ok (st\<lparr>entries := a2\<rparr>) = timers_ok st"
  "timers_ok (st\<lparr>settings := a3\<rparr>) = timers_ok st"
  "timers_ok (st\<lparr>customAmount := a4\<rparr>) = timers_ok st"
  "timers_ok (st\<lparr>toast := a5\<rparr>) = timers_ok st"
  "timers_ok (st\<lparr>achievement := a6\<rparr>) = timers_ok st"
  "timers_ok (st\<lparr>data_theme := a8\<rparr>) = timers_ok st"
  "timers_ok (st\<lparr>lifecycle := a9\<rparr>) = timers_ok st"
  "timers_ok (st\<lparr>pending := b1\<rparr>) = timers_ok st"
  "timers_ok (st\<lparr>sounds := b2\<rparr>) = timers_ok st"
  "timers_ok (st\<lparr>console := b3\<rparr>) = timers_ok st"
  "timers_ok (st\<lparr>toast_log := b4\<rparr>) = timers_ok st"
  "timers_ok (st\<lparr>db_entries := b5\<rparr>) = timers_ok st"
  "timers_ok (st\<lparr>db_settings := b6\<rparr>) = timers_ok st"
  "timers_ok (st\<lparr>db_next_id := b7\<rparr>) = timers_ok st"
  "timers_ok (st\<lparr>os_autostart := b8\<rparr>) = timers_ok st"
  "timers_ok (st\<lparr>trace := b9\<rparr>) = timers_ok st"
  by (simp_all add: timers_ok_def)

lemma timers_ok_basic [simp]:
  "timers_ok (log_call c st) = timers_ok st"
  "timers_ok (console_error m st) = timers_ok st"
  "timers_ok (playSound ty en st) = timers_ok st"
  "timers_ok (setToast tm sh st) = timers_ok st"
  by (simp_all add: log_call_def console_error_def playSound_def setToast_def)

lemma timers_ok_le1: "timers_ok st \<Longrightarrow> length (filter recurring (timers st)) \<le> 1"
  unfolding timers_ok_def by (rule sched_ok_le1)

lemma timers_ok_clearTimer: "timers_ok st \<Longrightarrow> timers_ok (clearTimer h st)"
  unfolding timers_ok_def clearTimer_def by (simp add: sched_ok_clear)

lemma timers_ok_setTimer_oneshot:
  "timers_ok st \<Longrightarrow> \<not> is_interval k \<Longrightarrow> timers_ok (snd (setTimer ms False k st))"
  unfolding timers_ok_def setTimer_def by (simp add: sched_ok_add_oneshot)

lemma timers_ok_disarm:
  assumes "timers_ok st"
  shows "timers_ok (disarm st)" and "filter recurring (timers (disarm st)) = []"
    and "reminderInterval (disarm st) = None \<or> reminderInterval (disarm st) = Some 0"
proof -
  have "timers_ok (disarm st) \<and> filter recurring (timers (disarm st)) = []
        \<and> (reminderInterval (disarm st) = None \<or> reminderInterval (disarm st) = Some 0)"
  proof (cases "reminderInterval st = None \<or> reminderInterval st = Some 0")
    case True
    then have eq: "disarm st = st" by (auto simp: disarm_def)
    from sched_ok_no_ref(1)[OF assms[unfolded timers_ok_def] True] assms eq True
    show ?thesis by simp
  next
    case False
    then obtain h where r: "reminderInterval st = Some h" and h: "h \<noteq> 0" by auto
    then have eq: "disarm st = st\<lparr>timers := filter (\<lambda>t. handle t \<noteq> h) (timers st),
                             reminderInterval := None\<rparr>"
      by (simp add: disarm_def clearTimer_def)
    from assms r have "sched_ok (timers st) (next_handle st) (Some h) (achievementTimeout st)"
      by (simp add: timers_ok_def)
    from sched_ok_clear_ref[OF this] show ?thesis
      by (simp add: eq timers_ok_def)
  qed
  then show "timers_ok (disarm st)" and "filter recurring (timers (disarm st)) = []"
    and "reminderInterval (disarm st) = None \<or> reminderInterval (disarm st) = Some 0"
    by simp_all
qed

lemma recurring_clear_ref:
  assumes "timers_ok st" and "reminderInterval st = Some h"
  shows "filter recurring (filter (\<lambda>t. handle t \<noteq> h) (timers st)) = []"
  using sched_ok_clear_ref(2)[of "timers st" "next_handle st" h "achievementTimeout st"] assms
  by (simp add: timers_ok_def)

lemma timers_ok_effect_cleanup:
  assumes "timers_ok st"
  shows "timers_ok (effect_cleanup st)" and "filter recurring (timers (effect_cleanup st)) = []"
proof -
  define s1 where "s1 = (case reminderInterval st of
                  None \<Rightarrow> st
                | Some h \<Rightarrow> if h \<noteq> 0 then clearTimer h st else st)"
  have ok1: "timers_ok s1"
    using assms by (simp add: s1_def timers_ok_clearTimer split: option.splits)
  have nr1: "filter recurring (timers s1) = []"
  proof (cases "reminderInterval st = None \<or> reminderInterval st = Some 0")
    case True
    then have "s1 = st" by (auto simp: s1_def)
    with sched_ok_no_ref(1)[OF assms[unfolded timers_ok_def] True] show ?thesis by simp
  next
    case False
    then obtain h where h: "reminderInterval st = Some h" "h \<noteq> 0" by auto
    then have "timers s1 = filter (\<lambda>t. handle t \<noteq> h) (timers st)"
      by (simp add: s1_def clearTimer_def)
    with recurring_clear_ref[OF assms h(1)] show ?thesis by simp
  qed
  have eq: "effect_cleanup st = (case achievementTimeout s1 of
           None \<Rightarrow> s1
         | Some h \<Rightarrow> if h \<noteq> 0 then clearTimer h s1 else s1)"
    unfolding effect_cleanup_def Let_def s1_def by (rule refl)
  show "timers_ok (effect_cleanup st)"
    using ok1 by (simp add: eq timers_ok_clearTimer split: option.splits)
  show "filter recurring (timers (effect_cleanup st))= []"
    using nr1 by (auto simp: eq clearTimer_def filter_empty_conv split: option.splits)
qed

lemma arm_recurring:
  assumes "timers_ok st"
  shows "timers_ok (arm s st)"
    and "filter recurring (timers (arm s st)) =
           [\<lparr>handle = Suc (next_handle st), delay_ms = reminder_interval_minutes s * 60 * 1000,
             recurring = True, kind = Reminder_interval s\<rparr>]"
proof -
  let ?d = "disarm st"
  have ok: "timers_ok ?d" and none: "filter recurring (timers ?d) = []"
    and r: "reminderInterval ?d = None \<or> reminderInterval ?d = Some 0"
    using timers_ok_disarm[OF assms] by simp_all
  have "sched_ok (timers ?d) (next_handle st) None (achievementTimeout ?d)"
    using sched_ok_no_ref(2)[OF ok[unfolded timers_ok_def] r] by simp
  then have "sched_ok (timers ?d @ [\<lparr>handle = next_handle st, delay_ms = 2000, recurring = False,
          kind = Test_notification s\<rparr>]) (Suc (next_handle st)) None (achievementTimeout ?d)"
    by (rule sched_ok_add_oneshot) (simp_all add: is_interval_def)
  then have "sched_ok ((timers ?d @ [\<lparr>handle = next_handle st, delay_ms = 2000, recurring = False,
          kind = Test_notification s\<rparr>]) @ [\<lparr>handle = Suc (next_handle st),
          delay_ms = reminder_interval_minutes s * 60 * 1000,
          recurring = True, kind = Reminder_interval s\<rparr>]) (Suc (Suc (next_handle st)))
          (Some (Suc (next_handle st))) (achievementTimeout ?d)"
    by (rule sched_ok_add_interval)
  then show "timers_ok (arm s st)"
    by (simp add: arm_unfold timers_ok_def)
  show "filter recurring (timers (arm s st)) =
           [\<lparr>handle = Suc (next_handle st), delay_ms = reminder_interval_minutes s * 60 * 1000,
             recurring = True, kind = Reminder_interval s\<rparr>]"
    using none by (simp add: arm_unfold)
qed

lemma timers_ok_showToast [simp]: "timers_ok st \<Longrightarrow> timers_ok (showToast m st)"
  by (simp add: showToast_def timers_ok_setTimer_oneshot is_interval_def)

lemma timers_ok_permission_refused: "timers_ok st \<Longrightarrow> timers_ok (permission_refused st)"
  by (simp add: permission_refused_def Let_def timers_ok_setTimer_oneshot is_interval_def)

lemma timers_ok_setupReminder_start: "timers_ok st \<Longrightarrow> timers_ok (setupReminder_start s st)"
  by (simp add: setupReminder_start_def timers_ok_disarm)

lemma timers_ok_setSettings [simp]: "timers_ok (setSettings new st) = timers_ok st"
  by (simp add: setSettings_def timers_ok_def)

lemma timers_ok_rerender: "timers_ok st \<Longrightarrow> timers_ok (rerender prev st)"
  by (simp add: rerender_def timers_ok_setupReminder_start timers_ok_effect_cleanup)

lemma timers_ok_sync_autostart [simp]: "timers_ok (snd (sync_autostart sv st)) = timers_ok st"
  by (simp add: sync_autostart_def calls_if Let_def)

lemma timers_ok_load_reads [simp]: "timers_ok (snd (load_reads st)) = timers_ok st"
  by (simp add: load_reads_def calls_if Let_def)

lemma timers_ok_loadData_continue: "timers_ok st \<Longrightarrow> timers_ok (loadData_continue r st)"
  by (simp add: loadData_continue_def Let_def case_prod_unfold timers_ok_rerender split: sum.splits)

lemma timers_ok_loadData: "timers_ok st \<Longrightarrow> timers_ok (loadData st)"
  by (simp add: loadData_def Let_def case_prod_unfold timers_ok_loadData_continue)

lemma timers_ok_mount: "timers_ok st \<Longrightarrow> timers_ok (mount st)"
  by (simp add: mount_def Let_def case_prod_unfold timers_ok_loadData_continue
        timers_ok_setupReminder_start)

lemma timers_ok_unmount: "timers_ok st \<Longrightarrow> timers_ok (unmount st)"
  by (simp add: unmount_def timers_ok_effect_cleanup)

lemma timers_ok_unlock_achievement:
  assumes "timers_ok st"
  shows "timers_ok (unlock_achievement c st)"
proof -
  define s3 where "s3 = (let s2 = playSound Snd_achievement (sound_enabled (c_settings c))
                 (st\<lparr>achievement := (True, ''FIRST AID SPRAY'' @ [CHR 0x0A] @ ''ACHIEVEMENT UNLOCKED'')\<rparr>)
        in case achievementTimeout s2 of None \<Rightarrow> s2
           | Some h \<Rightarrow> if h \<noteq> 0 then clearTimer h s2 else s2)"
  have "timers_ok s3"
    using assms by (simp add: s3_def Let_def timers_ok_clearTimer split: option.splits)
  then have "sched_ok (timers s3 @
               [\<lparr>handle = next_handle s3, delay_ms = 5000, recurring = False, kind = Hide_achievement\<rparr>])
             (Suc (next_handle s3)) (reminderInterval s3) (Some (next_handle s3))"
    unfolding timers_ok_def by (rule sched_ok_add_oneshot) (simp_all add: is_interval_def)
  moreover have "unlock_achievement c st = s3\<lparr>timers := timers s3 @
               [\<lparr>handle = next_handle s3, delay_ms = 5000, recurring = False, kind = Hide_achievement\<rparr>],
            next_handle := Suc (next_handle s3),
            achievementTimeout := Some (next_handle s3)\<rparr>"
    by (simp add: unlock_achievement_unfold s3_def Let_def)
  ultimately show ?thesis by (simp add: timers_ok_def)
qed

lemma timers_ok_calls [simp]:
  "timers_ok (snd (add_water a st)) = timers_ok st"
  "timers_ok (snd (add_reads st)) = timers_ok st"
  "timers_ok (snd (remove_entry i st)) = timers_ok st"
  "timers_ok (snd (save_settings new st)) = timers_ok st"
  by (simp_all add: calls_if add_reads_def Let_def)

lemma timers_ok_handleAddWater: "timers_ok st \<Longrightarrow> timers_ok (handleAddWater c amount st)"
  by (simp add: handleAddWater_def Let_def case_prod_unfold timers_ok_loadData
        timers_ok_unlock_achievement split: sum.splits)

lemma timers_ok_handleRemoveEntry: "timers_ok st \<Longrightarrow> timers_ok (handleRemoveEntry c i st)"
  by (simp add: handleRemoveEntry_def Let_def case_prod_unfold timers_ok_loadData split: sum.splits)

lemma timers_ok_toggle_autostart [simp]:
  "timers_ok (snd (toggle_autostart want st)) = timers_ok st"
  by (simp add: toggle_autostart_def calls_if)

lemma timers_ok_toggle_failed: "timers_ok st \<Longrightarrow> timers_ok (toggle_failed st)"
  by (simp add: toggle_failed_def)

lemma timers_ok_handleSaveSettings: "timers_ok st \<Longrightarrow> timers_ok (handleSaveSettings p st)"
  by (simp add: handleSaveSettings_def Let_def case_prod_unfold timers_ok_loadData
        timers_ok_rerender timers_ok_toggle_failed split: sum.splits option.splits)

lemma timers_ok_notify [simp]: "timers_ok (notify n f s st) = timers_ok st"
  by (simp add: notify_if)

lemma timers_ok_fire: "timers_ok st \<Longrightarrow> timers_ok (fire h st)"
  by (simp add: fire_def Let_def timers_ok_clearTimer split: option.splits timer_kind.splits)

lemma timers_ok_resolve_isPermissionGranted:
  "timers_ok st \<Longrightarrow> timers_ok (resolve_isPermissionGranted k b st)"
  by (simp add: resolve_isPermissionGranted_def after_isPermissionGranted_def arm_recurring(1))

lemma timers_ok_resolve_requestPermission:
  "timers_ok st \<Longrightarrow> timers_ok (resolve_requestPermission k perm st)"
  by (simp add: resolve_requestPermission_def after_requestPermission_def arm_recurring(1)
        timers_ok_permission_refused)

lemma timers_ok_reject_permission: "timers_ok st \<Longrightarrow> timers_ok (reject_permission k st)"
  by (simp add: reject_permission_def)

lemma timers_ok_step: "timers_ok st \<Longrightarrow> timers_ok (step e st)"
  by (cases e)
     (simp_all add: timers_ok_mount timers_ok_unmount timers_ok_handleAddWater
        timers_ok_handleRemoveEntry timers_ok_handleSaveSettings timers_ok_fire
        timers_ok_resolve_isPermissionGranted timers_ok_resolve_requestPermission
        timers_ok_reject_permission)

lemma timers_ok_run: "timers_ok st \<Longrightarrow> timers_ok (run es st)"
  by (induction es arbitrary: st) (simp_all add: timers_ok_step)

lemma timers_ok_first: "first_rendered st \<Longrightarrow> timers_ok st"
  by (simp add: first_rendered_def timers_ok_def sched_ok_def)

section \<open>What each operation adds to the trace\<close>

lemma extends_by_refl [simp]: "extends_by A t t"
  by (simp add: extends_by_def)

lemma extends_by_snoc: "extends_by A t0 t \<Longrightarrow> c \<in> A \<Longrightarrow> extends_by A t0 (t @ [c])"
  by (auto simp: extends_by_def)

lemma extends_by_append:
  "extends_by A t0 t \<Longrightarrow> set cs \<subseteq> A \<Longrightarrow> extends_by A t0 (t @ cs)"
  by (auto simp: extends_by_def)

lemma extends_by_mono: "extends_by A t0 t \<Longrightarrow> A \<subseteq> B \<Longrightarrow> extends_by B t0 t"
  by (auto simp: extends_by_def)

lemma extends_by_trans: "extends_by A t0 t1 \<Longrightarrow> extends_by A t1 t2 \<Longrightarrow> extends_by A t0 t2"
  by (auto simp: extends_by_def)

lemma extends_by_drop:
  "extends_by A t0 t \<Longrightarrow> set (drop (length t0) t) \<subseteq> A \<and> take (length t0) t = t0"
  by (auto simp: extends_by_def)

lemma trace_basic [simp]:
  "trace (log_call c st) = trace st @ [c]"
  "trace (console_error m st) = trace st"
  "trace (playSound ty en st) = trace st"
  "trace (setToast tm sh st) = trace st"
  "trace (showToast tm st) = trace st"
  "trace (snd (setTimer ms again k st)) = trace st"
  "trace (clearTimer h st) = trace st"
  "trace (disarm st) = trace st"
  "trace (effect_cleanup st) = trace st"
  "trace (arm s st) = trace st"
  "trace (permission_refused st) = trace st"
  "trace (unlock_achievement cl st) = trace st"
  by (simp_all add: log_call_def console_error_def playSound_def setToast_def showToast_def
        setTimer_def clearTimer_def disarm_def effect_cleanup_def arm_unfold permission_refused_def
        unlock_achievement_unfold Let_def split: option.splits)

lemma faults_basic [simp]:
  "faults (log_call c st) = faults st"
  "faults (console_error m st) = faults st"
  "faults (playSound ty en st) = faults st"
  "faults (setToast tm sh st) = faults st"
  "faults (showToast tm st) = faults st"
  "faults (snd (setTimer ms again k st)) = faults st"
  "faults (clearTimer h st) = faults st"
  "faults (disarm st) = faults st"
  "faults (effect_cleanup st) = faults st"
  "faults (arm s st) = faults st"
  "faults (permission_refused st) = faults st"
  "faults (unlock_achievement cl st) = faults st"
  by (simp_all add: log_call_def console_error_def playSound_def setToast_def showToast_def
        setTimer_def clearTimer_def disarm_def effect_cleanup_def arm_unfold permission_refused_def
        unlock_achievement_unfold Let_def split: option.splits)

lemma trace_setupReminder_start:
  "trace (setupReminder_start s st) =
     trace st @ (if reminder_enabled s then [Is_permission_granted] else [])"
  by (simp add: setupReminder_start_def)

lemma trace_setSettings [simp]: "trace (setSettings new st) = trace st"
  by (simp add: setSettings_def)

lemma faults_setSettings [simp]: "faults (setSettings new st) = faults st"
  by (simp add: setSettings_def)

lemma trace_rerender:
  "trace (rerender prev st) =
     trace st @ (if reminder_deps (settings st) \<noteq> reminder_deps prev \<and> reminder_enabled (settings st)
                 then [Is_permission_granted] else [])"
  by (simp add: rerender_def trace_setupReminder_start)

lemma faults_rerender [simp]: "faults (rerender prev st) = faults st"
  by (simp add: rerender_def setupReminder_start_def)

lemma extends_rerender:
  "extends_by A t0 (trace st) \<Longrightarrow> Is_permission_granted \<in> A \<Longrightarrow>
   extends_by A t0 (trace (rerender prev st))"
  by (simp add: trace_rerender extends_by_snoc)

lemma extends_sync_autostart:
  assumes "extends_by A t0 (trace st)" and "load_calls \<subseteq> A"
  shows "extends_by A t0 (trace (snd (sync_autostart sv st)))"
proof -
  have "Is_autostart_enabled \<in> A" "\<And>x. Save_settings x \<in> A"
    using assms(2) by (auto simp: load_calls_def)
  then show ?thesis
    using assms(1) by (simp add: sync_autostart_def calls_if Let_def extends_by_append)
qed

lemma extends_load_reads:
  assumes "extends_by A t0 (trace st)" and "load_calls \<subseteq> A"
  shows "extends_by A t0 (trace (snd (load_reads st)))"
proof -
  have "Get_today_stats \<in> A" "Get_today_entries \<in> A" "Get_settings \<in> A"
    using assms(2) by (auto simp: load_calls_def)
  then show ?thesis
    using assms(1) by (simp add: load_reads_def calls_if Let_def extends_by_append)
qed

lemma extends_loadData_continue:
  assumes "extends_by A t0 (trace st)" and "load_calls \<subseteq> A"
  shows "extends_by A t0 (trace (loadData_continue r st))"
proof (cases r)
  case (Inl e)
  with assms(1) show ?thesis by (simp add: loadData_continue_def)
next
  case (Inr v)
  obtain a b sv where v: "v = (a, b, sv)" by (cases v) auto
  have p: "Is_permission_granted \<in> A" using assms(2) by (auto simp: load_calls_def)
  have "extends_by A t0 (trace (st\<lparr>stats := Some a, entries := b\<rparr>))"
    using assms(1) by simp
  from extends_sync_autostart[OF this assms(2)]
  have "extends_by A t0 (trace (snd (sync_autostart sv (st\<lparr>stats := Some a, entries := b\<rparr>))))" .
  then have "\<And>x. extends_by A t0 (trace ((setSettings x
          (snd (sync_autostart sv (st\<lparr>stats := Some a, entries := b\<rparr>))))\<lparr>data_theme := Some (theme x)\<rparr>))"
    by simp
  from extends_rerender[OF this p] show ?thesis
    by (simp add: loadData_continue_def Inr v Let_def case_prod_unfold)
qed

lemma extends_loadData:
  assumes "extends_by A t0 (trace st)" and "load_calls \<subseteq> A"
  shows "extends_by A t0 (trace (loadData st))"
  using extends_loadData_continue[OF extends_load_reads[OF assms] assms(2)]
  by (simp add: loadData_def Let_def case_prod_unfold)

lemma extends_mount:
  assumes "extends_by A t0 (trace st)" and "load_calls \<subseteq> A"
  shows "extends_by A t0 (trace (mount st))"
proof -
  have p: "Is_permission_granted \<in> A" using assms(2) by (auto simp: load_calls_def)
  have "extends_by A t0 (trace (st\<lparr>lifecycle := Mounted\<rparr>))" using assms(1) by simp
  from extends_load_reads[OF this assms(2)]
  have "extends_by A t0 (trace (setupReminder_start
          (settings (snd (load_reads (st\<lparr>lifecycle := Mounted\<rparr>))))
          (snd (load_reads (st\<lparr>lifecycle := Mounted\<rparr>)))))"
    using p by (simp add: trace_setupReminder_start extends_by_snoc)
  from extends_loadData_continue[OF this assms(2)] show ?thesis
    by (simp add: mount_def Let_def case_prod_unfold)
qed

lemma extends_add_reads:
  assumes "extends_by A t0 (trace st)" and "load_calls \<subseteq> A"
  shows "extends_by A t0 (trace (snd (add_reads st)))"
proof -
  have "Get_today_stats \<in> A" "Get_today_entries \<in> A"
    using assms(2) by (auto simp: load_calls_def)
  then show ?thesis
    using assms(1) by (simp add: add_reads_def calls_if Let_def extends_by_append)
qed

lemma extends_handleAddWater:
  assumes "extends_by A t0 (trace st)" and "load_calls \<subseteq> A"
    and "0 < amount \<Longrightarrow> Add_water amount \<in> A"
  shows "extends_by A t0 (trace (handleAddWater c amount st))"
proof (cases "amount \<le> 0")
  case True
  with assms(1) show ?thesis by (simp add: handleAddWater_def)
next
  case False
  then have a: "Add_water amount \<in> A" using assms(3) by simp
  define s0 where "s0 = playSound Snd_add (sound_enabled (c_settings c)) st"
  have e1: "extends_by A t0 (trace (snd (add_water amount s0)))"
    using assms(1) a by (simp add: s0_def calls_if extends_by_snoc)
  have e2: "extends_by A t0 (trace (snd (add_reads (snd (add_water amount s0)))))"
    by (rule extends_add_reads[OF e1 assms(2)])
  have e3: "\<And>s. extends_by A t0 (trace s) \<Longrightarrow> extends_by A t0 (trace (loadData s))"
    by (rule extends_loadData[OF _ assms(2)])
  show ?thesis
    using False e1 e2
    by (simp add: handleAddWater_def Let_def case_prod_unfold s0_def[symmetric] e3
          split: sum.splits)
qed

lemma extends_handleRemoveEntry:
  assumes "extends_by A t0 (trace st)" and "load_calls \<subseteq> A" and "Remove_entry i \<in> A"
  shows "extends_by A t0 (trace (handleRemoveEntry c i st))"
proof -
  define s0 where "s0 = playSound Snd_delete (sound_enabled (c_settings c)) st"
  have e1: "extends_by A t0 (trace (snd (remove_entry i s0)))"
    using assms(1,3) by (simp add: s0_def calls_if extends_by_snoc)
  from extends_loadData[OF e1 assms(2)] e1 show ?thesis
    by (simp add: handleRemoveEntry_def Let_def case_prod_unfold s0_def[symmetric] split: sum.splits)
qed

lemma trace_toggle_autostart:
  "trace (snd (toggle_autostart want st)) =
     trace st @ [if want then Enable_autostart else Disable_autostart]"
  by (simp add: toggle_autostart_def calls_if)

lemma trace_toggle_failed [simp]: "trace (toggle_failed st) = trace st"
  by (simp add: toggle_failed_def)

lemma faults_toggle_failed [simp]: "faults (toggle_failed st) = faults st"
  by (simp add: toggle_failed_def)

lemma extends_handleSaveSettings:
  assumes "extends_by A t0 (trace st)" and "load_calls \<subseteq> A"
    and "Enable_autostart \<in> A" and "Disable_autostart \<in> A"
  shows "extends_by A t0 (trace (handleSaveSettings p st))"
proof -
  have q: "Is_permission_granted \<in> A" "\<And>x. Save_settings x \<in> A"
    using assms(2) by (auto simp: load_calls_def)
  define updated where "updated = merge_settings (settings st) p"
  define s2 where "s2 = (case p_theme p of
                  None \<Rightarrow> setSettings updated st
                | Some t \<Rightarrow> if t \<noteq> [] then (setSettings updated st)\<lparr>data_theme := Some t\<rparr>
                            else setSettings updated st)"
  have e2: "extends_by A t0 (trace s2)"
    using assms(1) by (simp add: s2_def split: option.splits)
  have ld: "\<And>s. extends_by A t0 (trace s) \<Longrightarrow> extends_by A t0 (trace (loadData s))"
    by (rule extends_loadData[OF _ assms(2)])
  have rr: "\<And>s. extends_by A t0 (trace s) \<Longrightarrow> extends_by A t0 (trace (rerender (settings st) s))"
    by (rule extends_rerender[OF _ q(1)])
  have sv: "\<And>s. extends_by A t0 (trace s) \<Longrightarrow>
              extends_by A t0 (trace (snd (save_settings updated s)))"
    using q(2) by (simp add: calls_if extends_by_snoc)
  show ?thesis
  proof (cases "p_start_with_system p")
    case None
    have eq: "handleSaveSettings p st =
        (case fst (save_settings updated s2) of
           Inl e \<Rightarrow> console_error ''Failed to save settings:''
                      (rerender (settings st) (snd (save_settings updated s2)))
         | Inr u \<Rightarrow> loadData (rerender (settings st) (snd (save_settings updated s2))))"
      unfolding handleSaveSettings_def Let_def s2_def updated_def
      by (simp add: None case_prod_unfold)
    have "extends_by A t0 (trace (rerender (settings st) (snd (save_settings updated s2))))"
      by (rule rr[OF sv[OF e2]])
    then show ?thesis by (simp add: eq ld split: sum.splits)
  next
    case (Some want)
    define s5 where "s5 = (case fst (toggle_autostart want s2) of
                             Inl e \<Rightarrow> toggle_failed (rerender (settings st) (snd (toggle_autostart want s2)))
                           | Inr u \<Rightarrow> rerender (settings st) (snd (toggle_autostart want s2)))"
    have eq: "handleSaveSettings p st =
        (case save_settings updated s5 of
           (Inl e, s6) \<Rightarrow> console_error ''Failed to save settings:'' s6
         | (Inr u, s6) \<Rightarrow> loadData s6)"
      unfolding handleSaveSettings_def Let_def s5_def s2_def updated_def
      by (simp add: Some case_prod_unfold)
    have "extends_by A t0 (trace (snd (toggle_autostart want s2)))"
      using e2 assms(3,4) by (simp add: trace_toggle_autostart extends_by_snoc)
    from rr[OF this] have "extends_by A t0 (trace s5)"
      by (simp add: s5_def split: sum.splits)
    from sv[OF this] show ?thesis
      by (simp add: eq case_prod_unfold ld split: sum.splits)
  qed
qed

lemma faults_calls [simp]:
  "faults (snd (load_reads st)) = faults st"
  "faults (snd (sync_autostart sv st)) = faults st"
  "faults (snd (add_water a st)) = faults st"
  "faults (snd (add_reads st)) = faults st"
  "faults (snd (remove_entry i st)) = faults st"
  "faults (snd (save_settings new st)) = faults st"
  "faults (snd (toggle_autostart want st)) = faults st"
  "faults (notify n f s st) = faults st"
  by (simp_all add: load_reads_def sync_autostart_def add_reads_def toggle_autostart_def
        calls_if notify_if Let_def)

lemma faults_loadData_continue [simp]: "faults (loadData_continue r st) = faults st"
  by (simp add: loadData_continue_def Let_def case_prod_unfold split: sum.splits)

lemma faults_loadData [simp]: "faults (loadData st) = faults st"
  by (simp add: loadData_def Let_def case_prod_unfold)

lemma faults_mount [simp]: "faults (mount st) = faults st"
  by (simp add: mount_def Let_def case_prod_unfold setupReminder_start_def)

lemma trace_fire:
  "trace (fire h st) = trace st \<or> (\<exists>n. trace (fire h st) = trace st @ [Send_notification n])"
  by (simp add: fire_def Let_def notify_if split: option.splits timer_kind.splits)

lemma extends_step:
  assumes "extends_by A t0 (trace st)" and "load_calls \<subseteq> A"
    and "Enable_autostart \<in> A" and "Disable_autostart \<in> A" and "Request_permission \<in> A"
    and "range Remove_entry \<subseteq> A" and "range Send_notification \<subseteq> A"
    and "\<And>a. 0 < a \<Longrightarrow> Add_water a \<in> A"
  shows "extends_by A t0 (trace (step e st))"
proof (cases e)
  case Mount
  with extends_mount[OF assms(1,2)] assms(1) show ?thesis by simp
next
  case Unmount
  with assms(1) show ?thesis by (simp add: unmount_def)
next
  case (Click_add a)
  with extends_handleAddWater[OF assms(1,2) assms(8)] assms(1) show ?thesis by simp
next
  case (Tray_quick_add a)
  with extends_handleAddWater[OF assms(1,2) assms(8)] assms(1) show ?thesis by simp
next
  case (Click_remove i)
  have "Remove_entry i \<in> A" using assms(6) by blast
  with Click_remove extends_handleRemoveEntry[OF assms(1,2)] assms(1) show ?thesis by simp
next
  case (Change_setting p)
  with extends_handleSaveSettings[OF assms(1,2,3,4)] assms(1) show ?thesis by simp
next
  case (Answer_isPermissionGranted k b)
  with assms(1,5) show ?thesis
    by (simp add: resolve_isPermissionGranted_def after_isPermissionGranted_def extends_by_snoc)
next
  case (Answer_requestPermission k perm)
  with assms(1) show ?thesis
    by (simp add: resolve_requestPermission_def after_requestPermission_def)
next
  case (Reject_permission_query k)
  with assms(1) show ?thesis by (simp add: reject_permission_def)
next
  case (Fire h)
  from trace_fire[of h st] show ?thesis
  proof (elim disjE exE)
    assume "trace (fire h st) = trace st"
    with Fire assms(1) show ?thesis by simp
  next
    fix n assume t: "trace (fire h st) = trace st @ [Send_notification n]"
    have "Send_notification n \<in> A" using assms(7) by blast
    with Fire t assms(1) show ?thesis by (simp add: extends_by_snoc)
  qed
qed

section \<open>Loading the data\<close>

lemma load_reads_fail:
  assumes "faults st (length (trace st)) \<or> faults st (Suc (length (trace st)))
           \<or> faults st (Suc (Suc (length (trace st))))"
  shows "load_reads st =
           (Inl StoreError,
            st\<lparr>trace := trace st @ [Get_today_stats, Get_today_entries, Get_settings]\<rparr>)"
  using assms by (auto simp: load_reads_def calls_if log_call_def)

lemma load_reads_ok:
  assumes "\<not> faults st (length (trace st))" and "\<not> faults st (Suc (length (trace st)))"
    and "\<not> faults st (Suc (Suc (length (trace st))))"
  shows "load_reads st =
           (Inr (daily_stats (today st) (daily_goal_ml (db_settings st)) (db_entries st),
                 entries_on (today st) (db_entries st), db_settings st),
            st\<lparr>trace := trace st @ [Get_today_stats, Get_today_entries, Get_settings]\<rparr>)"
  using assms by (auto simp: load_reads_def calls_if log_call_def)

lemma loadData_fail:
  assumes "faults st (length (trace st)) \<or> faults st (Suc (length (trace st)))
           \<or> faults st (Suc (Suc (length (trace st))))"
  shows "loadData st =
           st\<lparr>trace := trace st @ [Get_today_stats, Get_today_entries, Get_settings],
              console := console st @ [''Failed to load data:'']\<rparr>"
  using load_reads_fail[OF assms]
  by (simp add: loadData_def loadData_continue_def console_error_def)

lemma world_disarm [simp]:
  "db_settings (disarm st) = db_settings st"
  "db_entries (disarm st) = db_entries st"
  "os_autostart (disarm st) = os_autostart st"
  "settings (disarm st) = settings st"
  "stats (disarm st) = stats st"
  "entries (disarm st) = entries st"
  "data_theme (disarm st) = data_theme st"
  "toast_log (disarm st) = toast_log st"
  "lifecycle (disarm st) = lifecycle st"
  by (simp_all add: disarm_def clearTimer_def split: option.splits)

lemma world_effect_cleanup [simp]:
  "db_settings (effect_cleanup st) = db_settings st"
  "db_entries (effect_cleanup st) = db_entries st"
  "os_autostart (effect_cleanup st) = os_autostart st"
  "settings (effect_cleanup st) = settings st"
  "stats (effect_cleanup st) = stats st"
  "entries (effect_cleanup st) = entries st"
  "data_theme (effect_cleanup st) = data_theme st"
  "toast_log (effect_cleanup st) = toast_log st"
  "lifecycle (effect_cleanup st) = lifecycle st"
  by (simp_all add: effect_cleanup_def Let_def clearTimer_def split: option.splits)

lemma world_setSettings [simp]:
  "db_settings (setSettings new st) = db_settings st"
  "db_entries (setSettings new st) = db_entries st"
  "os_autostart (setSettings new st) = os_autostart st"
  "settings (setSettings new st) = new"
  "stats (setSettings new st) = stats st"
  "entries (setSettings new st) = entries st"
  "data_theme (setSettings new st) = data_theme st"
  "toast_log (setSettings new st) = toast_log st"
  "lifecycle (setSettings new st) = lifecycle st"
  by (simp_all add: setSettings_def)

lemma world_rerender [simp]:
  "db_settings (rerender prev st) = db_settings st"
  "db_entries (rerender prev st) = db_entries st"
  "os_autostart (rerender prev st) = os_autostart st"
  "settings (rerender prev st) = settings st"
  "stats (rerender prev st) = stats st"
  "entries (rerender prev st) = entries st"
  "data_theme (rerender prev st) = data_theme st"
  "toast_log (rerender prev st) = toast_log st"
  "lifecycle (rerender prev st) = lifecycle st"
  by (simp_all add: rerender_def setupReminder_start_def log_call_def)

lemma os_sync_autostart [simp]: "os_autostart (snd (sync_autostart sv st)) = os_autostart st"
  by (simp add: sync_autostart_def calls_if Let_def log_call_def console_error_def)

lemma os_load_reads [simp]: "os_autostart (snd (load_reads st)) = os_autostart st"
  by (simp add: load_reads_def calls_if Let_def log_call_def)

lemma os_loadData: "os_autostart (loadData st) = os_autostart st"
  by (simp add: loadData_def loadData_continue_def Let_def case_prod_unfold console_error_def
        split: sum.splits)

text \<open>The reconciliation when the query for the registration answers.\<close>

lemma sync_autostart_same:
  assumes "\<not> faults st (length (trace st))" and "start_with_system sv = os_autostart st"
  shows "sync_autostart sv st = (sv, st\<lparr>trace := trace st @ [Is_autostart_enabled]\<rparr>)"
  using assms by (simp add: sync_autostart_def calls_if log_call_def)

lemma sync_autostart_differs:
  assumes "\<not> faults st (length (trace st))" and "start_with_system sv \<noteq> os_autostart st"
  shows "sync_autostart sv st =
    (sv\<lparr>start_with_system := os_autostart st\<rparr>,
     if faults st (Suc (length (trace st)))
     then st\<lparr>trace := trace st @ [Is_autostart_enabled,
                 Save_settings (sv\<lparr>start_with_system := os_autostart st\<rparr>)],
             console := console st @ [''Failed to check autostart status:'']\<rparr>
     else st\<lparr>trace := trace st @ [Is_autostart_enabled,
                 Save_settings (sv\<lparr>start_with_system := os_autostart st\<rparr>)],
             db_settings := sv\<lparr>start_with_system := os_autostart st\<rparr>\<rparr>)"
  using assms by (simp add: sync_autostart_def calls_if log_call_def console_error_def Let_def)

lemma loadData_ok:
  assumes "\<not> faults st (length (trace st))" and "\<not> faults st (Suc (length (trace st)))"
    and "\<not> faults st (Suc (Suc (length (trace st))))"
  shows "loadData st =
     (let s1 = st\<lparr>trace := trace st @ [Get_today_stats, Get_today_entries, Get_settings],
                  stats := Some (daily_stats (today st) (daily_goal_ml (db_settings st)) (db_entries st)),
                  entries := entries_on (today st) (db_entries st)\<rparr>;
          r = sync_autostart (db_settings st) s1
      in rerender (settings st) ((setSettings (fst r) (snd r))\<lparr>data_theme := Some (theme (fst r))\<rparr>))"
  using load_reads_ok[OF assms]
  by (simp add: loadData_def loadData_continue_def Let_def case_prod_unfold)

lemma loadData_persisted:
  assumes "\<not> faults st (length (trace st))" and "\<not> faults st (Suc (length (trace st)))"
    and "\<not> faults st (Suc (Suc (length (trace st))))"
    and "\<not> faults st (Suc (Suc (Suc (length (trace st)))))"
    and "\<not> faults st (Suc (Suc (Suc (Suc (length (trace st))))))"
  shows "db_settings (loadData st) = (db_settings st)\<lparr>start_with_system := os_autostart st\<rparr>"
proof (cases "start_with_system (db_settings st) = os_autostart st")
  case True
  let ?s1 = "st\<lparr>trace := trace st @ [Get_today_stats, Get_today_entries, Get_settings],
                stats := Some (daily_stats (today st) (daily_goal_ml (db_settings st)) (db_entries st)),
                entries := entries_on (today st) (db_entries st)\<rparr>"
  have "sync_autostart (db_settings st) ?s1 =
          (db_settings st, ?s1\<lparr>trace := trace ?s1 @ [Is_autostart_enabled]\<rparr>)"
    using assms(4) True by (intro sync_autostart_same) simp_all
  moreover have "(db_settings st)\<lparr>start_with_system := os_autostart st\<rparr> = db_settings st"
    using True by simp
  ultimately show ?thesis
    by (simp add: loadData_ok[OF assms(1,2,3)] Let_def)
next
  case False
  let ?s1 = "st\<lparr>trace := trace st @ [Get_today_stats, Get_today_entries, Get_settings],
                stats := Some (daily_stats (today st) (daily_goal_ml (db_settings st)) (db_entries st)),
                entries := entries_on (today st) (db_entries st)\<rparr>"
  have "\<not> faults ?s1 (length (trace ?s1))" "start_with_system (db_settings st) \<noteq> os_autostart ?s1"
    using assms(4) False by simp_all
  from sync_autostart_differs[OF this] assms(5) show ?thesis
    by (simp add: loadData_ok[OF assms(1,2,3)] Let_def)
qed

lemma toasts_disarm [simp]:
  "toast (disarm st) = toast st" "toast (effect_cleanup st) = toast st"
  by (simp_all add: disarm_def effect_cleanup_def Let_def clearTimer_def split: option.splits)

lemma toast_setSettings [simp]:
  "toast (setSettings new st) = toast st" "toast (rerender prev st) = toast st"
  by (simp_all add: setSettings_def rerender_def setupReminder_start_def log_call_def)

lemma toasts_sync_autostart [simp]:
  "toast_log (snd (sync_autostart sv st)) = toast_log st"
  "toast (snd (sync_autostart sv st)) = toast st"
  by (simp_all add: sync_autostart_def calls_if Let_def log_call_def console_error_def)

lemma toasts_load_reads [simp]:
  "toast_log (snd (load_reads st)) = toast_log st"
  "toast (snd (load_reads st)) = toast st"
  by (simp_all add: load_reads_def calls_if Let_def log_call_def)

lemma toasts_loadData:
  "toast_log (loadData st) = toast_log st" "toast (loadData st) = toast st"
  by (simp_all add: loadData_def loadData_continue_def Let_def case_prod_unfold console_error_def
        split: sum.splits)

section \<open>Only arming makes a timer of the scheduler\<close>

lemma no_new_reminders_upd [simp]:
  "no_new_reminders T (st\<lparr>stats := a1\<rparr>) = no_new_reminders T st"
  "no_new_reminders T (st\<lparr>entries := a2\<rparr>) = no_new_reminders T st"
  "no_new_reminders T (st\<lparr>settings := a3\<rparr>) = no_new_reminders T st"
  "no_new_reminders T (st\<lparr>customAmount := a4\<rparr>) = no_new_reminders T st"
  "no_new_reminders T (st\<lparr>toast := a5\<rparr>) = no_new_reminders T st"
  "no_new_reminders T (st\<lparr>achievement := a6\<rparr>) = no_new_reminders T st"
  "no_new_reminders T (st\<lparr>reminderInterval := a7\<rparr>) = no_new_reminders T st"
  "no_new_reminders T (st\<lparr>achievementTimeout := c1\<rparr>) = no_new_reminders T st"
  "no_new_reminders T (st\<lparr>data_theme := a8\<rparr>) = no_new_reminders T st"
  "no_new_reminders T (st\<lparr>lifecycle := a9\<rparr>) = no_new_reminders T st"
  "no_new_reminders T (st\<lparr>next_handle := c2\<rparr>) = no_new_reminders T st"
  "no_new_reminders T (st\<lparr>pending := b1\<rparr>) = no_new_reminders T st"
  "no_new_reminders T (st\<lparr>sounds := b2\<rparr>) = no_new_reminders T st"
  "no_new_reminders T (st\<lparr>console := b3\<rparr>) = no_new_reminders T st"
  "no_new_reminders T (st\<lparr>toast_log := b4\<rparr>) = no_new_reminders T st"
  "no_new_reminders T (st\<lparr>db_entries := b5\<rparr>) = no_new_reminders T st"
  "no_new_reminders T (st\<lparr>db_settings := b6\<rparr>) = no_new_reminders T st"
  "no_new_reminders T (st\<lparr>db_next_id := b7\<rparr>) = no_new_reminders T st"
  "no_new_reminders T (st\<lparr>os_autostart := b8\<rparr>) = no_new_reminders T st"
  "no_new_reminders T (st\<lparr>trace := b9\<rparr>) = no_new_reminders T st"
  by (simp_all add: no_new_reminders_def)

lemma no_new_reminders_basic [simp]:
  "no_new_reminders T (log_call c st) = no_new_reminders T st"
  "no_new_reminders T (console_error m st) = no_new_reminders T st"
  "no_new_reminders T (playSound ty en st) = no_new_reminders T st"
  "no_new_reminders T (setToast tm sh st) = no_new_reminders T st"
  by (simp_all add: log_call_def console_error_def playSound_def setToast_def)

lemma no_new_reminders_clearTimer:
  "no_new_reminders T st \<Longrightarrow> no_new_reminders T (clearTimer h st)"
  by (auto simp: no_new_reminders_def reminder_timers_def clearTimer_def)

lemma no_new_reminders_setTimer:
  "no_new_reminders T st \<Longrightarrow> \<not> is_reminder k \<Longrightarrow>
   no_new_reminders T (snd (setTimer ms again k st))"
  by (auto simp: no_new_reminders_def reminder_timers_def setTimer_def)

lemma not_reminder [simp]: "\<not> is_reminder Hide_toast" "\<not> is_reminder Hide_achievement"
  by (simp_all add: is_reminder_def is_interval_def is_confirmation_def)

lemma no_new_reminders_disarm: "no_new_reminders T st \<Longrightarrow> no_new_reminders T (disarm st)"
  by (simp add: disarm_def no_new_reminders_clearTimer split: option.splits)

lemma no_new_reminders_effect_cleanup:
  "no_new_reminders T st \<Longrightarrow> no_new_reminders T (effect_cleanup st)"
  by (simp add: effect_cleanup_def Let_def no_new_reminders_clearTimer split: option.splits)

lemma no_new_reminders_showToast: "no_new_reminders T st \<Longrightarrow> no_new_reminders T (showToast m st)"
  by (simp add: showToast_def no_new_reminders_setTimer)

lemma no_new_reminders_permission_refused:
  "no_new_reminders T st \<Longrightarrow> no_new_reminders T (permission_refused st)"
  by (simp add: permission_refused_def Let_def no_new_reminders_setTimer)

lemma no_new_reminders_setupReminder_start:
  "no_new_reminders T st \<Longrightarrow> no_new_reminders T (setupReminder_start s st)"
  by (simp add: setupReminder_start_def no_new_reminders_disarm)

lemma no_new_reminders_setSettings [simp]:
  "no_new_reminders T (setSettings new st) = no_new_reminders T st"
  by (simp add: setSettings_def)

lemma no_new_reminders_rerender:
  "no_new_reminders T st \<Longrightarrow> no_new_reminders T (rerender prev st)"
  by (simp add: rerender_def no_new_reminders_setupReminder_start
        no_new_reminders_effect_cleanup)

lemma no_new_reminders_calls [simp]:
  "no_new_reminders T (snd (sync_autostart sv st)) = no_new_reminders T st"
  "no_new_reminders T (snd (load_reads st)) = no_new_reminders T st"
  "no_new_reminders T (snd (add_water a st)) = no_new_reminders T st"
  "no_new_reminders T (snd (add_reads st)) = no_new_reminders T st"
  "no_new_reminders T (snd (remove_entry i st)) = no_new_reminders T st"
  "no_new_reminders T (snd (save_settings new st)) = no_new_reminders T st"
  "no_new_reminders T (notify n f s st) = no_new_reminders T st"
  by (simp_all add: sync_autostart_def load_reads_def add_reads_def calls_if notify_if Let_def)

lemma no_new_reminders_loadData_continue:
  "no_new_reminders T st \<Longrightarrow> no_new_reminders T (loadData_continue r st)"
  by (simp add: loadData_continue_def Let_def case_prod_unfold no_new_reminders_rerender
        split: sum.splits)

lemma no_new_reminders_loadData: "no_new_reminders T st \<Longrightarrow> no_new_reminders T (loadData st)"
  by (simp add: loadData_def Let_def case_prod_unfold no_new_reminders_loadData_continue)

lemma no_new_reminders_mount: "no_new_reminders T st \<Longrightarrow> no_new_reminders T (mount st)"
  by (simp add: mount_def Let_def case_prod_unfold no_new_reminders_loadData_continue
        no_new_reminders_setupReminder_start)

lemma no_new_reminders_unmount: "no_new_reminders T st \<Longrightarrow> no_new_reminders T (unmount st)"
  by (simp add: unmount_def no_new_reminders_effect_cleanup)

lemma no_new_reminders_unlock_achievement:
  assumes "no_new_reminders T st"
  shows "no_new_reminders T (unlock_achievement c st)"
proof -
  define s3 where "s3 = (let s2 = playSound Snd_achievement (sound_enabled (c_settings c))
                 (st\<lparr>achievement := (True, ''FIRST AID SPRAY'' @ [CHR 0x0A] @ ''ACHIEVEMENT UNLOCKED'')\<rparr>)
        in case achievementTimeout s2 of None \<Rightarrow> s2
           | Some h \<Rightarrow> if h \<noteq> 0 then clearTimer h s2 else s2)"
  have "no_new_reminders T s3"
    using assms by (simp add: s3_def Let_def no_new_reminders_clearTimer split: option.splits)
  then have "no_new_reminders T (snd (setTimer 5000 False Hide_achievement s3))"
    by (rule no_new_reminders_setTimer) simp
  moreover have "unlock_achievement c st =
      (snd (setTimer 5000 False Hide_achievement s3))\<lparr>achievementTimeout := Some (next_handle s3)\<rparr>"
    by (simp add: unlock_achievement_unfold s3_def Let_def setTimer_def)
  ultimately show ?thesis by simp
qed

lemma no_new_reminders_handleAddWater:
  "no_new_reminders T st \<Longrightarrow> no_new_reminders T (handleAddWater c amount st)"
  by (simp add: handleAddWater_def Let_def case_prod_unfold no_new_reminders_loadData
        no_new_reminders_unlock_achievement no_new_reminders_showToast split: sum.splits)

lemma no_new_reminders_handleRemoveEntry:
  "no_new_reminders T st \<Longrightarrow> no_new_reminders T (handleRemoveEntry c i st)"
  by (simp add: handleRemoveEntry_def Let_def case_prod_unfold no_new_reminders_loadData
        split: sum.splits)

lemma no_new_reminders_toggle_autostart [simp]:
  "no_new_reminders T (snd (toggle_autostart want st)) = no_new_reminders T st"
  by (simp add: toggle_autostart_def calls_if)

lemma no_new_reminders_toggle_failed:
  "no_new_reminders T st \<Longrightarrow> no_new_reminders T (toggle_failed st)"
  by (simp add: toggle_failed_def no_new_reminders_showToast)

lemma no_new_reminders_handleSaveSettings:
  "no_new_reminders T st \<Longrightarrow> no_new_reminders T (handleSaveSettings p st)"
  by (simp add: handleSaveSettings_def Let_def case_prod_unfold no_new_reminders_loadData
        no_new_reminders_rerender no_new_reminders_toggle_failed
        split: sum.splits option.splits)

lemma no_new_reminders_fire: "no_new_reminders T st \<Longrightarrow> no_new_reminders T (fire h st)"
  by (simp add: fire_def Let_def no_new_reminders_clearTimer split: option.splits timer_kind.splits)

lemma no_new_reminders_step:
  assumes "no_new_reminders T st"
    and "\<forall>k. e \<noteq> Answer_isPermissionGranted k True"
    and "\<forall>k. e \<noteq> Answer_requestPermission k Granted"
  shows "no_new_reminders T (step e st)"
  using assms
  by (cases e)
     (simp_all add: no_new_reminders_mount no_new_reminders_unmount no_new_reminders_handleAddWater
        no_new_reminders_handleRemoveEntry no_new_reminders_handleSaveSettings
        no_new_reminders_fire resolve_isPermissionGranted_def after_isPermissionGranted_def
        resolve_requestPermission_def after_requestPermission_def reject_permission_def
        no_new_reminders_permission_refused)

section \<open>Properties of month navigation\<close>

text \<open>
  C9. From a selected month in 1..12, \<open>navigateMonth\<close> yields a month in 1..12 again
  (for any integer direction); one step forward from December gives January of the next
  year, one step back from January gives December of the previous year, in every other
  case the year stays and the month moves by the direction; a step forward followed by a
  step back restores the selection.
\<close>

theorem navigateMonth_wraps:
  assumes "1 \<le> month sel" and "month sel \<le> 12"
  shows "1 \<le> month (navigateMonth d sel) \<and> month (navigateMonth d sel) \<le> 12
    \<and> (month sel = 12 \<longrightarrow> navigateMonth 1 sel = \<lparr>year = year sel + 1, month = 1\<rparr>)
    \<and> (month sel = 1 \<longrightarrow> navigateMonth (- 1) sel = \<lparr>year = year sel - 1, month = 12\<rparr>)
    \<and> (1 \<le> month sel + d \<and> month sel + d \<le> 12 \<longrightarrow>
           navigateMonth d sel = \<lparr>year = year sel, month = month sel + d\<rparr>)
    \<and> navigateMonth (- 1) (navigateMonth 1 sel) = sel"
  using assms by (auto simp: navigateMonth_def Let_def)

theorem navigateMonth_wraps_witness:
  "navigateMonth 1 \<lparr>year = 2024, month = 12\<rparr> = \<lparr>year = 2025, month = 1\<rparr>
   \<and> navigateMonth (- 1) \<lparr>year = 2025, month = 1\<rparr> = \<lparr>year = 2024, month = 12\<rparr>
   \<and> navigateMonth 1 \<lparr>year = 2024, month = 5\<rparr> = \<lparr>year = 2024, month = 6\<rparr>
   \<and> navigateMonth (- 1) (navigateMonth 1 \<lparr>year = 2024, month = 12\<rparr>) = \<lparr>year = 2024, month = 12\<rparr>
   \<and> 1 \<le> month (navigateMonth 7 \<lparr>year = 2024, month = 9\<rparr>)
   \<and> month (navigateMonth 7 \<lparr>year = 2024, month = 9\<rparr>) \<le> 12"
  using navigateMonth_wraps [of "\<lparr>year = 2024, month = 9\<rparr>" 7]
        navigateMonth_wraps [of "\<lparr>year = 2024, month = 12\<rparr>" 1]
        navigateMonth_wraps [of "\<lparr>year = 2025, month = 1\<rparr>" 1]
        navigateMonth_wraps [of "\<lparr>year = 2024, month = 5\<rparr>" 1]
  by simp

section \<open>The reminder scheduler: one recurring timer\<close>

lemma recurring_setupReminder_start:
  assumes "filter recurring (timers st) = []"
  shows "filter recurring (timers (setupReminder_start s st)) = []"
  using assms
  by (auto simp: setupReminder_start_def disarm_def clearTimer_def log_call_def filter_empty_conv
           split: option.splits)

lemma recurring_rerender:
  assumes "timers_ok st" and "reminder_deps (settings st) \<noteq> reminder_deps prev"
  shows "filter recurring (timers (rerender prev st)) = []"
proof -
  from timers_ok_effect_cleanup(2)[OF assms(1)]
  have "filter recurring (timers (setupReminder_start (settings st) (effect_cleanup st))) = []"
    by (rule recurring_setupReminder_start)
  with assms(2) show ?thesis by (simp add: rerender_def)
qed

lemma recurring_setSettings:
  assumes "timers_ok st" and "reminder_deps new \<noteq> reminder_deps (settings st)"
  shows "filter recurring (timers (rerender (settings st) (setSettings new st))) = []"
  using assms by (intro recurring_rerender) simp_all

text \<open>
  C3. In every state the component reaches from its first render, at most one recurring
  reminder timer is live. When a suspended \<^verbatim>\<open>setupReminder\<close> learns that permission is
  granted and arms, the recurring timers that are live afterwards are exactly the new one,
  with the interval of the settings that call was started with: the timer that was live
  before is gone. The render that follows a change of \<^verbatim>\<open>reminder_enabled\<close> or
  \<^verbatim>\<open>reminder_interval_minutes\<close> cancels the live recurring timer at once, before the new
  one is made.
\<close>

theorem one_recurring_timer:
  assumes "first_rendered st0"
  shows "length (filter recurring (timers (run es st0))) \<le> 1
    \<and> (k < length (pending (run es st0))
         \<and> fst (pending (run es st0) ! k) = Await_isPermissionGranted \<longrightarrow>
       filter recurring (timers (step (Answer_isPermissionGranted k True) (run es st0))) =
         [\<lparr>handle = Suc (next_handle (run es st0)),
           delay_ms = reminder_interval_minutes (snd (pending (run es st0) ! k)) * 60 * 1000,
           recurring = True, kind = Reminder_interval (snd (pending (run es st0) ! k))\<rparr>])
    \<and> (k < length (pending (run es st0))
         \<and> fst (pending (run es st0) ! k) = Await_requestPermission \<longrightarrow>
       filter recurring (timers (step (Answer_requestPermission k Granted) (run es st0))) =
         [\<lparr>handle = Suc (next_handle (run es st0)),
           delay_ms = reminder_interval_minutes (snd (pending (run es st0) ! k)) * 60 * 1000,
           recurring = True, kind = Reminder_interval (snd (pending (run es st0) ! k))\<rparr>])
    \<and> (reminder_deps new \<noteq> reminder_deps (settings (run es st0)) \<longrightarrow>
       filter recurring
         (timers (rerender (settings (run es st0)) (setSettings new (run es st0)))) = [])"
proof -
  let ?st = "run es st0"
  have ok: "timers_ok ?st"
    using assms by (intro timers_ok_run timers_ok_first)
  have ok': "timers_ok (?st\<lparr>pending := remove_nth k (pending ?st)\<rparr>)"
    using ok by simp
  show ?thesis
    using timers_ok_le1[OF ok] arm_recurring(2)[OF ok'] recurring_setSettings[OF ok]
    by (simp add: resolve_isPermissionGranted_def after_isPermissionGranted_def
          resolve_requestPermission_def after_requestPermission_def)
qed

theorem one_recurring_timer_witness:
  "first_rendered fresh
   \<and> length (filter recurring (timers (run [Mount, Answer_isPermissionGranted 0 True,
          Change_setting (no_change\<lparr>p_reminder_interval_minutes := Some 30\<rparr>)] fresh))) \<le> 1
   \<and> filter recurring (timers (run [Mount, Answer_isPermissionGranted 0 True,
          Change_setting (no_change\<lparr>p_reminder_interval_minutes := Some 30\<rparr>),
          Answer_isPermissionGranted 0 True] fresh)) =
        [\<lparr>handle = 4, delay_ms = 1800000, recurring = True,
          kind = Reminder_interval (defaultSettings\<lparr>reminder_interval_minutes := 30\<rparr>)\<rparr>]"
proof -
  let ?es = "[Mount, Answer_isPermissionGranted 0 True,
          Change_setting (no_change\<lparr>p_reminder_interval_minutes := Some 30\<rparr>)]"
  have f: "first_rendered fresh"
    by (simp add: first_rendered_def fresh_def)
  have p: "pending (run ?es fresh) =
             [(Await_isPermissionGranted, defaultSettings\<lparr>reminder_interval_minutes := 30\<rparr>)]"
    by code_simp
  have n: "next_handle (run ?es fresh) = 3"
    by code_simp
  have r: "run (?es @ [Answer_isPermissionGranted 0 True]) fresh =
           step (Answer_isPermissionGranted 0 True) (run ?es fresh)"
    by simp
  from one_recurring_timer[OF f, of ?es 0] p n r show ?thesis
    by (simp add: f)
qed

section \<open>A failing read during the load\<close>

text \<open>
  C7. If one of the three reads of \<^verbatim>\<open>loadData\<close> fails (today's stats, today's entries,
  the settings), the load as a whole fails: the state afterwards is the state before, but
  for the three reads in the trace and one line on the console. The stats, the entries,
  the settings and the theme in memory are the former ones, the store is untouched, and
  the component stays as it was: \<^verbatim>\<open>loadData\<close> returns to its caller.
\<close>

theorem load_failure_leaves_state:
  assumes "faults st (length (trace st)) \<or> faults st (Suc (length (trace st)))
           \<or> faults st (Suc (Suc (length (trace st))))"
  shows "fst (load_reads st) = Inl StoreError
    \<and> loadData st =
         st\<lparr>trace := trace st @ [Get_today_stats, Get_today_entries, Get_settings],
            console := console st @ [''Failed to load data:'']\<rparr>
    \<and> stats (loadData st) = stats st \<and> entries (loadData st) = entries st
    \<and> settings (loadData st) = settings st \<and> data_theme (loadData st) = data_theme st
    \<and> db_settings (loadData st) = db_settings st \<and> db_entries (loadData st) = db_entries st
    \<and> lifecycle (loadData st) = lifecycle st"
  using load_reads_fail[OF assms] loadData_fail[OF assms] by simp

theorem load_failure_leaves_state_witness:
  "faults (fresh\<lparr>faults := (\<lambda>n. n = 2), settings := defaultSettings\<lparr>theme := ''light''\<rparr>\<rparr>) 2
   \<and> settings (loadData (fresh\<lparr>faults := (\<lambda>n. n = 2),
                                settings := defaultSettings\<lparr>theme := ''light''\<rparr>\<rparr>))
       = defaultSettings\<lparr>theme := ''light''\<rparr>
   \<and> stats (loadData (fresh\<lparr>faults := (\<lambda>n. n = 2),
                             settings := defaultSettings\<lparr>theme := ''light''\<rparr>\<rparr>)) = None
   \<and> console (loadData (fresh\<lparr>faults := (\<lambda>n. n = 2),
                               settings := defaultSettings\<lparr>theme := ''light''\<rparr>\<rparr>))
       = [''Failed to load data:'']"
  using load_failure_leaves_state
          [of "fresh\<lparr>faults := (\<lambda>n. n = 2), settings := defaultSettings\<lparr>theme := ''light''\<rparr>\<rparr>"]
  by (simp add: fresh_def)

section \<open>Reconciling the autostart flag on load\<close>

text \<open>
  C2. A load never changes the autostart registration of the operating system and never
  asks it to. When the three reads and the query for the registration answer: if the
  persisted \<open>start_with_system\<close> equals the registration, nothing is written (the store
  keeps its settings, no \<^verbatim>\<open>save_settings\<close> is issued); if it differs, the call that
  follows the query is \<^verbatim>\<open>save_settings\<close> with the persisted settings in which
  \<open>start_with_system\<close> is the registration, these settings are the ones in memory, and,
  the write answering, the ones persisted. In particular a persisted \<open>True\<close> over a
  registration that is off ends with both off.
\<close>

theorem autostart_reconciliation:
  "os_autostart (loadData st) = os_autostart st
   \<and> Enable_autostart \<notin> set (drop (length (trace st)) (trace (loadData st)))
   \<and> Disable_autostart \<notin> set (drop (length (trace st)) (trace (loadData st)))
   \<and> (\<not> faults st (length (trace st)) \<and> \<not> faults st (Suc (length (trace st)))
        \<and> \<not> faults st (Suc (Suc (length (trace st))))
        \<and> \<not> faults st (Suc (Suc (Suc (length (trace st))))) \<longrightarrow>
      (start_with_system (db_settings st) = os_autostart st \<longrightarrow>
         db_settings (loadData st) = db_settings st
         \<and> settings (loadData st) = db_settings st
         \<and> (\<forall>s. Save_settings s \<notin> set (drop (length (trace st)) (trace (loadData st)))))
      \<and> (start_with_system (db_settings st) \<noteq> os_autostart st \<longrightarrow>
         take 5 (drop (length (trace st)) (trace (loadData st))) =
           [Get_today_stats, Get_today_entries, Get_settings, Is_autostart_enabled,
            Save_settings ((db_settings st)\<lparr>start_with_system := os_autostart st\<rparr>)]
         \<and> settings (loadData st) = (db_settings st)\<lparr>start_with_system := os_autostart st\<rparr>
         \<and> (\<not> faults st (Suc (Suc (Suc (Suc (length (trace st)))))) \<longrightarrow>
              db_settings (loadData st) = (db_settings st)\<lparr>start_with_system := os_autostart st\<rparr>))
      \<and> (start_with_system (db_settings st) \<and> \<not> os_autostart st
           \<and> \<not> faults st (Suc (Suc (Suc (Suc (length (trace st)))))) \<longrightarrow>
         \<not> start_with_system (db_settings (loadData st)) \<and> \<not> os_autostart (loadData st)))"
proof -
  have ext: "extends_by load_calls (trace st) (trace (loadData st))"
    by (rule extends_loadData) simp_all
  from extends_by_drop[OF ext]
  have sub: "set (drop (length (trace st)) (trace (loadData st))) \<subseteq> load_calls" by simp
  have no_toggle: "Enable_autostart \<notin> set (drop (length (trace st)) (trace (loadData st)))"
      "Disable_autostart \<notin> set (drop (length (trace st)) (trace (loadData st)))"
    using sub by (auto simp: load_calls_def)
  have main: "(start_with_system (db_settings st) = os_autostart st \<longrightarrow>
         db_settings (loadData st) = db_settings st
         \<and> settings (loadData st) = db_settings st
         \<and> (\<forall>s. Save_settings s \<notin> set (drop (length (trace st)) (trace (loadData st)))))
      \<and> (start_with_system (db_settings st) \<noteq> os_autostart st \<longrightarrow>
         take 5 (drop (length (trace st)) (trace (loadData st))) =
           [Get_today_stats, Get_today_entries, Get_settings, Is_autostart_enabled,
            Save_settings ((db_settings st)\<lparr>start_with_system := os_autostart st\<rparr>)]
         \<and> settings (loadData st) = (db_settings st)\<lparr>start_with_system := os_autostart st\<rparr>
         \<and> (\<not> faults st (Suc (Suc (Suc (Suc (length (trace st)))))) \<longrightarrow>
              db_settings (loadData st) = (db_settings st)\<lparr>start_with_system := os_autostart st\<rparr>))"
    if ok: "\<not> faults st (length (trace st))" "\<not> faults st (Suc (length (trace st)))"
        "\<not> faults st (Suc (Suc (length (trace st))))"
        "\<not> faults st (Suc (Suc (Suc (length (trace st)))))"
  proof (cases "start_with_system (db_settings st) = os_autostart st")
    case True
    let ?s1 = "st\<lparr>trace := trace st @ [Get_today_stats, Get_today_entries, Get_settings],
                  stats := Some (daily_stats (today st) (daily_goal_ml (db_settings st)) (db_entries st)),
                  entries := entries_on (today st) (db_entries st)\<rparr>"
    have "sync_autostart (db_settings st) ?s1 = (db_settings st, ?s1\<lparr>trace := trace ?s1 @ [Is_autostart_enabled]\<rparr>)"
      using ok(4) True by (intro sync_autostart_same) simp_all
    with True show ?thesis
      by (simp add: loadData_ok[OF ok(1,2,3)] Let_def trace_rerender)
  next
    case False
    let ?s1 = "st\<lparr>trace := trace st @ [Get_today_stats, Get_today_entries, Get_settings],
                  stats := Some (daily_stats (today st) (daily_goal_ml (db_settings st)) (db_entries st)),
                  entries := entries_on (today st) (db_entries st)\<rparr>"
    have "\<not> faults ?s1 (length (trace ?s1))" "start_with_system (db_settings st) \<noteq> os_autostart ?s1"
      using ok(4) False by simp_all
    from sync_autostart_differs[OF this] False show ?thesis
      by (simp add: loadData_ok[OF ok(1,2,3)] Let_def trace_rerender)
  qed
  show ?thesis
    using os_loadData[of st] no_toggle main by auto
qed

theorem autostart_reconciliation_witness:
  "start_with_system (db_settings (fresh\<lparr>db_settings := defaultSettings\<lparr>start_with_system := True\<rparr>\<rparr>))
   \<and> \<not> os_autostart (fresh\<lparr>db_settings := defaultSettings\<lparr>start_with_system := True\<rparr>\<rparr>)
   \<and> \<not> start_with_system
         (db_settings (loadData (fresh\<lparr>db_settings := defaultSettings\<lparr>start_with_system := True\<rparr>\<rparr>)))
   \<and> \<not> os_autostart (loadData (fresh\<lparr>db_settings := defaultSettings\<lparr>start_with_system := True\<rparr>\<rparr>))
   \<and> settings (loadData (fresh\<lparr>db_settings := defaultSettings\<lparr>start_with_system := True\<rparr>\<rparr>))
       = defaultSettings
   \<and> db_settings (loadData fresh) = defaultSettings"
  using autostart_reconciliation
          [of "fresh\<lparr>db_settings := defaultSettings\<lparr>start_with_system := True\<rparr>\<rparr>"]
        autostart_reconciliation [of fresh]
  by (simp add: fresh_def defaultSettings_def)

section \<open>Adding water\<close>

lemma positive_adds_calls:
  "load_calls \<subseteq> positive_adds" "Enable_autostart \<in> positive_adds"
  "Disable_autostart \<in> positive_adds" "Request_permission \<in> positive_adds"
  "range Remove_entry \<subseteq> positive_adds" "range Send_notification \<subseteq> positive_adds"
  "0 < a \<Longrightarrow> Add_water a \<in> positive_adds"
  by (auto simp: load_calls_def positive_adds_def)

lemma positive_adds_run:
  "extends_by positive_adds t0 (trace st) \<Longrightarrow> extends_by positive_adds t0 (trace (run es st))"
proof (induction es arbitrary: st)
  case Nil
  then show ?case by simp
next
  case (Cons e es)
  have "extends_by positive_adds t0 (trace (step e st))"
    by (rule extends_step[OF Cons.prems positive_adds_calls])
  from Cons.IH[OF this] show ?case by simp
qed

text \<open>
  C6. For a requested amount that is zero or negative, \<^verbatim>\<open>handleAddWater\<close> issues no
  call at all (so no \<^verbatim>\<open>add_water\<close>), and the state afterwards is the state before except
  for the error sound: the stats, the entries and the settings in memory and the store
  are unchanged. Every \<^verbatim>\<open>add_water\<close> that \<^verbatim>\<open>handleAddWater\<close> issues carries a positive
  amount, and so does every \<^verbatim>\<open>add_water\<close> in the trace of any run of the component
  from its first render.
\<close>

theorem non_positive_amount_rejected:
  "(amount \<le> 0 \<longrightarrow>
      trace (handleAddWater c amount st) = trace st
      \<and> handleAddWater c amount st = st\<lparr>sounds := sounds (handleAddWater c amount st)\<rparr>
      \<and> stats (handleAddWater c amount st) = stats st
      \<and> entries (handleAddWater c amount st) = entries st
      \<and> settings (handleAddWater c amount st) = settings st
      \<and> db_entries (handleAddWater c amount st) = db_entries st
      \<and> db_settings (handleAddWater c amount st) = db_settings st)
   \<and> (\<forall>a. Add_water a \<in> set (drop (length (trace st)) (trace (handleAddWater c amount st)))
          \<longrightarrow> 0 < a)
   \<and> (first_rendered st0 \<longrightarrow> (\<forall>a. Add_water a \<in> set (trace (run es st0)) \<longrightarrow> 0 < a))"
proof -
  have rejected: "handleAddWater c amount st = playSound Snd_error (sound_enabled (c_settings c)) st"
    if "amount \<le> 0"
    using that by (simp add: handleAddWater_def)
  have "extends_by positive_adds (trace st) (trace (handleAddWater c amount st))"
    by (rule extends_handleAddWater) (simp_all add: positive_adds_calls)
  from extends_by_drop[OF this]
  have one: "\<forall>a. Add_water a \<in> set (drop (length (trace st)) (trace (handleAddWater c amount st)))
          \<longrightarrow> 0 < a"
    by (auto simp: positive_adds_def)
  have all: "\<forall>a. Add_water a \<in> set (trace (run es st0)) \<longrightarrow> 0 < a" if "first_rendered st0"
  proof -
    from that have "trace st0 = []" by (simp add: first_rendered_def)
    then have "extends_by positive_adds [] (trace st0)" by simp
    from extends_by_drop[OF positive_adds_run[OF this]] show ?thesis
      by (auto simp: positive_adds_def)
  qed
  show ?thesis
    using one all by (auto simp: rejected playSound_def)
qed

theorem non_positive_amount_rejected_witness:
  "first_rendered fresh
   \<and> trace (handleAddWater first_render (- 250) (run [Mount] fresh)) = trace (run [Mount] fresh)
   \<and> db_entries (handleAddWater first_render 0 (run [Mount] fresh)) = []
   \<and> trace (run [Mount, Click_add 250, Click_add 0, Tray_quick_add (- 5)] fresh) =
       [Get_today_stats, Get_today_entries, Get_settings, Is_permission_granted,
        Is_autostart_enabled, Add_water 250, Get_today_stats, Get_today_entries,
        Get_today_stats, Get_today_entries, Get_settings, Is_autostart_enabled]"
proof -
  have f: "first_rendered fresh"
    by (simp add: first_rendered_def fresh_def)
  have d: "db_entries (run [Mount] fresh) = []"
    by code_simp
  have t: "trace (run [Mount, Click_add 250, Click_add 0, Tray_quick_add (- 5)] fresh) =
       [Get_today_stats, Get_today_entries, Get_settings, Is_permission_granted,
        Is_autostart_enabled, Add_water 250, Get_today_stats, Get_today_entries,
        Get_today_stats, Get_today_entries, Get_settings, Is_autostart_enabled]"
    by code_simp
  from non_positive_amount_rejected
         [of "- 250" first_render "run [Mount] fresh" fresh
             "[Mount, Click_add 250, Click_add 0, Tray_quick_add (- 5)]"]
       non_positive_amount_rejected [of 0 first_render "run [Mount] fresh" fresh "[]"]
       f d t
  show ?thesis by simp
qed

section \<open>Toggling the autostart flag\<close>

lemma toggle_autostart_if:
  "toggle_autostart want st =
     (if faults st (length (trace st))
      then (Inl OSIntegrationError,
            log_call (if want then Enable_autostart else Disable_autostart) st)
      else (Inr (),
            (log_call (if want then Enable_autostart else Disable_autostart) st)
              \<lparr>os_autostart := want\<rparr>))"
  by (simp add: toggle_autostart_def calls_if)

lemma trace_rerender_calls:
  "trace (rerender prev st) = trace st @ effect_calls prev (settings st)"
  by (simp add: trace_rerender effect_calls_def)

text \<open>
  C1, as the code has it. For every change of \<open>start_with_system\<close> through
  \<^verbatim>\<open>handleSaveSettings\<close>, the call to enable or disable autostart is the first call the
  handler issues, and \<^verbatim>\<open>save_settings\<close> with the new value is issued after it, whether the
  first call succeeded or not; between the two comes only what the render issues (the
  permission query of the reminder effect, when the change carries a new reminder setting
  as well; nothing for a change of \<open>start_with_system\<close> alone). If the call to the
  operating system fails, the toast "Failed to update autostart setting" is shown and the
  registration stays as it was; if it succeeds the registration is the new value and no
  toast is shown. When the save and every call of the reload that follows it succeed, the
  persisted settings are the new settings with \<open>start_with_system\<close> set to the
  registration as it then is.
\<close>

theorem autostart_toggle_saves_regardless:
  assumes "p_start_with_system p = Some want"
  shows "start_with_system (merge_settings (settings st) p) = want
    \<and> take (2 + length (effect_calls (settings st) (merge_settings (settings st) p)))
         (drop (length (trace st)) (trace (handleSaveSettings p st))) =
        (if want then Enable_autostart else Disable_autostart)
          # effect_calls (settings st) (merge_settings (settings st) p)
          @ [Save_settings (merge_settings (settings st) p)]
    \<and> (faults st (length (trace st)) \<longrightarrow>
         toast_log (handleSaveSettings p st) = toast_log st @ [Toast_autostart_failed]
         \<and> toast (handleSaveSettings p st) = (Toast_autostart_failed, True)
         \<and> os_autostart (handleSaveSettings p st) = os_autostart st)
    \<and> (\<not> faults st (length (trace st)) \<longrightarrow>
         toast_log (handleSaveSettings p st) = toast_log st
         \<and> os_autostart (handleSaveSettings p st) = want)
    \<and> ((\<forall>i > length (trace st). \<not> faults st i) \<longrightarrow>
         db_settings (handleSaveSettings p st) =
           (merge_settings (settings st) p)
             \<lparr>start_with_system := os_autostart (handleSaveSettings p st)\<rparr>)"
proof -
  define updated where "updated = merge_settings (settings st) p"
  define s2 where "s2 = (case p_theme p of
                  None \<Rightarrow> setSettings updated st
                | Some t \<Rightarrow> if t \<noteq> [] then (setSettings updated st)\<lparr>data_theme := Some t\<rparr>
                            else setSettings updated st)"
  define call where "call = (if want then Enable_autostart else Disable_autostart)"
  define eff where "eff = effect_calls (settings st) updated"
  define s3 where "s3 = snd (toggle_autostart want s2)"
  define s4 where "s4 = rerender (settings st) s3"
  define s5 where "s5 = (case fst (toggle_autostart want s2) of
                           Inl e \<Rightarrow> toggle_failed s4 | Inr u \<Rightarrow> s4)"
  define s6 where "s6 = (log_call (Save_settings updated) s5)\<lparr>db_settings := updated\<rparr>"
  have s2: "trace s2 = trace st" "faults s2 = faults st" "toast_log s2 = toast_log st"
    "os_autostart s2 = os_autostart st" "toast s2 = toast st" "settings s2 = updated"
    by (simp_all add: s2_def setSettings_def split: option.splits)
  have fst3: "fst (toggle_autostart want s2) =
                (if faults st (length (trace st)) then Inl OSIntegrationError else Inr ())"
    by (simp add: toggle_autostart_if s2)
  have s3: "trace s3 = trace st @ [call]" "faults s3 = faults st" "toast_log s3 = toast_log st"
    "toast s3 = toast st" "settings s3 = updated"
    "os_autostart s3 = (if faults st (length (trace st)) then os_autostart st else want)"
    by (simp_all add: s3_def toggle_autostart_if s2 call_def log_call_def)
  have s4: "trace s4 = trace st @ call # eff" "faults s4 = faults st" "toast_log s4 = toast_log st"
    "toast s4 = toast st" "os_autostart s4 = os_autostart s3"
    by (simp_all add: s4_def trace_rerender_calls s3 eff_def)
  have t5: "trace s5 = trace st @ call # eff" and f5: "faults s5 = faults st"
    and o5: "os_autostart s5 = os_autostart s3"
    by (simp_all add: s5_def s4 toggle_failed_def showToast_def setToast_def setTimer_def
          console_error_def split: sum.splits)
  have fail5: "toast_log s5 = toast_log st @ [Toast_autostart_failed]"
       "toast s5 = (Toast_autostart_failed, True)" "os_autostart s5 = os_autostart st"
    if "faults st (length (trace st))"
    using that
    by (simp_all add: s5_def fst3 s4 s3 toggle_failed_def showToast_def setToast_def setTimer_def
          console_error_def)
  have ok5: "toast_log s5 = toast_log st" "os_autostart s5 = want"
    if "\<not> faults st (length (trace st))"
    using that by (simp_all add: s5_def fst3 s4 s3)
  have "handleSaveSettings p st =
      (case save_settings updated s5 of
         (Inl e, s6) \<Rightarrow> console_error ''Failed to save settings:'' s6
       | (Inr u, s6) \<Rightarrow> loadData s6)"
    unfolding handleSaveSettings_def Let_def s5_def s4_def s3_def s2_def updated_def
    by (simp only: assms option.case case_prod_unfold)
  then have eq: "handleSaveSettings p st =
      (if faults st (length (trace s5))
       then console_error ''Failed to save settings:'' (log_call (Save_settings updated) s5)
       else loadData s6)"
    by (simp add: save_settings_if f5 s6_def)
  have t6: "trace s6 = trace st @ call # eff @ [Save_settings updated]"
    and f6: "faults s6 = faults st"
    and w6: "toast_log s6 = toast_log s5" "toast s6 = toast s5" "os_autostart s6 = os_autostart s5"
      "db_settings s6 = updated"
    by (simp_all add: s6_def t5 f5 log_call_def)
  have ext: "extends_by UNIV (trace s6) (trace (loadData s6))"
    by (rule extends_loadData) simp_all
  then have tk: "take (2 + length eff) (drop (length (trace st)) (trace (loadData s6))) =
                   call # eff @ [Save_settings updated]"
    by (auto simp: extends_by_def t6)
  have first: "take (2 + length eff) (drop (length (trace st)) (trace (handleSaveSettings p st))) =
                 call # eff @ [Save_settings updated]"
    using tk by (simp add: eq t5)
  have toasts: "toast_log (handleSaveSettings p st) = toast_log s5"
      "toast (handleSaveSettings p st) = toast s5"
      "os_autostart (handleSaveSettings p st) = os_autostart s5"
    by (simp_all add: eq toasts_loadData os_loadData w6 console_error_def log_call_def)
  have persisted: "db_settings (handleSaveSettings p st) =
          updated\<lparr>start_with_system := os_autostart (handleSaveSettings p st)\<rparr>"
    if later: "\<forall>i > length (trace st). \<not> faults st i"
  proof -
    have "db_settings (loadData s6) = (db_settings s6)\<lparr>start_with_system := os_autostart s6\<rparr>"
      by (rule loadData_persisted) (simp_all add: f6 t6 later)
    moreover have "\<not> faults st (length (trace s5))" using later by (simp add: t5)
    ultimately show ?thesis
      by (simp add: eq w6 os_loadData)
  qed
  have "start_with_system updated = want"
    using assms by (simp add: updated_def merge_settings_def)
  then show ?thesis
    using first toasts fail5 ok5 persisted
    unfolding updated_def[symmetric] eff_def[symmetric] call_def[symmetric]
    by simp
qed

theorem autostart_toggle_saves_regardless_witness:
  "p_start_with_system want_autostart = Some True
   \<and> faults (run [Mount] toggle_fails) 5
   \<and> length (trace (run [Mount] toggle_fails)) = 5
   \<and> take 2 (drop 5 (trace (handleSaveSettings want_autostart (run [Mount] toggle_fails)))) =
       [Enable_autostart, Save_settings (defaultSettings\<lparr>start_with_system := True\<rparr>)]
   \<and> toast_log (handleSaveSettings want_autostart (run [Mount] toggle_fails)) =
       [Toast_autostart_failed]
   \<and> \<not> os_autostart (handleSaveSettings want_autostart (run [Mount] toggle_fails))
   \<and> db_settings (handleSaveSettings want_autostart (run [Mount] toggle_fails)) = defaultSettings"
proof -
  let ?st = "run [Mount] toggle_fails"
  have p: "p_start_with_system want_autostart = Some True"
    by (simp add: want_autostart_def no_change_def)
  have m: "merge_settings (settings ?st) want_autostart = defaultSettings\<lparr>start_with_system := True\<rparr>"
    by code_simp
  have e: "effect_calls (settings ?st) (defaultSettings\<lparr>start_with_system := True\<rparr>) = []"
    by code_simp
  have n: "length (trace ?st) = 5"
    by code_simp
  have f: "faults ?st = (\<lambda>n. n = 5)"
    by (simp add: toggle_fails_def fresh_def)
  have o: "os_autostart ?st = False" "toast_log ?st = []"
    by code_simp+
  have d: "defaultSettings\<lparr>start_with_system := False\<rparr> = defaultSettings"
    by (simp add: defaultSettings_def)
  from autostart_toggle_saves_regardless[OF p, of ?st] show ?thesis
    by (simp add: p m e n f o d del: run.simps)
qed

text \<open>
  C1 as the specification states it does not hold. In \<open>toggle_fails\<close> the call to enable
  autostart fails, and \<^verbatim>\<open>save_settings\<close> is issued all the same, with
  \<open>start_with_system = True\<close>. In \<open>plugin_down\<close> the later query for the registration
  fails as well, and the store keeps \<open>start_with_system = True\<close> over a registration that
  is off, where it held \<open>False\<close> before.
\<close>

theorem autostart_toggle_counterexample:
  "\<not> start_with_system (db_settings (run [Mount] toggle_fails))
   \<and> faults (run [Mount] toggle_fails) (length (trace (run [Mount] toggle_fails)))
   \<and> trace (run [Mount, Change_setting want_autostart] toggle_fails)
        ! length (trace (run [Mount] toggle_fails)) = Enable_autostart
   \<and> trace (run [Mount, Change_setting want_autostart] toggle_fails)
        ! Suc (length (trace (run [Mount] toggle_fails)))
       = Save_settings (defaultSettings\<lparr>start_with_system := True\<rparr>)
   \<and> \<not> start_with_system (db_settings (run [Mount] plugin_down))
   \<and> faults (run [Mount] plugin_down) (length (trace (run [Mount] plugin_down)))
   \<and> start_with_system (db_settings (run [Mount, Change_setting want_autostart] plugin_down))
   \<and> \<not> os_autostart (run [Mount, Change_setting want_autostart] plugin_down)"
  by code_simp

section \<open>Settings that the scheduler does not depend on\<close>

lemma rerender_same_deps:
  "reminder_deps (settings st) = reminder_deps prev \<Longrightarrow> rerender prev st = st"
  by (simp add: rerender_def)

lemma settings_calls [simp]:
  "settings (snd (save_settings new st)) = settings st"
  "settings (snd (toggle_autostart want st)) = settings st"
  "settings (toggle_failed st) = settings st"
  by (simp_all add: calls_if toggle_autostart_def toggle_failed_def showToast_def setToast_def
        setTimer_def console_error_def log_call_def)

lemma sched_sync_autostart [simp]:
  "timers (snd (sync_autostart sv st)) = timers st"
  "reminderInterval (snd (sync_autostart sv st)) = reminderInterval st"
  "pending (snd (sync_autostart sv st)) = pending st"
  "settings (snd (sync_autostart sv st)) = settings st"
  "reminder_deps (fst (sync_autostart sv st)) = reminder_deps sv"
  by (simp_all add: sync_autostart_def calls_if Let_def log_call_def console_error_def
        reminder_deps_def)

lemma sched_load_reads [simp]:
  "timers (snd (load_reads st)) = timers st"
  "reminderInterval (snd (load_reads st)) = reminderInterval st"
  "pending (snd (load_reads st)) = pending st"
  "settings (snd (load_reads st)) = settings st"
  by (simp_all add: load_reads_def calls_if Let_def log_call_def)

lemma load_reads_settings:
  "fst (load_reads st) = Inr (a, b, sv) \<Longrightarrow> sv = db_settings st"
  by (auto simp: load_reads_def calls_if Let_def log_call_def split: if_splits)

lemma loadData_same_deps:
  assumes "reminder_deps (db_settings st) = reminder_deps (settings st)"
  shows "timers (loadData st) = timers st"
    and "reminderInterval (loadData st) = reminderInterval st"
    and "pending (loadData st) = pending st"
proof -
  have "timers (loadData st) = timers st \<and> reminderInterval (loadData st) = reminderInterval st
        \<and> pending (loadData st) = pending st"
  proof (cases "fst (load_reads st)")
    case (Inl e)
    then show ?thesis
      by (simp add: loadData_def loadData_continue_def Let_def case_prod_unfold console_error_def)
  next
    case (Inr v)
    obtain a b sv where v: "v = (a, b, sv)" by (cases v) auto
    from load_reads_settings[OF Inr[unfolded v]] have sv: "sv = db_settings st" .
    let ?s1 = "(snd (load_reads st))\<lparr>stats := Some a, entries := b\<rparr>"
    have "reminder_deps (fst (sync_autostart sv ?s1)) = reminder_deps (settings st)"
      using assms sv by simp
    then show ?thesis
      by (simp add: loadData_def loadData_continue_def Let_def case_prod_unfold Inr v
            rerender_same_deps setSettings_def)
  qed
  then show "timers (loadData st) = timers st"
    and "reminderInterval (loadData st) = reminderInterval st"
    and "pending (loadData st) = pending st"
    by simp_all
qed

lemma merge_settings_deps:
  assumes "p_reminder_enabled p = None" and "p_reminder_interval_minutes p = None"
  shows "reminder_deps (merge_settings s p) = reminder_deps s"
  using assms by (simp add: merge_settings_def reminder_deps_def)

text \<open>
  C10. A call of \<^verbatim>\<open>handleSaveSettings\<close> that sets neither \<open>reminder_enabled\<close> nor
  \<open>reminder_interval_minutes\<close> (so one that changes the goal, the sound, the theme or
  the autostart flag) leaves the scheduler alone: the live timers are the former ones,
  followed by the timer that hides the toast when the autostart toggle failed; the handle
  in \<^verbatim>\<open>reminderInterval\<close> and the suspended \<^verbatim>\<open>setupReminder\<close> calls are unchanged, so the
  effect has not run.
\<close>

theorem other_settings_leave_scheduler:
  assumes "p_reminder_enabled p = None" and "p_reminder_interval_minutes p = None"
  shows "filter recurring (timers (handleSaveSettings p st)) = filter recurring (timers st)
    \<and> filter (\<lambda>t. kind t \<noteq> Hide_toast) (timers (handleSaveSettings p st)) =
        filter (\<lambda>t. kind t \<noteq> Hide_toast) (timers st)
    \<and> reminderInterval (handleSaveSettings p st) = reminderInterval st
    \<and> pending (handleSaveSettings p st) = pending st
    \<and> reminder_deps (merge_settings (settings st) p) = reminder_deps (settings st)"
proof -
  define updated where "updated = merge_settings (settings st) p"
  have deps: "reminder_deps updated = reminder_deps (settings st)"
    unfolding updated_def by (rule merge_settings_deps[OF assms])
  define s2 where "s2 = (case p_theme p of
                  None \<Rightarrow> setSettings updated st
                | Some t \<Rightarrow> if t \<noteq> [] then (setSettings updated st)\<lparr>data_theme := Some t\<rparr>
                            else setSettings updated st)"
  define s3 where "s3 = (case p_start_with_system p of
                  None \<Rightarrow> s2
                | Some want \<Rightarrow>
                    (case fst (toggle_autostart want s2) of
                       Inl e \<Rightarrow> toggle_failed (snd (toggle_autostart want s2))
                     | Inr u \<Rightarrow> snd (toggle_autostart want s2)))"
  have s2: "timers s2 = timers st" "reminderInterval s2 = reminderInterval st"
    "pending s2 = pending st" "settings s2 = updated"
    by (simp_all add: s2_def setSettings_def split: option.splits)
  have s3: "filter recurring (timers s3) = filter recurring (timers st)"
    "filter (\<lambda>t. kind t \<noteq> Hide_toast) (timers s3) = filter (\<lambda>t. kind t \<noteq> Hide_toast) (timers st)"
    "reminderInterval s3 = reminderInterval st" "pending s3 = pending st" "settings s3 = updated"
    by (simp_all add: s3_def s2 toggle_autostart_def toggle_failed_def calls_if showToast_def
          setToast_def setTimer_def console_error_def log_call_def split: option.splits)
  have same: "\<And>s. settings s = updated \<Longrightarrow> rerender (settings st) s = s"
    using deps by (simp add: rerender_same_deps)
  have eq: "handleSaveSettings p st =
      (case save_settings updated s3 of
           (Inl e, s4) \<Rightarrow> console_error ''Failed to save settings:'' s4
         | (Inr u, s4) \<Rightarrow> loadData s4)"
  proof (cases "p_start_with_system p")
    case None
    have "rerender (settings st) (snd (save_settings updated s2)) = snd (save_settings updated s2)"
      by (rule same) (simp add: s2)
    then show ?thesis
      unfolding handleSaveSettings_def Let_def s3_def updated_def[symmetric] s2_def[symmetric]
      by (simp add: None case_prod_unfold cong: sum.case_cong)
  next
    case (Some want)
    have "rerender (settings st) (snd (toggle_autostart want s2)) = snd (toggle_autostart want s2)"
      by (rule same) (simp add: s2)
    then show ?thesis
      unfolding handleSaveSettings_def Let_def s3_def updated_def[symmetric] s2_def[symmetric]
      by (simp add: Some case_prod_unfold cong: sum.case_cong)
  qed
  let ?s4 = "(log_call (Save_settings updated) s3)\<lparr>db_settings := updated\<rparr>"
  have "reminder_deps (db_settings ?s4) = reminder_deps (settings ?s4)"
    by (simp add: s3 log_call_def)
  from loadData_same_deps[OF this]
  have "timers (loadData ?s4) = timers s3" "reminderInterval (loadData ?s4) = reminderInterval s3"
    "pending (loadData ?s4) = pending s3"
    by (simp_all add: log_call_def)
  then show ?thesis
    using s3 deps
    by (simp add: eq save_settings_if console_error_def log_call_def updated_def[symmetric])
qed

theorem other_settings_leave_scheduler_witness:
  "p_reminder_enabled (no_change\<lparr>p_theme := Some ''light'', p_daily_goal_ml := Some 3000\<rparr>) = None
   \<and> p_reminder_interval_minutes (no_change\<lparr>p_theme := Some ''light'', p_daily_goal_ml := Some 3000\<rparr>)
       = None
   \<and> filter recurring (timers (handleSaveSettings
         (no_change\<lparr>p_theme := Some ''light'', p_daily_goal_ml := Some 3000\<rparr>)
         (run [Mount, Answer_isPermissionGranted 0 True] fresh))) =
       [\<lparr>handle = 2, delay_ms = 3600000, recurring = True, kind = Reminder_interval defaultSettings\<rparr>]
   \<and> reminderInterval (handleSaveSettings
         (no_change\<lparr>p_theme := Some ''light'', p_daily_goal_ml := Some 3000\<rparr>)
         (run [Mount, Answer_isPermissionGranted 0 True] fresh)) = Some 2
   \<and> pending (handleSaveSettings
         (no_change\<lparr>p_theme := Some ''light'', p_daily_goal_ml := Some 3000\<rparr>)
         (run [Mount, Answer_isPermissionGranted 0 True] fresh)) = []"
proof -
  let ?st = "run [Mount, Answer_isPermissionGranted 0 True] fresh"
  let ?p = "no_change\<lparr>p_theme := Some ''light'', p_daily_goal_ml := Some 3000\<rparr>"
  have p: "p_reminder_enabled ?p = None" "p_reminder_interval_minutes ?p = None"
    by (simp_all add: no_change_def)
  have t: "filter recurring (timers ?st) =
       [\<lparr>handle = 2, delay_ms = 3600000, recurring = True, kind = Reminder_interval defaultSettings\<rparr>]"
    by code_simp
  have r: "reminderInterval ?st = Some 2" "pending ?st = []"
    by code_simp+
  from other_settings_leave_scheduler[OF p, of ?st] show ?thesis
    by (simp add: p t r del: run.simps)
qed

section \<open>Arming attempts, operation by operation\<close>

lemma ledger_upd [simp]:
  "ledger (st\<lparr>stats := a1\<rparr>) = ledger st"
  "ledger (st\<lparr>entries := a2\<rparr>) = ledger st"
  "ledger (st\<lparr>settings := a3\<rparr>) = ledger st"
  "ledger (st\<lparr>customAmount := a4\<rparr>) = ledger st"
  "ledger (st\<lparr>toast := a5\<rparr>) = ledger st"
  "ledger (st\<lparr>achievement := a6\<rparr>) = ledger st"
  "ledger (st\<lparr>reminderInterval := a7\<rparr>) = ledger st"
  "ledger (st\<lparr>achievementTimeout := c1\<rparr>) = ledger st"
  "ledger (st\<lparr>data_theme := a8\<rparr>) = ledger st"
  "ledger (st\<lparr>lifecycle := a9\<rparr>) = ledger st"
  "ledger (st\<lparr>timers := c3\<rparr>) = ledger st"
  "ledger (st\<lparr>next_handle := c2\<rparr>) = ledger st"
  "ledger (st\<lparr>sounds := b2\<rparr>) = ledger st"
  "ledger (st\<lparr>console := b3\<rparr>) = ledger st"
  "ledger (st\<lparr>db_entries := b5\<rparr>) = ledger st"
  "ledger (st\<lparr>db_settings := b6\<rparr>) = ledger st"
  "ledger (st\<lparr>db_next_id := b7\<rparr>) = ledger st"
  "ledger (st\<lparr>os_autostart := b8\<rparr>) = ledger st"
  by (simp_all add: ledger_def attempts_def requests_def reports_def waiting_def)

lemma ledger_log_call:
  "c \<noteq> Is_permission_granted \<Longrightarrow> c \<noteq> Request_permission \<Longrightarrow> ledger (log_call c st) = ledger st"
  by (simp add: ledger_def attempts_def requests_def reports_def waiting_def log_call_def)

lemma ledger_basic [simp]:
  "ledger (console_error m st) = ledger st"
  "ledger (playSound ty en st) = ledger st"
  "ledger (snd (setTimer ms again k st)) = ledger st"
  "ledger (clearTimer h st) = ledger st"
  "ledger (disarm st) = ledger st"
  "ledger (effect_cleanup st) = ledger st"
  "ledger (arm s st) = ledger st"
  "ledger (setSettings new st) = ledger st"
  by (simp_all add: console_error_def playSound_def setTimer_def clearTimer_def disarm_def
        effect_cleanup_def arm_unfold setSettings_def Let_def split: option.splits)

lemma ledger_setToast:
  "m \<noteq> Toast_permission_required \<or> \<not> sh \<Longrightarrow> ledger (setToast m sh st) = ledger st"
  by (auto simp: setToast_def ledger_def attempts_def requests_def reports_def waiting_def)

lemma ledger_showToast:
  "m \<noteq> Toast_permission_required \<Longrightarrow> ledger (showToast m st) = ledger st"
  by (simp add: showToast_def ledger_setToast)

lemma ledger_calls [simp]:
  "ledger (snd (load_reads st)) = ledger st"
  "ledger (snd (sync_autostart sv st)) = ledger st"
  "ledger (snd (add_water a st)) = ledger st"
  "ledger (snd (add_reads st)) = ledger st"
  "ledger (snd (remove_entry i st)) = ledger st"
  "ledger (snd (save_settings new st)) = ledger st"
  "ledger (snd (toggle_autostart want st)) = ledger st"
  "ledger (notify n f s st) = ledger st"
  by (simp_all add: load_reads_def sync_autostart_def add_reads_def toggle_autostart_def
        calls_if notify_if Let_def ledger_log_call)

lemma ledger_setupReminder_start [simp]: "ledger (setupReminder_start s st) = ledger st"
proof (cases "reminder_enabled s")
  case True
  then show ?thesis
    by (simp add: setupReminder_start_def ledger_def attempts_def requests_def reports_def
          waiting_def log_call_def)
next
  case False
  then show ?thesis by (simp add: setupReminder_start_def)
qed

lemma ledger_rerender [simp]: "ledger (rerender prev st) = ledger st"
  by (simp add: rerender_def)

lemma ledger_loadData_continue [simp]: "ledger (loadData_continue r st) = ledger st"
  by (simp add: loadData_continue_def Let_def case_prod_unfold split: sum.splits)

lemma ledger_loadData [simp]: "ledger (loadData st) = ledger st"
  by (simp add: loadData_def Let_def case_prod_unfold)

lemma ledger_mount: "ledger (mount st) = ledger st"
  by (simp add: mount_def Let_def case_prod_unfold)

lemma ledger_unmount: "ledger (unmount st) = ledger st"
  by (simp add: unmount_def)

lemma ledger_unlock_achievement [simp]: "ledger (unlock_achievement c st) = ledger st"
  by (simp add: unlock_achievement_unfold Let_def split: option.splits)

lemma ledger_handleAddWater: "ledger (handleAddWater c amount st) = ledger st"
  by (simp add: handleAddWater_def Let_def case_prod_unfold ledger_showToast split: sum.splits)

lemma ledger_handleRemoveEntry: "ledger (handleRemoveEntry c i st) = ledger st"
  by (simp add: handleRemoveEntry_def Let_def case_prod_unfold split: sum.splits)

lemma ledger_toggle_failed [simp]: "ledger (toggle_failed st) = ledger st"
  by (simp add: toggle_failed_def ledger_showToast)

lemma ledger_handleSaveSettings: "ledger (handleSaveSettings p st) = ledger st"
  by (simp add: handleSaveSettings_def Let_def case_prod_unfold split: sum.splits option.splits)

lemma ledger_fire: "ledger (fire h st) = ledger st"
  by (simp add: fire_def Let_def ledger_setToast split: option.splits timer_kind.splits)

lemma attempts_ok_ledger: "ledger s = ledger st \<Longrightarrow> attempts_ok s = attempts_ok st"
  by (auto simp: ledger_def attempts_ok_def)

lemma filter_remove_nth:
  assumes "k < length xs"
  shows "length (filter P (remove_nth k xs)) + (if P (xs ! k) then 1 else 0) = length (filter P xs)"
proof -
  have "xs = take k xs @ xs ! k # drop (Suc k) xs"
    using assms by (rule id_take_nth_drop)
  then have "filter P xs = filter P (take k xs) @ filter P [xs ! k] @ filter P (drop (Suc k) xs)"
    by (metis append_Cons append_Nil filter_append)
  then show ?thesis by (simp add: remove_nth_def)
qed

lemma waiting_remove_nth:
  assumes "k < length (pending st)"
  shows "waiting stg (st\<lparr>pending := remove_nth k (pending st)\<rparr>)
           + (if fst (pending st ! k) = stg then 1 else 0) = waiting stg st"
  using filter_remove_nth[OF assms, of "\<lambda>a. fst a = stg"] by (simp add: waiting_def)

lemma counts_upd [simp]:
  "attempts (st\<lparr>pending := ps\<rparr>) = attempts st"
  "requests (st\<lparr>pending := ps\<rparr>) = requests st"
  "reports (st\<lparr>pending := ps\<rparr>) = reports st"
  "waiting stg (st\<lparr>pending := ps\<rparr>) = length (filter (\<lambda>a. fst a = stg) ps)"
  by (simp_all add: attempts_def requests_def reports_def waiting_def)

lemma counts_arm [simp]:
  "attempts (arm s st) = attempts st" "requests (arm s st) = requests st"
  "reports (arm s st) = reports st" "waiting stg (arm s st) = waiting stg st"
  by (simp_all add: attempts_def requests_def reports_def waiting_def arm_unfold disarm_def
        clearTimer_def split: option.splits)

lemma attempts_ok_resolve_isPermissionGranted:
  assumes "attempts_ok st"
  shows "attempts_ok (resolve_isPermissionGranted k b st)"
proof (cases "k < length (pending st) \<and> fst (pending st ! k) = Await_isPermissionGranted")
  case False
  with assms show ?thesis by (auto simp: resolve_isPermissionGranted_def)
next
  case True
  let ?s = "st\<lparr>pending := remove_nth k (pending st)\<rparr>"
  have w1: "waiting Await_isPermissionGranted ?s + 1 = waiting Await_isPermissionGranted st"
    and w2: "waiting Await_requestPermission ?s = waiting Await_requestPermission st"
    using waiting_remove_nth[of k st Await_isPermissionGranted]
      waiting_remove_nth[of k st Await_requestPermission] True by simp_all
  have ok: "attempts_ok ?s"
    using assms w1 w2 by (simp add: attempts_ok_def)
  show ?thesis
  proof (cases b)
    case True
    with \<open>k < length (pending st) \<and> fst (pending st ! k) = Await_isPermissionGranted\<close> ok
    show ?thesis
      by (simp add: resolve_isPermissionGranted_def after_isPermissionGranted_def attempts_ok_def)
  next
    case False
    have "attempts_ok ((log_call Request_permission ?s)
            \<lparr>pending := pending ?s @ [(Await_requestPermission, snd (pending st ! k))]\<rparr>)"
      using assms w1 w2
      by (simp add: attempts_ok_def attempts_def requests_def reports_def waiting_def log_call_def)
    with False \<open>k < length (pending st) \<and> fst (pending st ! k) = Await_isPermissionGranted\<close>
    show ?thesis
      by (simp add: resolve_isPermissionGranted_def after_isPermissionGranted_def)
  qed
qed

lemma attempts_ok_resolve_requestPermission:
  assumes "attempts_ok st"
  shows "attempts_ok (resolve_requestPermission k perm st)"
proof (cases "k < length (pending st) \<and> fst (pending st ! k) = Await_requestPermission")
  case False
  with assms show ?thesis by (auto simp: resolve_requestPermission_def)
next
  case True
  let ?s = "st\<lparr>pending := remove_nth k (pending st)\<rparr>"
  have w1: "waiting Await_isPermissionGranted ?s = waiting Await_isPermissionGranted st"
    and w2: "waiting Await_requestPermission ?s + 1 = waiting Await_requestPermission st"
    using waiting_remove_nth[of k st Await_isPermissionGranted]
      waiting_remove_nth[of k st Await_requestPermission] True by simp_all
  have "attempts_ok ?s"
    using assms w1 w2 by (simp add: attempts_ok_def)
  moreover have "attempts_ok (permission_refused ?s)"
    using assms w1 w2
    by (simp add: attempts_ok_def attempts_def requests_def reports_def waiting_def
          permission_refused_def Let_def setToast_def setTimer_def console_error_def)
  ultimately show ?thesis
    using True
    by (simp add: resolve_requestPermission_def after_requestPermission_def Let_def attempts_ok_def)
qed

lemma attempts_ok_reject_permission:
  assumes "attempts_ok st"
  shows "attempts_ok (reject_permission k st)"
proof (cases "k < length (pending st)")
  case False
  with assms show ?thesis by (simp add: reject_permission_def)
next
  case True
  have "waiting Await_isPermissionGranted (st\<lparr>pending := remove_nth k (pending st)\<rparr>)
          \<le> waiting Await_isPermissionGranted st"
    "waiting Await_requestPermission (st\<lparr>pending := remove_nth k (pending st)\<rparr>)
          \<le> waiting Await_requestPermission st"
    using waiting_remove_nth[OF True, of Await_isPermissionGranted]
      waiting_remove_nth[OF True, of Await_requestPermission] by simp_all
  with assms True show ?thesis
    by (simp add: reject_permission_def attempts_ok_def)
qed

lemma attempts_ok_step: "attempts_ok st \<Longrightarrow> attempts_ok (step e st)"
  by (cases e)
     (simp_all add: attempts_ok_ledger[OF ledger_mount] attempts_ok_ledger[OF ledger_unmount]
        attempts_ok_ledger[OF ledger_handleAddWater] attempts_ok_ledger[OF ledger_handleRemoveEntry]
        attempts_ok_ledger[OF ledger_handleSaveSettings] attempts_ok_ledger[OF ledger_fire]
        attempts_ok_resolve_isPermissionGranted attempts_ok_resolve_requestPermission
        attempts_ok_reject_permission)

lemma attempts_ok_run: "attempts_ok st \<Longrightarrow> attempts_ok (run es st)"
  by (induction es arbitrary: st) (simp_all add: attempts_ok_step)

lemma attempts_ok_first: "first_rendered st \<Longrightarrow> attempts_ok st"
  by (simp add: first_rendered_def attempts_ok_def attempts_def requests_def reports_def
        waiting_def)

text \<open>When an attempt starts.\<close>

lemma settings_basic [simp]:
  "settings (log_call c st) = settings st"
  "settings (console_error m st) = settings st"
  "settings (playSound ty en st) = settings st"
  "settings (setToast tm sh st) = settings st"
  "settings (showToast tm st) = settings st"
  "settings (snd (setTimer ms again k st)) = settings st"
  "settings (clearTimer h st) = settings st"
  "settings (arm s st) = settings st"
  "settings (permission_refused st) = settings st"
  "settings (unlock_achievement cl st) = settings st"
  "settings (setupReminder_start s st) = settings st"
  by (simp_all add: log_call_def console_error_def playSound_def setToast_def showToast_def
        setTimer_def clearTimer_def arm_unfold permission_refused_def unlock_achievement_unfold
        setupReminder_start_def Let_def split: option.splits)

lemma settings_more_calls [simp]:
  "settings (snd (add_water a st)) = settings st"
  "settings (snd (add_reads st)) = settings st"
  "settings (snd (remove_entry i st)) = settings st"
  "settings (notify n f s st) = settings st"
  by (simp_all add: add_reads_def calls_if notify_if Let_def)

lemma settings_fire [simp]: "settings (fire h st) = settings st"
  by (simp add: fire_def Let_def split: option.splits timer_kind.splits)

lemma effect_calls_same [simp]: "reminder_deps new = reminder_deps prev \<Longrightarrow> effect_calls prev new = []"
  by (simp add: effect_calls_def)

lemma effect_calls_deps:
  "reminder_deps a = reminder_deps b \<Longrightarrow> effect_calls prev a = effect_calls prev b"
  by (auto simp: effect_calls_def reminder_deps_def)

lemma attempts_basic [simp]:
  "attempts (console_error m st) = attempts st"
  "attempts (playSound ty en st) = attempts st"
  "attempts (setToast tm sh st) = attempts st"
  "attempts (showToast tm st) = attempts st"
  "attempts (snd (setTimer ms again k st)) = attempts st"
  "attempts (clearTimer h st) = attempts st"
  "attempts (disarm st) = attempts st"
  "attempts (effect_cleanup st) = attempts st"
  "attempts (permission_refused st) = attempts st"
  "attempts (unlock_achievement cl st) = attempts st"
  "attempts (setSettings new st) = attempts st"
  "attempts (toggle_failed st) = attempts st"
  by (simp_all add: attempts_def)

lemma attempts_upd [simp]:
  "attempts (st\<lparr>stats := a1\<rparr>) = attempts st"
  "attempts (st\<lparr>entries := a2\<rparr>) = attempts st"
  "attempts (st\<lparr>customAmount := a4\<rparr>) = attempts st"
  "attempts (st\<lparr>data_theme := a8\<rparr>) = attempts st"
  "attempts (st\<lparr>lifecycle := a9\<rparr>) = attempts st"
  "attempts (st\<lparr>achievement := a6\<rparr>) = attempts st"
  by (simp_all add: attempts_def)

lemma attempts_calls [simp]:
  "attempts (snd (load_reads st)) = attempts st"
  "attempts (snd (sync_autostart sv st)) = attempts st"
  "attempts (snd (add_water a st)) = attempts st"
  "attempts (snd (add_reads st)) = attempts st"
  "attempts (snd (remove_entry i st)) = attempts st"
  "attempts (snd (save_settings new st)) = attempts st"
  "attempts (snd (toggle_autostart want st)) = attempts st"
  "attempts (notify n f s st) = attempts st"
  by (simp_all add: attempts_def load_reads_def sync_autostart_def add_reads_def
        toggle_autostart_def calls_if notify_if Let_def)

lemma attempts_fire [simp]: "attempts (fire h st) = attempts st"
  by (simp add: fire_def Let_def split: option.splits timer_kind.splits)

lemma attempts_rerender:
  "attempts (rerender prev st) = attempts st + length (effect_calls prev (settings st))"
  by (simp add: attempts_def trace_rerender effect_calls_def)

lemma attempts_setupReminder_start:
  "attempts (setupReminder_start s st) = attempts st + (if reminder_enabled s then 1 else 0)"
  by (simp add: attempts_def trace_setupReminder_start)

lemma attempts_loadData_continue:
  "attempts (loadData_continue r st) =
     attempts st + length (effect_calls (settings st) (settings (loadData_continue r st)))"
  by (simp add: loadData_continue_def Let_def case_prod_unfold attempts_rerender
        split: sum.splits)

lemma attempts_loadData:
  "attempts (loadData st) = attempts st + length (effect_calls (settings st) (settings (loadData st)))"
  using attempts_loadData_continue[of "fst (load_reads st)" "snd (load_reads st)"]
  by (simp add: loadData_def Let_def case_prod_unfold)

lemma attempts_mount:
  "attempts (mount st) =
     attempts st + (if reminder_enabled (settings st) then 1 else 0)
       + length (effect_calls (settings st) (settings (mount st)))"
  using attempts_loadData_continue[of "fst (load_reads (st\<lparr>lifecycle := Mounted\<rparr>))"
          "setupReminder_start (settings st) (snd (load_reads (st\<lparr>lifecycle := Mounted\<rparr>)))"]
  by (simp add: mount_def Let_def case_prod_unfold attempts_setupReminder_start)

lemma attempts_handleAddWater:
  "attempts (handleAddWater c amount st) =
     attempts st + length (effect_calls (settings st) (settings (handleAddWater c amount st)))"
  by (simp add: handleAddWater_def Let_def case_prod_unfold attempts_loadData split: sum.splits)

lemma attempts_handleRemoveEntry:
  "attempts (handleRemoveEntry c i st) =
     attempts st + length (effect_calls (settings st) (settings (handleRemoveEntry c i st)))"
  by (simp add: handleRemoveEntry_def Let_def case_prod_unfold attempts_loadData split: sum.splits)

lemma save_settings_ok [simp]:
  "fst (save_settings new st) = Inr u \<Longrightarrow> db_settings (snd (save_settings new st)) = new"
  by (simp add: save_settings_if split: if_splits)

lemma loadData_settings:
  "settings (loadData st) = settings st
   \<or> reminder_deps (settings (loadData st)) = reminder_deps (db_settings st)"
proof (cases "fst (load_reads st)")
  case (Inl e)
  then show ?thesis
    by (simp add: loadData_def loadData_continue_def Let_def case_prod_unfold)
next
  case (Inr v)
  obtain a b sv where v: "v = (a, b, sv)" by (cases v) auto
  from load_reads_settings[OF Inr[unfolded v]] have sv: "sv = db_settings st" .
  then show ?thesis
    by (simp add: loadData_def loadData_continue_def Let_def case_prod_unfold Inr v)
qed

lemma loadData_keeps_deps:
  "reminder_deps (db_settings st) = reminder_deps (settings st) \<Longrightarrow>
   reminder_deps (settings (loadData st)) = reminder_deps (settings st)"
  using loadData_settings[of st] by auto

lemma handleSaveSettings_deps:
  "reminder_deps (settings (handleSaveSettings p st)) = reminder_deps (merge_settings (settings st) p)"
  by (simp add: handleSaveSettings_def Let_def case_prod_unfold loadData_keeps_deps
        split: sum.splits option.splits)

lemma attempts_handleSaveSettings:
  "attempts (handleSaveSettings p st) =
     attempts st + length (effect_calls (settings st) (settings (handleSaveSettings p st)))"
proof -
  have "attempts (handleSaveSettings p st) =
     attempts st + length (effect_calls (settings st) (merge_settings (settings st) p))"
    by (simp add: handleSaveSettings_def Let_def case_prod_unfold attempts_rerender
          attempts_loadData loadData_keeps_deps split: sum.splits option.splits)
  with effect_calls_deps[OF handleSaveSettings_deps] show ?thesis by simp
qed

lemma attempts_step:
  "attempts (step e st) =
     attempts st
       + (if e = Mount \<and> lifecycle st = Rendered \<and> reminder_enabled (settings st) then 1 else 0)
       + length (effect_calls (settings st) (settings (step e st)))"
proof (cases e)
  case Mount
  then show ?thesis using attempts_mount[of st] by simp
next
  case Unmount
  then show ?thesis by (simp add: unmount_def)
next
  case (Click_add a)
  then show ?thesis using attempts_handleAddWater[of "current_render st" a st] by simp
next
  case (Tray_quick_add a)
  then show ?thesis using attempts_handleAddWater[of first_render a st] by simp
next
  case (Click_remove i)
  then show ?thesis using attempts_handleRemoveEntry[of "current_render st" i st] by simp
next
  case (Change_setting p)
  then show ?thesis using attempts_handleSaveSettings[of p st] by simp
next
  case (Answer_isPermissionGranted k b)
  then show ?thesis
    by (simp add: resolve_isPermissionGranted_def after_isPermissionGranted_def attempts_def)
next
  case (Answer_requestPermission k perm)
  then show ?thesis
    by (simp add: resolve_requestPermission_def after_requestPermission_def Let_def)
next
  case (Reject_permission_query k)
  then show ?thesis by (simp add: reject_permission_def)
next
  case (Fire h)
  then show ?thesis by simp
qed

section \<open>Notification permission and arming\<close>

lemma arm_makes_interval:
  "\<lparr>handle = Suc (next_handle st), delay_ms = reminder_interval_minutes s * 60 * 1000,
    recurring = True, kind = Reminder_interval s\<rparr> \<in> set (timers (arm s st))"
  by (simp add: arm_unfold)

lemma reminder_timers_permission_refused:
  "reminder_timers (timers (permission_refused st)) = reminder_timers (timers st)"
  by (simp add: permission_refused_def Let_def setTimer_def setToast_def console_error_def
        reminder_timers_def)

lemma fire_keeps_pending: "pending (fire h st) = pending st"
  by (simp add: fire_def Let_def notify_if clearTimer_def setToast_def console_error_def
        playSound_def log_call_def split: option.splits timer_kind.splits)

lemma ledger_counts:
  "ledger s = ledger st \<Longrightarrow> requests s = requests st \<and> reports s = reports st"
  by (simp add: ledger_def)

lemma requests_step:
  assumes "\<forall>j. e \<noteq> Answer_isPermissionGranted j False"
  shows "requests (step e st) = requests st"
proof (cases e)
  case (Answer_isPermissionGranted k b)
  with assms have "b" by auto
  with Answer_isPermissionGranted show ?thesis
    by (simp add: resolve_isPermissionGranted_def after_isPermissionGranted_def)
next
  case (Answer_requestPermission k perm)
  then show ?thesis
    by (simp add: resolve_requestPermission_def after_requestPermission_def Let_def)
       (simp add: requests_def)
next
  case (Reject_permission_query k)
  then show ?thesis by (simp add: reject_permission_def)
qed (simp_all add: ledger_counts[OF ledger_mount] ledger_counts[OF ledger_unmount]
       ledger_counts[OF ledger_handleAddWater] ledger_counts[OF ledger_handleRemoveEntry]
       ledger_counts[OF ledger_handleSaveSettings] ledger_counts[OF ledger_fire])

lemma reports_step:
  assumes "\<forall>j q. e \<noteq> Answer_requestPermission j q"
  shows "reports (step e st) = reports st"
proof (cases e)
  case (Answer_isPermissionGranted k b)
  then show ?thesis
    by (simp add: resolve_isPermissionGranted_def after_isPermissionGranted_def)
       (simp add: reports_def log_call_def)
next
  case (Answer_requestPermission k perm)
  with assms show ?thesis by auto
next
  case (Reject_permission_query k)
  then show ?thesis by (simp add: reject_permission_def)
qed (simp_all add: ledger_counts[OF ledger_mount] ledger_counts[OF ledger_unmount]
       ledger_counts[OF ledger_handleAddWater] ledger_counts[OF ledger_handleRemoveEntry]
       ledger_counts[OF ledger_handleSaveSettings] ledger_counts[OF ledger_fire])

text \<open>
  C5 as the specification states it does not hold: the condition can be reported more
  than once, and an attempt can follow a denial without the user touching the reminder
  setting. Over \<open>half_hour_store\<close> the mount alone starts two attempts, one by the effect
  of the first render and one by the render after the load has brought the persisted
  interval; both are refused, and the user, who has done nothing, is asked twice and
  shown the toast twice. Over \<open>first_load_fails\<close> the first load fails, the one attempt
  is refused and reported; adding water then reloads the settings, the interval in memory
  changes, and a second attempt asks and reports again.
\<close>

theorem permission_retry_counterexample:
  "first_rendered half_hour_store
   \<and> attempts (run [Mount] half_hour_store) = 2
   \<and> requests (run [Mount, Answer_isPermissionGranted 0 False, Answer_isPermissionGranted 0 False,
                     Answer_requestPermission 0 Denied, Answer_requestPermission 0 Denied]
                 half_hour_store) = 2
   \<and> toast_log (run [Mount, Answer_isPermissionGranted 0 False, Answer_isPermissionGranted 0 False,
                      Answer_requestPermission 0 Denied, Answer_requestPermission 0 Denied]
                  half_hour_store) = [Toast_permission_required, Toast_permission_required]
   \<and> timers (run [Mount, Answer_isPermissionGranted 0 False, Answer_requestPermission 0 Denied,
                   Fire 1] first_load_fails) = []
   \<and> pending (run [Mount, Answer_isPermissionGranted 0 False, Answer_requestPermission 0 Denied,
                    Fire 1] first_load_fails) = []
   \<and> toast_log (run [Mount, Answer_isPermissionGranted 0 False, Answer_requestPermission 0 Denied,
                      Fire 1] first_load_fails) = [Toast_permission_required]
   \<and> toast_log (run [Mount, Answer_isPermissionGranted 0 False, Answer_requestPermission 0 Denied,
                      Fire 1, Click_add 250, Answer_isPermissionGranted 0 False,
                      Answer_requestPermission 0 Denied] first_load_fails) =
       [Toast_permission_required, Toast_added 250, Toast_permission_required]
   \<and> requests (run [Mount, Answer_isPermissionGranted 0 False, Answer_requestPermission 0 Denied,
                     Fire 1, Click_add 250, Answer_isPermissionGranted 0 False,
                     Answer_requestPermission 0 Denied] first_load_fails) = 2"
  by code_simp

text \<open>
  C5, as the code has it. An arming attempt is a run of \<^verbatim>\<open>setupReminder\<close> with reminders
  enabled; it starts with the query \<^verbatim>\<open>isPermissionGranted\<close>. An event starts an attempt
  exactly in these cases: the mount starts one (the first render has reminders enabled),
  and every event after which \<open>reminder_enabled\<close> or \<open>reminder_interval_minutes\<close> in
  memory differs from before, with reminders enabled, starts one; this covers a change
  of the setting by the user and a load that brings other persisted values, at mount or
  after adding or removing water. A timer, an answer, a teardown start none.

  A timer of the scheduler (the recurring timer or the confirmation one-shot) comes
  into being only in the step in which an attempt receives the answer that permission
  is granted, from \<^verbatim>\<open>isPermissionGranted\<close> or from \<^verbatim>\<open>requestPermission\<close>. An attempt that
  learns from \<^verbatim>\<open>isPermissionGranted\<close> that permission is not granted issues
  \<^verbatim>\<open>requestPermission\<close> once and waits, creating no timer; one that learns it is granted
  issues no request and arms. An attempt whose request is answered by anything but
  \<open>Granted\<close> issues no further call, creates no timer of the scheduler, leaves
  \<^verbatim>\<open>reminderInterval\<close> alone, shows the toast once, and is over. No other step issues a
  request or shows that toast, so in every state reached from the first render the
  requests are at most the attempts that have had their first answer, and the reports at
  most the requests that have been answered: one request and one report per attempt at
  most, and no attempt is repeated by itself.
\<close>

theorem permission_gates_arming:
  assumes "first_rendered st0"
  shows "requests (run es st0) + waiting Await_isPermissionGranted (run es st0)
       \<le> attempts (run es st0)
   \<and> reports (run es st0) + waiting Await_requestPermission (run es st0) \<le> requests (run es st0)
   \<and> attempts (step e st) =
        attempts st
          + (if e = Mount \<and> lifecycle st = Rendered \<and> reminder_enabled (settings st) then 1 else 0)
          + length (effect_calls (settings st) (settings (step e st)))
   \<and> ((\<forall>j. e \<noteq> Answer_isPermissionGranted j False) \<longrightarrow> requests (step e st) = requests st)
   \<and> ((\<forall>j q. e \<noteq> Answer_requestPermission j q) \<longrightarrow> reports (step e st) = reports st)
   \<and> ((\<forall>j. e \<noteq> Answer_isPermissionGranted j True) \<and> (\<forall>j. e \<noteq> Answer_requestPermission j Granted)
      \<longrightarrow> set (reminder_timers (timers (step e st))) \<subseteq> set (reminder_timers (timers st)))
   \<and> (k < length (pending st) \<and> pending st ! k = (Await_isPermissionGranted, s) \<longrightarrow>
        trace (step (Answer_isPermissionGranted k False) st) = trace st @ [Request_permission]
        \<and> pending (step (Answer_isPermissionGranted k False) st) =
            remove_nth k (pending st) @ [(Await_requestPermission, s)]
        \<and> timers (step (Answer_isPermissionGranted k False) st) = timers st
        \<and> toast_log (step (Answer_isPermissionGranted k False) st) = toast_log st
        \<and> trace (step (Answer_isPermissionGranted k True) st) = trace st
        \<and> \<lparr>handle = Suc (next_handle st), delay_ms = reminder_interval_minutes s * 60 * 1000,
            recurring = True, kind = Reminder_interval s\<rparr>
             \<in> set (timers (step (Answer_isPermissionGranted k True) st)))
   \<and> (k < length (pending st) \<and> pending st ! k = (Await_requestPermission, s) \<longrightarrow>
        (perm \<noteq> Granted \<longrightarrow>
           trace (step (Answer_requestPermission k perm) st) = trace st
           \<and> toast_log (step (Answer_requestPermission k perm) st) =
               toast_log st @ [Toast_permission_required]
           \<and> toast (step (Answer_requestPermission k perm) st) = (Toast_permission_required, True)
           \<and> reminder_timers (timers (step (Answer_requestPermission k perm) st)) =
               reminder_timers (timers st)
           \<and> reminderInterval (step (Answer_requestPermission k perm) st) = reminderInterval st
           \<and> pending (step (Answer_requestPermission k perm) st) = remove_nth k (pending st))
        \<and> trace (step (Answer_requestPermission k Granted) st) = trace st
        \<and> \<lparr>handle = Suc (next_handle st), delay_ms = reminder_interval_minutes s * 60 * 1000,
            recurring = True, kind = Reminder_interval s\<rparr>
             \<in> set (timers (step (Answer_requestPermission k Granted) st)))
   \<and> pending (step (Fire h) st) = pending st"
proof -
  have counts: "requests (run es st0) + waiting Await_isPermissionGranted (run es st0)
       \<le> attempts (run es st0)"
    "reports (run es st0) + waiting Await_requestPermission (run es st0) \<le> requests (run es st0)"
    using attempts_ok_run[OF attempts_ok_first[OF assms], of es]
    by (simp_all add: attempts_ok_def)
  have only: "set (reminder_timers (timers (step e st))) \<subseteq> set (reminder_timers (timers st))"
    if "\<forall>j. e \<noteq> Answer_isPermissionGranted j True" "\<forall>j. e \<noteq> Answer_requestPermission j Granted"
  proof -
    have "no_new_reminders (set (reminder_timers (timers st))) st"
      by (simp add: no_new_reminders_def)
    from no_new_reminders_step[OF this that] show ?thesis
      by (simp add: no_new_reminders_def)
  qed
  have first: "trace (step (Answer_isPermissionGranted k False) st) = trace st @ [Request_permission]
        \<and> pending (step (Answer_isPermissionGranted k False) st) =
            remove_nth k (pending st) @ [(Await_requestPermission, s)]
        \<and> timers (step (Answer_isPermissionGranted k False) st) = timers st
        \<and> toast_log (step (Answer_isPermissionGranted k False) st) = toast_log st
        \<and> trace (step (Answer_isPermissionGranted k True) st) = trace st
        \<and> \<lparr>handle = Suc (next_handle st), delay_ms = reminder_interval_minutes s * 60 * 1000,
            recurring = True, kind = Reminder_interval s\<rparr>
             \<in> set (timers (step (Answer_isPermissionGranted k True) st))"
    if "k < length (pending st)" "pending st ! k = (Await_isPermissionGranted, s)"
    using that arm_makes_interval[of "st\<lparr>pending := remove_nth k (pending st)\<rparr>" s]
    by (simp add: resolve_isPermissionGranted_def after_isPermissionGranted_def log_call_def)
  have second: "(perm \<noteq> Granted \<longrightarrow>
           trace (step (Answer_requestPermission k perm) st) = trace st
           \<and> toast_log (step (Answer_requestPermission k perm) st) =
               toast_log st @ [Toast_permission_required]
           \<and> toast (step (Answer_requestPermission k perm) st) = (Toast_permission_required, True)
           \<and> reminder_timers (timers (step (Answer_requestPermission k perm) st)) =
               reminder_timers (timers st)
           \<and> reminderInterval (step (Answer_requestPermission k perm) st) = reminderInterval st
           \<and> pending (step (Answer_requestPermission k perm) st) = remove_nth k (pending st))
        \<and> trace (step (Answer_requestPermission k Granted) st) = trace st
        \<and> \<lparr>handle = Suc (next_handle st), delay_ms = reminder_interval_minutes s * 60 * 1000,
            recurring = True, kind = Reminder_interval s\<rparr>
             \<in> set (timers (step (Answer_requestPermission k Granted) st))"
    if "k < length (pending st)" "pending st ! k = (Await_requestPermission, s)"
    using that arm_makes_interval[of "st\<lparr>pending := remove_nth k (pending st)\<rparr>" s]
      reminder_timers_permission_refused[of "st\<lparr>pending := remove_nth k (pending st)\<rparr>"]
    by (simp add: resolve_requestPermission_def after_requestPermission_def)
       (simp add: permission_refused_def Let_def setTimer_def setToast_def console_error_def)
  show ?thesis
    using counts attempts_step[of e st] requests_step[of e st] reports_step[of e st]
      only first second fire_keeps_pending[of h st]
    by simp
qed

theorem permission_gates_arming_witness:
  "first_rendered half_hour_store
   \<and> attempts (run [Mount] half_hour_store) = 2
   \<and> requests (run [Mount, Answer_isPermissionGranted 0 False] half_hour_store) + 1 \<le> 2
   \<and> attempts (step (Change_setting stop_reminders) (run [Mount] half_hour_store)) = 2
   \<and> attempts (step (Fire 2) (run [Mount] half_hour_store)) = 2
   \<and> requests (step (Click_add 250) (run [Mount] half_hour_store)) = 0
   \<and> reports (step (Click_add 250) (run [Mount] half_hour_store)) = 0
   \<and> pending (run [Mount] fresh) ! 0 = (Await_isPermissionGranted, defaultSettings)
   \<and> trace (step (Answer_isPermissionGranted 0 False) (run [Mount] fresh)) =
       trace (run [Mount] fresh) @ [Request_permission]
   \<and> timers (step (Answer_isPermissionGranted 0 False) (run [Mount] fresh)) = []
   \<and> pending (run [Mount, Answer_isPermissionGranted 0 False] fresh) ! 0 =
       (Await_requestPermission, defaultSettings)
   \<and> toast_log (step (Answer_requestPermission 0 Denied)
                   (run [Mount, Answer_isPermissionGranted 0 False] fresh)) =
       [Toast_permission_required]
   \<and> reminder_timers (timers (step (Answer_requestPermission 0 Denied)
                   (run [Mount, Answer_isPermissionGranted 0 False] fresh))) = []
   \<and> pending (step (Answer_requestPermission 0 Denied)
                   (run [Mount, Answer_isPermissionGranted 0 False] fresh)) = []
   \<and> \<lparr>handle = 2, delay_ms = 3600000, recurring = True, kind = Reminder_interval defaultSettings\<rparr>
        \<in> set (timers (step (Answer_requestPermission 0 Granted)
                   (run [Mount, Answer_isPermissionGranted 0 False] fresh)))
   \<and> set (reminder_timers (timers (step (Click_add 250) (run [Mount] fresh)))) \<subseteq> {}"
proof -
  let ?a = "run [Mount] fresh"
  let ?b = "run [Mount, Answer_isPermissionGranted 0 False] fresh"
  let ?c = "run [Mount] half_hour_store"
  let ?d = "run [Mount, Answer_isPermissionGranted 0 False] half_hour_store"
  have f: "first_rendered half_hour_store"
    by (simp add: first_rendered_def half_hour_store_def fresh_def)
  have a: "pending ?a = [(Await_isPermissionGranted, defaultSettings)]" "timers ?a = []"
    by code_simp+
  have b: "pending ?b = [(Await_requestPermission, defaultSettings)]" "timers ?b = []"
    "toast_log ?b = []" "Suc (next_handle ?b) = 2"
    by code_simp+
  have c: "attempts ?c = 2" "requests ?c = 0" "reports ?c = 0"
    "effect_calls (settings ?c) (settings (step (Change_setting stop_reminders) ?c)) = []"
    "effect_calls (settings ?c) (settings (step (Fire 2) ?c)) = []"
    by code_simp+
  have d: "attempts ?d = 2" "waiting Await_isPermissionGranted ?d = 1"
    by code_simp+
  have r: "remove_nth 0 [(Await_requestPermission, defaultSettings)] = []"
    by (simp add: remove_nth_def)
  have i: "reminder_interval_minutes defaultSettings * 60 * 1000 = 3600000"
    by (simp add: defaultSettings_def)
  from permission_gates_arming[OF f, of "[Mount, Answer_isPermissionGranted 0 False]"
         "Click_add 250" ?a 0 defaultSettings Denied 0]
       permission_gates_arming[OF f, of "[]" "Fire 0" ?b 0 defaultSettings Denied 0]
       permission_gates_arming[OF f, of "[]" "Change_setting stop_reminders" ?c 0 defaultSettings
         Denied 0]
       permission_gates_arming[OF f, of "[]" "Fire 2" ?c 0 defaultSettings Denied 0]
       permission_gates_arming[OF f, of "[]" "Click_add 250" ?c 0 defaultSettings Denied 0]
  show ?thesis
    by (simp add: f a b c d r i reminder_timers_def del: run.simps step.simps)
qed

section \<open>With no call suspended and no recurring timer\<close>

lemma quiet_upd [simp]:
  "quiet (st\<lparr>stats := a1\<rparr>) = quiet st"
  "quiet (st\<lparr>entries := a2\<rparr>) = quiet st"
  "quiet (st\<lparr>settings := a3\<rparr>) = quiet st"
  "quiet (st\<lparr>customAmount := a4\<rparr>) = quiet st"
  "quiet (st\<lparr>toast := a5\<rparr>) = quiet st"
  "quiet (st\<lparr>achievement := a6\<rparr>) = quiet st"
  "quiet (st\<lparr>reminderInterval := a7\<rparr>) = quiet st"
  "quiet (st\<lparr>achievementTimeout := c1\<rparr>) = quiet st"
  "quiet (st\<lparr>data_theme := a8\<rparr>) = quiet st"
  "quiet (st\<lparr>lifecycle := a9\<rparr>) = quiet st"
  "quiet (st\<lparr>next_handle := c2\<rparr>) = quiet st"
  "quiet (st\<lparr>sounds := b2\<rparr>) = quiet st"
  "quiet (st\<lparr>console := b3\<rparr>) = quiet st"
  "quiet (st\<lparr>toast_log := b4\<rparr>) = quiet st"
  "quiet (st\<lparr>db_entries := b5\<rparr>) = quiet st"
  "quiet (st\<lparr>db_settings := b6\<rparr>) = quiet st"
  "quiet (st\<lparr>db_next_id := b7\<rparr>) = quiet st"
  "quiet (st\<lparr>os_autostart := b8\<rparr>) = quiet st"
  "quiet (st\<lparr>trace := b9\<rparr>) = quiet st"
  by (simp_all add: quiet_def)

lemma quiet_basic [simp]:
  "quiet (log_call c st) = quiet st"
  "quiet (console_error m st) = quiet st"
  "quiet (playSound ty en st) = quiet st"
  "quiet (setToast tm sh st) = quiet st"
  "quiet (setSettings new st) = quiet st"
  by (simp_all add: log_call_def console_error_def playSound_def setToast_def setSettings_def)

lemma quiet_clearTimer: "quiet st \<Longrightarrow> quiet (clearTimer h st)"
  by (auto simp: quiet_def clearTimer_def filter_empty_conv)

lemma quiet_setTimer: "quiet st \<Longrightarrow> quiet (snd (setTimer ms False k st))"
  by (simp add: quiet_def setTimer_def)

lemma quiet_showToast: "quiet st \<Longrightarrow> quiet (showToast m st)"
  by (simp add: showToast_def quiet_setTimer)

lemma quiet_disarm: "quiet st \<Longrightarrow> quiet (disarm st)"
  by (simp add: disarm_def quiet_clearTimer split: option.splits)

lemma quiet_effect_cleanup: "quiet st \<Longrightarrow> quiet (effect_cleanup st)"
  by (simp add: effect_cleanup_def Let_def quiet_clearTimer split: option.splits)

lemma quiet_calls [simp]:
  "quiet (snd (load_reads st)) = quiet st"
  "quiet (snd (sync_autostart sv st)) = quiet st"
  "quiet (snd (add_water a st)) = quiet st"
  "quiet (snd (add_reads st)) = quiet st"
  "quiet (snd (remove_entry i st)) = quiet st"
  "quiet (snd (save_settings new st)) = quiet st"
  "quiet (snd (toggle_autostart want st)) = quiet st"
  "quiet (notify n f s st) = quiet st"
  by (simp_all add: load_reads_def sync_autostart_def add_reads_def toggle_autostart_def
        calls_if notify_if Let_def)

lemma quiet_rerender:
  "quiet st \<Longrightarrow> \<not> reminder_enabled (settings st) \<Longrightarrow> quiet (rerender prev st)"
  by (simp add: rerender_def setupReminder_start_def quiet_disarm quiet_effect_cleanup)

lemma quiet_loadData_continue:
  assumes "quiet st" and "\<not> reminder_enabled (settings (loadData_continue r st))"
  shows "quiet (loadData_continue r st)"
proof (cases r)
  case (Inl e)
  with assms(1) show ?thesis by (simp add: loadData_continue_def)
next
  case (Inr v)
  obtain a b sv where v: "v = (a, b, sv)" by (cases v) auto
  let ?s4 = "(setSettings (fst (sync_autostart sv (st\<lparr>stats := Some a, entries := b\<rparr>)))
               (snd (sync_autostart sv (st\<lparr>stats := Some a, entries := b\<rparr>))))
             \<lparr>data_theme := Some (theme (fst (sync_autostart sv (st\<lparr>stats := Some a, entries := b\<rparr>))))\<rparr>"
  have eq: "loadData_continue r st = rerender (settings st) ?s4"
    by (simp add: loadData_continue_def Inr v Let_def case_prod_unfold)
  have "quiet ?s4" using assms(1) by simp
  moreover have "\<not> reminder_enabled (settings ?s4)" using assms(2) by (simp add: eq)
  ultimately show ?thesis unfolding eq by (rule quiet_rerender)
qed

lemma quiet_loadData:
  "quiet st \<Longrightarrow> \<not> reminder_enabled (settings (loadData st)) \<Longrightarrow> quiet (loadData st)"
  using quiet_loadData_continue[of "snd (load_reads st)" "fst (load_reads st)"]
  by (simp add: loadData_def Let_def case_prod_unfold)

lemma quiet_mount:
  assumes "quiet st" and "\<not> reminder_enabled (settings st)"
    and "\<not> reminder_enabled (settings (mount st))"
  shows "quiet (mount st)"
proof -
  let ?s1 = "snd (load_reads (st\<lparr>lifecycle := Mounted\<rparr>))"
  have eq: "mount st = loadData_continue (fst (load_reads (st\<lparr>lifecycle := Mounted\<rparr>)))
                         (setupReminder_start (settings st) ?s1)"
    by (simp add: mount_def Let_def case_prod_unfold)
  have "quiet (setupReminder_start (settings st) ?s1)"
    using assms(1,2) by (simp add: setupReminder_start_def quiet_disarm)
  from quiet_loadData_continue[OF this] assms(3) show ?thesis by (simp add: eq)
qed

lemma quiet_unmount: "quiet st \<Longrightarrow> quiet (unmount st)"
  by (simp add: unmount_def quiet_effect_cleanup)

lemma quiet_unlock_achievement: "quiet st \<Longrightarrow> quiet (unlock_achievement c st)"
  by (simp add: unlock_achievement_def Let_def case_prod_unfold quiet_setTimer quiet_clearTimer
        split: option.splits)

lemma quiet_handleAddWater:
  assumes "quiet st" and "\<not> reminder_enabled (settings (handleAddWater c amount st))"
  shows "quiet (handleAddWater c amount st)"
proof (cases "amount \<le> 0")
  case True
  with assms(1) show ?thesis by (simp add: handleAddWater_def)
next
  case False
  define s0 where "s0 = playSound Snd_add (sound_enabled (c_settings c)) st"
  show ?thesis
  proof (cases "fst (add_water amount s0)")
    case (Inl e)
    with False assms(1) show ?thesis
      by (simp add: handleAddWater_def Let_def case_prod_unfold s0_def)
  next
    case ok: (Inr u)
    show ?thesis
    proof (cases "fst (add_reads (snd (add_water amount s0)))")
      case (Inl e)
      with False ok assms(1) show ?thesis
        by (simp add: handleAddWater_def Let_def case_prod_unfold s0_def)
    next
      case (Inr updatedStats)
      define s3 where "s3 = (if \<not> c_achievement_show c \<and> percentage updatedStats \<ge> 100
                                   \<and> (case c_stats c of None \<Rightarrow> False
                                       | Some previous \<Rightarrow> percentage previous < 100)
                             then unlock_achievement c (snd (add_reads (snd (add_water amount s0))))
                             else snd (add_reads (snd (add_water amount s0))))"
      have eq: "handleAddWater c amount st =
                  (showToast (Toast_added amount) (loadData s3))\<lparr>customAmount := []\<rparr>"
        using False ok Inr
        by (simp add: handleAddWater_def Let_def case_prod_unfold s0_def[symmetric] s3_def)
      have "quiet s3"
        using assms(1) by (simp add: s3_def s0_def quiet_unlock_achievement)
      moreover have "\<not> reminder_enabled (settings (loadData s3))"
        using assms(2) by (simp add: eq)
      ultimately show ?thesis
        by (simp add: eq quiet_showToast quiet_loadData)
    qed
  qed
qed

lemma quiet_handleRemoveEntry:
  assumes "quiet st" and "\<not> reminder_enabled (settings (handleRemoveEntry c i st))"
  shows "quiet (handleRemoveEntry c i st)"
  using assms
  by (simp add: handleRemoveEntry_def Let_def case_prod_unfold quiet_loadData
        split: sum.splits if_splits)

lemma deps_enabled: "reminder_deps a = reminder_deps b \<Longrightarrow> reminder_enabled a = reminder_enabled b"
  by (simp add: reminder_deps_def)

lemma quiet_toggle_failed: "quiet st \<Longrightarrow> quiet (toggle_failed st)"
  by (simp add: toggle_failed_def quiet_showToast)

lemma quiet_handleSaveSettings:
  assumes "quiet st" and "\<not> reminder_enabled (settings (handleSaveSettings p st))"
  shows "quiet (handleSaveSettings p st)"
proof -
  define updated where "updated = merge_settings (settings st) p"
  have off: "\<not> reminder_enabled updated"
    using assms(2) deps_enabled[OF handleSaveSettings_deps[of p st]] by (simp add: updated_def)
  define s2 where "s2 = (case p_theme p of
                  None \<Rightarrow> setSettings updated st
                | Some t \<Rightarrow> if t \<noteq> [] then (setSettings updated st)\<lparr>data_theme := Some t\<rparr>
                            else setSettings updated st)"
  have s2: "quiet s2" "settings s2 = updated"
    using assms(1) by (simp_all add: s2_def split: option.splits)
  have rr: "\<And>s. quiet s \<Longrightarrow> settings s = updated \<Longrightarrow> quiet (rerender (settings st) s)"
    using off by (simp add: quiet_rerender)
  have ld: "quiet (loadData s)"
    if "quiet s" "settings s = updated" "db_settings s = updated" for s
  proof -
    have "reminder_deps (settings (loadData s)) = reminder_deps (settings s)"
      by (rule loadData_keeps_deps) (simp add: that)
    from deps_enabled[OF this] off that(2) have "\<not> reminder_enabled (settings (loadData s))"
      by simp
    with that(1) show ?thesis by (rule quiet_loadData)
  qed
  show ?thesis
  proof (cases "p_start_with_system p")
    case None
    have eq: "handleSaveSettings p st =
        (case fst (save_settings updated s2) of
           Inl e \<Rightarrow> console_error ''Failed to save settings:''
                      (rerender (settings st) (snd (save_settings updated s2)))
         | Inr u \<Rightarrow> loadData (rerender (settings st) (snd (save_settings updated s2))))"
      unfolding handleSaveSettings_def Let_def s2_def updated_def
      by (simp add: None case_prod_unfold)
    have q: "quiet (rerender (settings st) (snd (save_settings updated s2)))"
      by (rule rr) (simp_all add: s2)
    show ?thesis
    proof (cases "fst (save_settings updated s2)")
      case (Inl e)
      with q show ?thesis by (simp add: eq)
    next
      case (Inr u)
      have "quiet (loadData (rerender (settings st) (snd (save_settings updated s2))))"
        using q Inr by (intro ld) (simp_all add: s2)
      with Inr show ?thesis by (simp add: eq)
    qed
  next
    case (Some want)
    define s5 where "s5 = (case fst (toggle_autostart want s2) of
                             Inl e \<Rightarrow> toggle_failed (rerender (settings st) (snd (toggle_autostart want s2)))
                           | Inr u \<Rightarrow> rerender (settings st) (snd (toggle_autostart want s2)))"
    have eq: "handleSaveSettings p st =
        (case fst (save_settings updated s5) of
           Inl e \<Rightarrow> console_error ''Failed to save settings:'' (snd (save_settings updated s5))
         | Inr u \<Rightarrow> loadData (snd (save_settings updated s5)))"
      unfolding handleSaveSettings_def Let_def s5_def s2_def updated_def
      by (simp add: Some case_prod_unfold)
    have "quiet (rerender (settings st) (snd (toggle_autostart want s2)))"
      by (rule rr) (simp_all add: s2)
    then have s5: "quiet s5" "settings s5 = updated"
      by (simp_all add: s5_def s2 quiet_toggle_failed split: sum.splits)
    show ?thesis
    proof (cases "fst (save_settings updated s5)")
      case (Inl e)
      with s5 show ?thesis by (simp add: eq)
    next
      case (Inr u)
      have "quiet (loadData (snd (save_settings updated s5)))"
        using s5 Inr by (intro ld) simp_all
      with Inr show ?thesis by (simp add: eq)
    qed
  qed
qed

lemma quiet_fire: "quiet st \<Longrightarrow> quiet (fire h st)"
  by (simp add: fire_def Let_def quiet_clearTimer split: option.splits timer_kind.splits)

lemma quiet_no_answer:
  "quiet st \<Longrightarrow> resolve_isPermissionGranted k b st = st"
  "quiet st \<Longrightarrow> resolve_requestPermission k perm st = st"
  "quiet st \<Longrightarrow> reject_permission k st = st"
  by (simp_all add: quiet_def resolve_isPermissionGranted_def resolve_requestPermission_def
        reject_permission_def)

lemma quiet_step:
  assumes "quiet st" and "\<not> reminder_enabled (settings st)"
    and "\<not> reminder_enabled (settings (step e st))"
  shows "quiet (step e st)"
  using assms
  by (cases e)
     (simp_all add: quiet_mount quiet_unmount quiet_handleAddWater quiet_handleRemoveEntry
        quiet_handleSaveSettings quiet_fire quiet_no_answer split: if_splits)

text \<open>No reminder is sent while no recurring timer is live.\<close>

lemma fire_no_reminder:
  assumes "quiet st" and "timers_ok st"
    and "extends_by (- {Send_notification Reminder_message}) t0 (trace st)"
  shows "extends_by (- {Send_notification Reminder_message}) t0 (trace (fire h st))"
proof (cases "find (\<lambda>t. handle t = h) (timers st)")
  case None
  with assms(3) show ?thesis by (simp add: fire_def)
next
  case (Some t)
  then have t: "t \<in> set (timers st)"
    by (auto simp: find_Some_iff in_set_conv_nth)
  with assms(1) have nr: "\<not> recurring t"
    by (auto simp: quiet_def filter_empty_conv)
  have "\<forall>t \<in> set (timers st). recurring t = is_interval (kind t)"
    using assms(2) unfolding timers_ok_def by (rule sched_okD(5))
  with t nr have ni: "\<not> is_interval (kind t)" by blast
  show ?thesis
    using assms(3) ni
    by (cases "kind t")
       (simp_all add: fire_def Some Let_def notify_if is_interval_def extends_by_snoc)
qed

lemma step_no_reminder:
  assumes "quiet st" and "timers_ok st"
    and "extends_by (- {Send_notification Reminder_message}) t0 (trace st)"
  shows "extends_by (- {Send_notification Reminder_message}) t0 (trace (step e st))"
proof -
  have lc: "load_calls \<subseteq> - {Send_notification Reminder_message}"
    by (auto simp: load_calls_def)
  show ?thesis
  proof (cases e)
  case Mount
  with extends_mount[OF assms(3) lc] assms(3) show ?thesis by simp
next
  case Unmount
  with assms(3) show ?thesis by (simp add: unmount_def)
next
  case (Click_add a)
  with extends_handleAddWater[OF assms(3) lc] assms(3) show ?thesis by simp
next
  case (Tray_quick_add a)
  with extends_handleAddWater[OF assms(3) lc] assms(3) show ?thesis by simp
next
  case (Click_remove i)
  with extends_handleRemoveEntry[OF assms(3) lc] assms(3) show ?thesis by simp
next
  case (Change_setting p)
  with extends_handleSaveSettings[OF assms(3) lc] assms(3) show ?thesis by simp
next
  case (Answer_isPermissionGranted k b)
  with assms(1,3) show ?thesis by (simp add: quiet_no_answer)
next
  case (Answer_requestPermission k perm)
  with assms(1,3) show ?thesis by (simp add: quiet_no_answer)
next
  case (Reject_permission_query k)
  with assms(1,3) show ?thesis by (simp add: quiet_no_answer)
next
  case (Fire h)
  with fire_no_reminder[OF assms] show ?thesis by simp
qed
qed

lemma quiet_run:
  assumes "timers_ok st" and "quiet st" and "\<not> reminder_enabled (settings st)"
    and "stays_off es st"
    and "extends_by (- {Send_notification Reminder_message}) t0 (trace st)"
  shows "quiet (run es st)
    \<and> extends_by (- {Send_notification Reminder_message}) t0 (trace (run es st))"
  using assms
proof (induction es arbitrary: st)
  case Nil
  then show ?case by simp
next
  case (Cons e es)
  from Cons.prems(4) have off: "\<not> reminder_enabled (settings (step e st))"
    and rest: "stays_off es (step e st)" by simp_all
  have "quiet (run es (step e st))
    \<and> extends_by (- {Send_notification Reminder_message}) t0 (trace (run es (step e st)))"
    using timers_ok_step[OF Cons.prems(1)] quiet_step[OF Cons.prems(2,3) off] off rest
      step_no_reminder[OF Cons.prems(2,1,5)]
    by (rule Cons.IH)
  then show ?case by simp
qed

lemma lifecycle_fire [simp]: "lifecycle (fire h st) = lifecycle st"
  by (simp add: fire_def Let_def notify_if clearTimer_def setToast_def console_error_def
        playSound_def log_call_def split: option.splits timer_kind.splits)

lemma unmounted_step:
  assumes "lifecycle st = Unmounted" and "quiet st"
  shows "quiet (step e st) \<and> lifecycle (step e st) = Unmounted"
  using assms by (cases e) (simp_all add: quiet_no_answer quiet_fire)

lemma unmounted_run:
  assumes "timers_ok st" and "lifecycle st = Unmounted" and "quiet st"
    and "extends_by (- {Send_notification Reminder_message}) t0 (trace st)"
  shows "quiet (run es st)
    \<and> extends_by (- {Send_notification Reminder_message}) t0 (trace (run es st))"
  using assms
proof (induction es arbitrary: st)
  case Nil
  then show ?case by simp
next
  case (Cons e es)
  have "quiet (run es (step e st))
    \<and> extends_by (- {Send_notification Reminder_message}) t0 (trace (run es (step e st)))"
    using timers_ok_step[OF Cons.prems(1)] unmounted_step[OF Cons.prems(2,3), of e]
      step_no_reminder[OF Cons.prems(3,1,4)]
    by (intro Cons.IH) simp_all
  then show ?case by simp
qed

section \<open>Disarming\<close>

lemma confirmation_not_interval: "is_confirmation k \<Longrightarrow> \<not> is_interval k"
  by (cases k) (simp_all add: is_confirmation_def is_interval_def)

lemma confirmations_clear_ref:
  assumes "sched_ok ts n r a" and "r = Some h \<or> a = Some h"
  shows "confirmations (filter (\<lambda>t. handle t \<noteq> h) ts) = confirmations ts"
proof -
  have "handle t \<noteq> h" if t: "t \<in> set ts" and c: "is_confirmation (kind t)" for t
  proof
    assume eq: "handle t = h"
    from assms(2) show False
    proof
      assume "r = Some h"
      with sched_okD(7)[OF assms(1)] t eq have "recurring t" by blast
      with sched_okD(5)[OF assms(1)] t have "is_interval (kind t)" by blast
      with confirmation_not_interval[OF c] show False by simp
    next
      assume "a = Some h"
      with sched_okD(8)[OF assms(1)] t eq have "kind t = Hide_achievement" by blast
      with c show False by (simp add: is_confirmation_def)
    qed
  qed
  then have "filter (\<lambda>t. is_confirmation (kind t) \<and> handle t \<noteq> h) ts =
             filter (\<lambda>t. is_confirmation (kind t)) ts"
    by (intro filter_cong) auto
  then show ?thesis
    by (simp add: confirmations_def conj_commute)
qed

lemma confirmations_clearTimer:
  assumes "timers_ok st" and "reminderInterval st = Some h \<or> achievementTimeout st = Some h"
  shows "confirmations (timers (clearTimer h st)) = confirmations (timers st)"
  using confirmations_clear_ref[OF assms(1)[unfolded timers_ok_def] assms(2)]
  by (simp add: clearTimer_def)

lemma confirmations_disarm:
  assumes "timers_ok st"
  shows "confirmations (timers (disarm st)) = confirmations (timers st)"
  using confirmations_clearTimer[OF assms]
  by (simp add: disarm_def split: option.splits)

lemma confirmations_effect_cleanup:
  assumes "timers_ok st"
  shows "confirmations (timers (effect_cleanup st)) = confirmations (timers st)"
proof -
  define s1 where "s1 = (case reminderInterval st of
                  None \<Rightarrow> st
                | Some h \<Rightarrow> if h \<noteq> 0 then clearTimer h st else st)"
  have ok1: "timers_ok s1"
    using assms by (simp add: s1_def timers_ok_clearTimer split: option.splits)
  have c1: "confirmations (timers s1) = confirmations (timers st)"
    using confirmations_clearTimer[OF assms] by (simp add: s1_def split: option.splits)
  have eq: "effect_cleanup st = (case achievementTimeout s1 of
           None \<Rightarrow> s1
         | Some h \<Rightarrow> if h \<noteq> 0 then clearTimer h s1 else s1)"
    unfolding effect_cleanup_def Let_def s1_def by (rule refl)
  show ?thesis
    using confirmations_clearTimer[OF ok1] c1 by (simp add: eq split: option.splits)
qed

lemma rerender_disables:
  assumes "timers_ok st" and "reminder_enabled prev" and "\<not> reminder_enabled (settings st)"
  shows "filter recurring (timers (rerender prev st)) = []"
    and "confirmations (timers (rerender prev st)) = confirmations (timers st)"
    and "pending (rerender prev st) = pending st"
proof -
  have deps: "reminder_deps (settings st) \<noteq> reminder_deps prev"
    using assms(2,3) by (auto simp: reminder_deps_def)
  then have eq: "rerender prev st = disarm (effect_cleanup st)"
    using assms(3) by (simp add: rerender_def setupReminder_start_def)
  show "filter recurring (timers (rerender prev st)) = []"
    by (rule recurring_rerender[OF assms(1) deps])
  show "confirmations (timers (rerender prev st)) = confirmations (timers st)"
    using confirmations_disarm[OF timers_ok_effect_cleanup(1)[OF assms(1)]]
      confirmations_effect_cleanup[OF assms(1)]
    by (simp add: eq)
  show "pending (rerender prev st) = pending st"
    by (simp add: eq disarm_def effect_cleanup_def Let_def clearTimer_def split: option.splits)
qed

text \<open>
  What the render does to the scheduler depends on the scheduler and the settings only,
  so it is the same whether the call that the handler issues first has been made or not.
\<close>

lemma rerender_view:
  assumes "timers s = timers st" and "pending s = pending st"
    and "reminderInterval s = reminderInterval st"
    and "achievementTimeout s = achievementTimeout st" and "settings s = settings st"
  shows "timers (rerender prev s) = timers (rerender prev st)"
    and "pending (rerender prev s) = pending (rerender prev st)"
  using assms
  by (simp_all add: rerender_def setupReminder_start_def disarm_def effect_cleanup_def
        clearTimer_def log_call_def Let_def split: option.splits)

lemma handleSaveSettings_sched:
  "filter (\<lambda>t. kind t \<noteq> Hide_toast) (timers (handleSaveSettings p st)) =
     filter (\<lambda>t. kind t \<noteq> Hide_toast)
       (timers (rerender (settings st) (setSettings (merge_settings (settings st) p) st)))
   \<and> pending (handleSaveSettings p st) =
       pending (rerender (settings st) (setSettings (merge_settings (settings st) p) st))"
proof -
  define updated where "updated = merge_settings (settings st) p"
  define s1 where "s1 = setSettings updated st"
  define s2 where "s2 = (case p_theme p of
                  None \<Rightarrow> s1
                | Some t \<Rightarrow> if t \<noteq> [] then s1\<lparr>data_theme := Some t\<rparr> else s1)"
  have s2: "timers s2 = timers s1" "pending s2 = pending s1" "settings s2 = settings s1"
    "reminderInterval s2 = reminderInterval s1" "achievementTimeout s2 = achievementTimeout s1"
    "settings s1 = updated"
    by (simp_all add: s2_def s1_def setSettings_def split: option.splits)
  have ld: "timers (loadData s) = timers s \<and> pending (loadData s) = pending s"
    if "settings s = updated" "db_settings s = updated" for s
    using loadData_same_deps[of s] that by simp
  show ?thesis
  proof (cases "p_start_with_system p")
    case None
    define s3 where "s3 = snd (save_settings updated s2)"
    define s4 where "s4 = rerender (settings st) s3"
    have eq: "handleSaveSettings p st =
        (case fst (save_settings updated s2) of
           Inl e \<Rightarrow> console_error ''Failed to save settings:'' s4
         | Inr u \<Rightarrow> loadData s4)"
      unfolding handleSaveSettings_def Let_def s4_def s3_def s2_def s1_def updated_def
      by (simp add: None case_prod_unfold)
    have s3: "timers s3 = timers s1" "pending s3 = pending s1" "settings s3 = settings s1"
      "reminderInterval s3 = reminderInterval s1" "achievementTimeout s3 = achievementTimeout s1"
      by (simp_all add: s3_def s2 calls_if log_call_def)
    have s4: "timers s4 = timers (rerender (settings st) s1)"
      "pending s4 = pending (rerender (settings st) s1)" "settings s4 = updated"
      using rerender_view[OF s3(1,2,4,5,3)] by (simp_all add: s4_def s3 s2)
    show ?thesis
    proof (cases "fst (save_settings updated s2)")
      case (Inl e)
      then show ?thesis
        by (simp add: eq s4 console_error_def updated_def[symmetric] s1_def[symmetric])
    next
      case (Inr u)
      then have "db_settings s4 = updated" by (simp add: s4_def s3_def)
      from ld[OF s4(3) this] Inr show ?thesis
        by (simp add: eq s4 updated_def[symmetric] s1_def[symmetric])
    qed
  next
    case (Some want)
    define s3 where "s3 = snd (toggle_autostart want s2)"
    define s4 where "s4 = rerender (settings st) s3"
    define s5 where "s5 = (case fst (toggle_autostart want s2) of
                             Inl e \<Rightarrow> toggle_failed s4 | Inr u \<Rightarrow> s4)"
    have eq: "handleSaveSettings p st =
        (case fst (save_settings updated s5) of
           Inl e \<Rightarrow> console_error ''Failed to save settings:'' (snd (save_settings updated s5))
         | Inr u \<Rightarrow> loadData (snd (save_settings updated s5)))"
      unfolding handleSaveSettings_def Let_def s5_def s4_def s3_def s2_def s1_def updated_def
      by (simp add: Some case_prod_unfold)
    have s3: "timers s3 = timers s1" "pending s3 = pending s1" "settings s3 = settings s1"
      "reminderInterval s3 = reminderInterval s1" "achievementTimeout s3 = achievementTimeout s1"
      by (simp_all add: s3_def s2 toggle_autostart_def calls_if log_call_def)
    have s4: "timers s4 = timers (rerender (settings st) s1)"
      "pending s4 = pending (rerender (settings st) s1)" "settings s4 = updated"
      using rerender_view[OF s3(1,2,4,5,3)] by (simp_all add: s4_def s3 s2)
    have s5: "filter (\<lambda>t. kind t \<noteq> Hide_toast) (timers s5) =
                filter (\<lambda>t. kind t \<noteq> Hide_toast) (timers s4)"
      "pending s5 = pending s4" "settings s5 = updated"
      by (simp_all add: s5_def s4 toggle_failed_def showToast_def setToast_def setTimer_def
            console_error_def split: sum.splits)
    let ?s6 = "snd (save_settings updated s5)"
    have s6: "timers ?s6 = timers s5" "pending ?s6 = pending s5" "settings ?s6 = updated"
      by (simp_all add: s5 calls_if log_call_def)
    show ?thesis
    proof (cases "fst (save_settings updated s5)")
      case (Inl e)
      then show ?thesis
        by (simp add: eq s6 s5 s4 console_error_def updated_def[symmetric] s1_def[symmetric])
    next
      case (Inr u)
      then have "db_settings ?s6 = updated" by simp
      from ld[OF s6(3) this] Inr show ?thesis
        by (simp add: eq s6 s5 s4 updated_def[symmetric] s1_def[symmetric])
    qed
  qed
qed

lemma filter_filter_toast:
  "filter recurring ts = filter recurring (filter (\<lambda>t. kind t \<noteq> Hide_toast) ts)" if
  "\<forall>t \<in> set ts. recurring t = is_interval (kind t)"
  using that by (auto simp: is_interval_def intro!: filter_cong)

lemma confirmations_filter_toast:
  "confirmations ts = confirmations (filter (\<lambda>t. kind t \<noteq> Hide_toast) ts)"
  by (auto simp: confirmations_def is_confirmation_def intro!: filter_cong)

lemma pending_effect_cleanup [simp]: "pending (effect_cleanup st) = pending st"
  by (simp add: effect_cleanup_def Let_def clearTimer_def split: option.splits)

text \<open>Any step that ends with reminders off, having begun with them on.\<close>

lemma recurring_off_rerender:
  assumes "timers_ok st" and "reminder_enabled prev" and "\<not> reminder_enabled (settings st)"
  shows "filter recurring (timers (rerender prev st)) = []"
  by (rule rerender_disables(1)[OF assms])

lemma recurring_off_loadData_continue:
  assumes "timers_ok st" and "reminder_enabled (settings st)"
    and "\<not> reminder_enabled (settings (loadData_continue r st))"
  shows "filter recurring (timers (loadData_continue r st)) = []"
proof (cases r)
  case (Inl e)
  with assms(2,3) show ?thesis by (simp add: loadData_continue_def)
next
  case (Inr v)
  obtain a b sv where v: "v = (a, b, sv)" by (cases v) auto
  let ?s4 = "(setSettings (fst (sync_autostart sv (st\<lparr>stats := Some a, entries := b\<rparr>)))
               (snd (sync_autostart sv (st\<lparr>stats := Some a, entries := b\<rparr>))))
             \<lparr>data_theme := Some (theme (fst (sync_autostart sv (st\<lparr>stats := Some a, entries := b\<rparr>))))\<rparr>"
  have eq: "loadData_continue r st = rerender (settings st) ?s4"
    by (simp add: loadData_continue_def Inr v Let_def case_prod_unfold)
  have "timers_ok ?s4" using assms(1) by simp
  moreover have "\<not> reminder_enabled (settings ?s4)" using assms(3) by (simp add: eq)
  ultimately show ?thesis
    unfolding eq using assms(2) by (intro recurring_off_rerender)
qed

lemma recurring_off_loadData:
  assumes "timers_ok st" and "reminder_enabled (settings st)"
    and "\<not> reminder_enabled (settings (loadData st))"
  shows "filter recurring (timers (loadData st)) = []"
  using recurring_off_loadData_continue[of "snd (load_reads st)" "fst (load_reads st)"] assms
  by (simp add: loadData_def Let_def case_prod_unfold)

lemma recurring_off_mount:
  assumes "timers_ok st" and "reminder_enabled (settings st)"
    and "\<not> reminder_enabled (settings (mount st))"
  shows "filter recurring (timers (mount st)) = []"
proof -
  let ?s2 = "setupReminder_start (settings st) (snd (load_reads (st\<lparr>lifecycle := Mounted\<rparr>)))"
  have eq: "mount st = loadData_continue (fst (load_reads (st\<lparr>lifecycle := Mounted\<rparr>))) ?s2"
    by (simp add: mount_def Let_def case_prod_unfold)
  have "timers_ok ?s2" using assms(1) by (simp add: timers_ok_setupReminder_start)
  from recurring_off_loadData_continue[OF this] assms(2,3) show ?thesis by (simp add: eq)
qed

lemma recurring_showToast [simp]:
  "filter recurring (timers (showToast m st)) = filter recurring (timers st)"
  by (simp add: showToast_def setTimer_def setToast_def)

lemma recurring_off_handleAddWater:
  assumes "timers_ok st" and "reminder_enabled (settings st)"
    and "\<not> reminder_enabled (settings (handleAddWater c amount st))"
  shows "filter recurring (timers (handleAddWater c amount st)) = []"
proof (cases "amount \<le> 0")
  case True
  with assms(2,3) show ?thesis by (simp add: handleAddWater_def)
next
  case False
  define s0 where "s0 = playSound Snd_add (sound_enabled (c_settings c)) st"
  show ?thesis
  proof (cases "fst (add_water amount s0)")
    case (Inl e)
    with False assms(2,3) show ?thesis
      by (simp add: handleAddWater_def Let_def case_prod_unfold s0_def)
  next
    case ok: (Inr u)
    show ?thesis
    proof (cases "fst (add_reads (snd (add_water amount s0)))")
      case (Inl e)
      with False ok assms(2,3) show ?thesis
        by (simp add: handleAddWater_def Let_def case_prod_unfold s0_def)
    next
      case (Inr updatedStats)
      define s3 where "s3 = (if \<not> c_achievement_show c \<and> percentage updatedStats \<ge> 100
                                   \<and> (case c_stats c of None \<Rightarrow> False
                                       | Some previous \<Rightarrow> percentage previous < 100)
                             then unlock_achievement c (snd (add_reads (snd (add_water amount s0))))
                             else snd (add_reads (snd (add_water amount s0))))"
      have eq: "handleAddWater c amount st =
                  (showToast (Toast_added amount) (loadData s3))\<lparr>customAmount := []\<rparr>"
        using False ok Inr
        by (simp add: handleAddWater_def Let_def case_prod_unfold s0_def[symmetric] s3_def)
      have "timers_ok s3" "reminder_enabled (settings s3)"
        using assms(1,2) by (simp_all add: s3_def s0_def timers_ok_unlock_achievement)
      moreover have "\<not> reminder_enabled (settings (loadData s3))"
        using assms(3) by (simp add: eq)
      ultimately have "filter recurring (timers (loadData s3)) = []"
        by (rule recurring_off_loadData)
      then show ?thesis by (simp add: eq)
    qed
  qed
qed

lemma recurring_off_handleRemoveEntry:
  assumes "timers_ok st" and "reminder_enabled (settings st)"
    and "\<not> reminder_enabled (settings (handleRemoveEntry c i st))"
  shows "filter recurring (timers (handleRemoveEntry c i st)) = []"
proof -
  define s0 where "s0 = playSound Snd_delete (sound_enabled (c_settings c)) st"
  show ?thesis
  proof (cases "fst (remove_entry i s0)")
    case (Inl e)
    with assms(2,3) show ?thesis
      by (simp add: handleRemoveEntry_def Let_def case_prod_unfold s0_def)
  next
    case (Inr u)
    then have eq: "handleRemoveEntry c i st = loadData (snd (remove_entry i s0))"
      by (simp add: handleRemoveEntry_def Let_def case_prod_unfold s0_def)
    have "timers_ok (snd (remove_entry i s0))" "reminder_enabled (settings (snd (remove_entry i s0)))"
      using assms(1,2) by (simp_all add: s0_def)
    from recurring_off_loadData[OF this] assms(3) show ?thesis by (simp add: eq)
  qed
qed

lemma handleSaveSettings_disables:
  assumes "timers_ok st" and "reminder_enabled (settings st)"
    and "\<not> reminder_enabled (settings (handleSaveSettings p st))"
  shows "filter recurring (timers (handleSaveSettings p st)) = []"
    and "confirmations (timers (handleSaveSettings p st)) = confirmations (timers st)"
    and "pending (handleSaveSettings p st) = pending st"
proof -
  let ?new = "merge_settings (settings st) p"
  let ?r = "rerender (settings st) (setSettings ?new st)"
  have new: "\<not> reminder_enabled ?new"
    using deps_enabled[OF handleSaveSettings_deps[of p st]] assms(3) by simp
  have ok1: "timers_ok (setSettings ?new st)" using assms(1) by simp
  have d: "filter recurring (timers ?r) = []" "confirmations (timers ?r) = confirmations (timers st)"
    "pending ?r = pending st"
    using rerender_disables[OF ok1 assms(2)] new by (simp_all add: setSettings_def)
  note h = handleSaveSettings_sched[of p st]
  have "timers_ok (handleSaveSettings p st)"
    by (rule timers_ok_handleSaveSettings[OF assms(1)])
  then have wf: "\<forall>t \<in> set (timers (handleSaveSettings p st)). recurring t = is_interval (kind t)"
    unfolding timers_ok_def by (rule sched_okD(5))
  have "timers_ok ?r" by (rule timers_ok_rerender[OF ok1])
  then have wf1: "\<forall>t \<in> set (timers ?r). recurring t = is_interval (kind t)"
    unfolding timers_ok_def by (rule sched_okD(5))
  have "filter recurring (timers (handleSaveSettings p st)) = filter recurring (timers ?r)"
    using filter_filter_toast[OF wf] filter_filter_toast[OF wf1] h by simp
  with d show "filter recurring (timers (handleSaveSettings p st)) = []" by simp
  have "confirmations (timers (handleSaveSettings p st)) = confirmations (timers ?r)"
    using confirmations_filter_toast[of "timers (handleSaveSettings p st)"]
      confirmations_filter_toast[of "timers ?r"] h by simp
  with d show "confirmations (timers (handleSaveSettings p st)) = confirmations (timers st)"
    by simp
  from h d show "pending (handleSaveSettings p st) = pending st" by simp
qed

lemma settings_answers [simp]:
  "settings (resolve_isPermissionGranted k b st) = settings st"
  "settings (resolve_requestPermission k perm st) = settings st"
  "settings (reject_permission k st) = settings st"
  "settings (unmount st) = settings st"
  by (simp_all add: resolve_isPermissionGranted_def resolve_requestPermission_def
        reject_permission_def after_isPermissionGranted_def after_requestPermission_def
        unmount_def Let_def)

lemma recurring_off_step:
  assumes "timers_ok st" and "reminder_enabled (settings st)"
    and "\<not> reminder_enabled (settings (step e st))"
  shows "filter recurring (timers (step e st)) = []"
  using assms
  by (cases e)
     (simp_all add: recurring_off_mount recurring_off_handleAddWater
        recurring_off_handleRemoveEntry handleSaveSettings_disables(1) split: if_splits)




section \<open>A month without entries\<close>

text \<open>
  C8. For a month in which no entry lies, the monthly statistics have no days, a total of
  0, an average of 0 (the division by the number of days with data is not carried out),
  no day on which the goal was met, and both streaks 0.
\<close>

theorem empty_month_stats:
  assumes "\<forall>e \<in> set es. \<not> in_month y m e"
  shows "days (get_monthly_stats label y m goal es) = []
    \<and> total_ml_m (get_monthly_stats label y m goal es) = 0
    \<and> average_ml (get_monthly_stats label y m goal es) = 0
    \<and> days_goal_met (get_monthly_stats label y m goal es) = 0
    \<and> current_streak (get_monthly_stats label y m goal es) = 0
    \<and> best_streak (get_monthly_stats label y m goal es) = 0"
proof -
  from assms have "filter (in_month y m) es = []"
    by (simp add: filter_empty_conv)
  then have "days_with_data y m es = []"
    by (simp add: days_with_data_def)
  then show ?thesis
    by (simp add: get_monthly_stats_def)
qed

theorem empty_month_stats_witness:
  "\<not> in_month 2024 6 (may_entry 1 30 500) \<and> \<not> in_month 2024 6 (may_entry 2 31 4000)
   \<and> days (get_monthly_stats (\<lambda>m. ''June'') 2024 6 4000 [may_entry 1 30 500, may_entry 2 31 4000]) = []
   \<and> average_ml (get_monthly_stats (\<lambda>m. ''June'') 2024 6 4000 [may_entry 1 30 500, may_entry 2 31 4000]) = 0
   \<and> best_streak (get_monthly_stats (\<lambda>m. ''June'') 2024 6 4000 [may_entry 1 30 500, may_entry 2 31 4000]) = 0
   \<and> current_streak (get_monthly_stats (\<lambda>m. ''May'') 2024 5 4000 [may_entry 1 30 500, may_entry 2 31 4000]) = 1"
proof -
  have a: "\<forall>e \<in> set [may_entry 1 30 500, may_entry 2 31 4000]. \<not> in_month 2024 6 e"
    by (simp add: in_month_def may_entry_def)
  have b: "current_streak (get_monthly_stats (\<lambda>m. ''May'') 2024 5 4000
             [may_entry 1 30 500, may_entry 2 31 4000]) = 1"
    by code_simp
  from empty_month_stats[OF a, of "\<lambda>m. ''June''" 4000] b show ?thesis
    by (simp add: in_month_def may_entry_def)
qed

end
